(* ===== verification/Prelude.thy ===== *)
theory Prelude
  imports Main "HOL-Library.Product_Lexorder"
begin

text \<open>
  Shared vocabulary of the development: the Python builtins that the repository's code
  calls on strings and integers (\<open>str.isspace\<close>, \<open>str.strip\<close>, \<open>str.split\<close>,
  \<open>sep.join\<close>, \<open>str(n)\<close>, \<open>int(s)\<close>, \<open>re.sub(r'\s+', ...)\<close>), written once here and
  used by every component theory, with the lemmas on them that the component proofs share.

  Characters are Isabelle's 8-bit \<open>char\<close>. The ASCII half is classified exactly as
  CPython classifies it. The upper half stands for the non-ASCII code points the program
  meets in comic text: codes 128--191 for non-ASCII punctuation and symbols
  (\<open>\<dots>\<close>, ideographic full stop, corner brackets), codes 192--255 for non-ASCII letters
  (kana, hanzi, hangul), which are alphanumeric and uncased.
\<close>

named_theorems py_simps "evaluation rules of the modelled Python builtins"

subsection \<open>Character classes\<close>

definition py_isspace :: "char \<Rightarrow> bool" where
  "py_isspace c \<longleftrightarrow> (let n = (of_char c :: nat) in (9 \<le> n \<and> n \<le> 13) \<or> (28 \<le> n \<and> n \<le> 32))"

definition py_isdigit :: "char \<Rightarrow> bool" where
  "py_isdigit c \<longleftrightarrow> (let n = (of_char c :: nat) in 48 \<le> n \<and> n \<le> 57)"

definition py_isupper :: "char \<Rightarrow> bool" where
  "py_isupper c \<longleftrightarrow> (let n = (of_char c :: nat) in 65 \<le> n \<and> n \<le> 90)"

definition py_islower :: "char \<Rightarrow> bool" where
  "py_islower c \<longleftrightarrow> (let n = (of_char c :: nat) in 97 \<le> n \<and> n \<le> 122)"

definition py_isalnum :: "char \<Rightarrow> bool" where
  "py_isalnum c \<longleftrightarrow> py_isdigit c \<or> py_isupper c \<or> py_islower c \<or> 192 \<le> (of_char c :: nat)"

definition py_isword :: "char \<Rightarrow> bool" where
  \<comment> \<open>the regular-expression class \<open>\w\<close>\<close>
  "py_isword c \<longleftrightarrow> py_isalnum c \<or> c = CHR ''_''"

definition py_lower :: "char \<Rightarrow> char" where
  "py_lower c = (if py_isupper c then char_of (of_char c + (32 :: nat)) else c)"

definition py_upper :: "char \<Rightarrow> char" where
  "py_upper c = (if py_islower c then char_of (of_char c - (32 :: nat)) else c)"

lemmas py_char_defs [py_simps] =
  py_isspace_def py_isdigit_def py_isupper_def py_islower_def py_isalnum_def py_isword_def

subsection \<open>Strings\<close>

text \<open>\<open>s.strip()\<close> and \<open>s.rstrip()\<close> with no argument remove whitespace.\<close>

definition py_rstrip :: "string \<Rightarrow> string" where
  "py_rstrip s = rev (dropWhile py_isspace (rev s))"

definition py_strip :: "string \<Rightarrow> string" where
  "py_strip s = dropWhile py_isspace (py_rstrip s)"

text \<open>\<open>s.strip(d)\<close> for a one-character argument.\<close>

definition py_strip_char :: "char \<Rightarrow> string \<Rightarrow> string" where
  "py_strip_char d s = dropWhile (\<lambda>c. c = d) (rev (dropWhile (\<lambda>c. c = d) (rev s)))"

text \<open>\<open>not s.strip()\<close>: the string is empty or all whitespace.\<close>

definition py_blank :: "string \<Rightarrow> bool" where
  "py_blank s \<longleftrightarrow> (\<forall>c \<in> set s. py_isspace c)"

text \<open>\<open>sep.join(xs)\<close>.\<close>

fun py_join :: "string \<Rightarrow> string list \<Rightarrow> string" where
  "py_join sep [] = []"
| "py_join sep [x] = x"
| "py_join sep (x # y # xs) = x @ sep @ py_join sep (y # xs)"

text \<open>\<open>s.split()\<close>: maximal runs of non-whitespace characters.\<close>

fun py_split_aux :: "string \<Rightarrow> string \<Rightarrow> string list" where
  "py_split_aux cur [] = (if cur = [] then [] else [rev cur])"
| "py_split_aux cur (c # cs) =
     (if py_isspace c
      then (if cur = [] then py_split_aux [] cs else rev cur # py_split_aux [] cs)
      else py_split_aux (c # cur) cs)"

definition py_split :: "string \<Rightarrow> string list" where
  "py_split s = py_split_aux [] s"

text \<open>\<open>s.split(d)\<close> for a one-character separator: empty fields are kept.\<close>

fun py_split_on :: "char \<Rightarrow> string \<Rightarrow> string list" where
  "py_split_on d [] = [[]]"
| "py_split_on d (c # cs) =
     (let r = py_split_on d cs in if c = d then [] # r else (c # hd r) # tl r)"

text \<open>\<open>re.sub(r'\s+', ' ', s)\<close> and \<open>re.sub(r'\s+', '', s)\<close>.\<close>

function collapse_ws :: "string \<Rightarrow> string" where
  "collapse_ws [] = []"
| "collapse_ws (c # cs) =
     (if py_isspace c then CHR '' '' # collapse_ws (dropWhile py_isspace cs)
      else c # collapse_ws cs)"
  by pat_completeness auto
termination
  by (relation "measure length") (auto simp: le_imp_less_Suc length_dropWhile_le)

definition remove_ws :: "string \<Rightarrow> string" where
  "remove_ws s = filter (\<lambda>c. \<not> py_isspace c) s"

text \<open>\<open>s.lower()\<close>, \<open>s.upper()\<close> and the substring test \<open>p in s\<close>.\<close>

definition py_lower_str :: "string \<Rightarrow> string" where
  "py_lower_str s = map py_lower s"

fun py_contains :: "string \<Rightarrow> string \<Rightarrow> bool" where
  "py_contains p [] \<longleftrightarrow> p = []"
| "py_contains p (c # s) \<longleftrightarrow> take (length p) (c # s) = p \<or> py_contains p s"

text \<open>\<open>len(set(s))\<close>: the number of distinct characters.\<close>

definition distinct_chars :: "string \<Rightarrow> nat" where
  "distinct_chars s = length (remdups s)"

subsection \<open>Decimal numerals: \<open>str(n)\<close> and \<open>int(s)\<close>\<close>

definition digit_char :: "nat \<Rightarrow> char" where
  "digit_char d = ''0123456789'' ! d"

fun nat_to_str :: "nat \<Rightarrow> string" where
  "nat_to_str n =
     (if n < 10 then [digit_char n] else nat_to_str (n div 10) @ [digit_char (n mod 10)])"

definition str_to_nat :: "string \<Rightarrow> nat" where
  "str_to_nat s = foldl (\<lambda>acc c. 10 * acc + (of_char c - 48)) 0 s"

declare nat_to_str.simps [simp del]

subsection \<open>Lemmas shared by the components\<close>

lemma py_blank_iff_strip [py_simps]: "py_blank s \<longleftrightarrow> py_strip s = []"
  by (induction s rule: rev_induct)
     (auto simp: py_blank_def py_strip_def py_rstrip_def dropWhile_eq_Nil_conv)

lemma py_strip_nonempty_not_blank: "py_strip s \<noteq> [] \<Longrightarrow> \<not> py_blank (py_strip s)"
proof -
  assume ne: "py_strip s \<noteq> []"
  then have "\<not> py_isspace (hd (py_strip s))"
    unfolding py_strip_def by (rule hd_dropWhile)
  with ne show ?thesis by (auto simp: py_blank_def)
qed

lemma py_blank_Nil [simp]: "py_blank []"
  by (simp add: py_blank_def)

lemma py_blank_Cons [simp]: "py_blank (c # s) \<longleftrightarrow> py_isspace c \<and> py_blank s"
  by (simp add: py_blank_def)

lemma py_blank_append [simp]: "py_blank (s @ t) \<longleftrightarrow> py_blank s \<and> py_blank t"
  by (auto simp: py_blank_def)

lemma py_isspace_not_alnum [simp]: "py_isspace c \<Longrightarrow> \<not> py_isalnum c"
  by (auto simp: py_char_defs Let_def)

lemma py_isspace_not_digit [simp]: "py_isspace c \<Longrightarrow> \<not> py_isdigit c"
  by (auto simp: py_char_defs Let_def)

lemma py_join_Cons: "xs \<noteq> [] \<Longrightarrow> py_join sep (x # xs) = x @ sep @ py_join sep xs"
  by (cases xs) auto

lemma py_join_append_sep:
  "ys \<noteq> [] \<Longrightarrow> xs \<noteq> [] \<Longrightarrow> py_join sep (xs @ ys) = py_join sep xs @ sep @ py_join sep ys"
  by (induction sep xs rule: py_join.induct) (auto simp: py_join_Cons)

lemma py_split_on_nonempty [simp]: "py_split_on d s \<noteq> []"
  by (induction s) (auto simp: Let_def)

lemma py_join_split_on: "py_join [d] (py_split_on d s) = s"
proof (induction s)
  case Nil
  then show ?case by simp
next
  case (Cons c cs)
  obtain w ws where r: "py_split_on d cs = w # ws"
    using py_split_on_nonempty by (metis list.exhaust)
  show ?case
  proof (cases "c = d")
    case True
    then show ?thesis using Cons.IH r by (simp add: Let_def py_join_Cons)
  next
    case False
    then show ?thesis using Cons.IH r by (cases ws) (simp_all add: Let_def)
  qed
qed

text \<open>\<open>s.split()\<close> against concatenation, stripping and joining with a space: a space ends
  a word, surrounding whitespace is dropped, and a word is split into itself.\<close>

lemma py_split_aux_space:
  "py_isspace c \<Longrightarrow> py_split_aux cur (xs @ c # ys) = py_split_aux cur xs @ py_split_aux [] ys"
  by (induction xs arbitrary: cur) auto

lemma py_split_aux_trailing:
  "\<forall>c \<in> set sp. py_isspace c \<Longrightarrow> py_split_aux cur (xs @ sp) = py_split_aux cur xs"
proof (induction xs arbitrary: cur)
  case Nil
  then show ?case by (induction sp arbitrary: cur) auto
qed auto

lemma py_split_aux_leading: "py_split_aux [] (dropWhile py_isspace s) = py_split_aux [] s"
  by (induction s) auto

lemma py_split_strip [simp]: "py_split (py_strip s) = py_split s"
proof -
  let ?r = "py_rstrip s" and ?t = "rev (takeWhile py_isspace (rev s))"
  have e0: "rev (takeWhile py_isspace (rev s) @ dropWhile py_isspace (rev s)) = s"
    by (simp only: takeWhile_dropWhile_id rev_rev_ident)
  then have e: "?r @ ?t = s" by (simp only: rev_append py_rstrip_def)
  have "\<forall>c \<in> set ?t. py_isspace c" by (auto dest: set_takeWhileD)
  then have "py_split_aux [] (?r @ ?t) = py_split_aux [] ?r" by (rule py_split_aux_trailing)
  then have "py_split_aux [] s = py_split_aux [] ?r" by (simp only: e)
  then show ?thesis by (simp add: py_split_def py_strip_def py_split_aux_leading)
qed

lemma py_split_aux_word:
  "\<forall>c \<in> set w. \<not> py_isspace c \<Longrightarrow> py_split_aux cur w = (if cur = [] \<and> w = [] then [] else [rev cur @ w])"
  by (induction w arbitrary: cur) auto

lemma py_isspace_blank_char [simp]: "py_isspace (CHR '' '')"
  by (simp add: py_simps)

lemma py_split_join_space:
  "py_split (py_join '' '' xs) = concat (map py_split xs)"
proof (induction xs rule: induct_list012)
  case (3 x y xs)
  have "py_split_aux [] (x @ CHR '' '' # py_join '' '' (y # xs)) = py_split_aux [] x @ py_split_aux [] (py_join '' '' (y # xs))"
    by (rule py_split_aux_space) simp
  then show ?case using 3(2) by (simp add: py_split_def)
qed (simp_all add: py_split_def)

lemma py_split_aux_words:
  "\<forall>c \<in> set cur. \<not> py_isspace c \<Longrightarrow> w \<in> set (py_split_aux cur s) \<Longrightarrow> w \<noteq> [] \<and> (\<forall>c \<in> set w. \<not> py_isspace c)"
proof (induction s arbitrary: cur)
  case Nil
  then show ?case by (simp split: if_splits)
next
  case (Cons c cs)
  show ?case
  proof (cases "py_isspace c")
    case True
    then have "w = rev cur \<and> cur \<noteq> [] \<or> w \<in> set (py_split_aux [] cs)"
      using Cons.prems(2) by (simp split: if_splits)
    then show ?thesis
    proof
      assume "w \<in> set (py_split_aux [] cs)"
      then show ?thesis by (rule Cons.IH [rotated]) simp
    qed (use Cons.prems(1) in auto)
  next
    case False
    then have "w \<in> set (py_split_aux (c # cur) cs)" using Cons.prems(2) by simp
    then show ?thesis by (rule Cons.IH [rotated]) (simp add: False Cons.prems(1))
  qed
qed

lemma py_split_word: "w \<noteq> [] \<Longrightarrow> \<forall>c \<in> set w. \<not> py_isspace c \<Longrightarrow> py_split w = [w]"
  by (simp add: py_split_def py_split_aux_word)

lemma py_split_of_split: "w \<in> set (py_split s) \<Longrightarrow> py_split w = [w]"
proof -
  assume "w \<in> set (py_split s)"
  then have "w \<noteq> [] \<and> (\<forall>c \<in> set w. \<not> py_isspace c)"
    using py_split_aux_words [of "[]" w s] by (simp add: py_split_def)
  then show ?thesis using py_split_word by blast
qed

lemma py_split_aux_blank: "py_blank s \<Longrightarrow> py_split_aux [] s = []"
  by (induction s) simp_all

lemma py_split_blank: "py_blank s \<Longrightarrow> py_split s = []"
  by (simp add: py_split_def py_split_aux_blank)

lemma py_split_space_append: "py_split (x @ '' '' @ y) = py_split x @ py_split y"
  using py_split_aux_space [of "CHR '' ''" "[]" x y] by (simp add: py_split_def)

lemma find_SomeD': "find P xs = Some x \<Longrightarrow> x \<in> set xs \<and> P x"
  by (induction xs) (auto split: if_splits)

text \<open>Code equations for the character classes on the eight bits of a character: the same
  predicates, evaluated without converting the character to a number.\<close>

lemma of_char_Char_sum:
  "(of_char (Char b0 b1 b2 b3 b4 b5 b6 b7) :: nat) =
   of_bool b0 + 2 * of_bool b1 + 4 * of_bool b2 + 8 * of_bool b3 + 16 * of_bool b4 + 32 * of_bool b5
   + 64 * of_bool b6 + 128 * of_bool b7"
  by simp

lemma py_isupper_code [code]:
  "py_isupper (Char b0 b1 b2 b3 b4 b5 b6 b7) \<longleftrightarrow>
   \<not> b7 \<and> b6 \<and> \<not> b5 \<and> (b0 \<or> b1 \<or> b2 \<or> b3 \<or> b4) \<and> \<not> (b4 \<and> b3 \<and> (b2 \<or> b1 \<and> b0))"
  unfolding py_isupper_def Let_def of_char_Char_sum
  by (cases b0; cases b1; cases b2; cases b3; cases b4; cases b5; cases b6; cases b7) simp_all

lemma py_lower_code [code]:
  "py_lower (Char b0 b1 b2 b3 b4 b5 b6 b7) =
   (if py_isupper (Char b0 b1 b2 b3 b4 b5 b6 b7) then Char b0 b1 b2 b3 b4 True b6 b7 else Char b0 b1 b2 b3 b4 b5 b6 b7)"
proof (cases "py_isupper (Char b0 b1 b2 b3 b4 b5 b6 b7)")
  case True
  then have "\<not> b5" by (simp add: py_isupper_code)
  then have e: "of_char (Char b0 b1 b2 b3 b4 b5 b6 b7) + (32::nat) = of_char (Char b0 b1 b2 b3 b4 True b6 b7)"
    unfolding of_char_Char_sum by simp
  have "py_lower (Char b0 b1 b2 b3 b4 b5 b6 b7) = char_of (of_char (Char b0 b1 b2 b3 b4 b5 b6 b7) + (32::nat))"
    unfolding py_lower_def if_P [OF True] ..
  also have "\<dots> = char_of (of_char (Char b0 b1 b2 b3 b4 True b6 b7) :: nat)" by (simp only: e)
  also have "\<dots> = Char b0 b1 b2 b3 b4 True b6 b7" by (rule char_of_char)
  finally show ?thesis using True by simp
qed (simp add: py_lower_def)

lemma py_isspace_code [code]:
  "py_isspace (Char b0 b1 b2 b3 b4 b5 b6 b7) \<longleftrightarrow>
   \<not> b7 \<and> \<not> b6 \<and>
   ((\<not> b5 \<and> \<not> b4 \<and> b3 \<and> (b0 \<or> b1 \<or> b2) \<and> \<not> (b2 \<and> b1)) \<or> (\<not> b5 \<and> b4 \<and> b3 \<and> b2) \<or> (b5 \<and> \<not> b4 \<and> \<not> b3 \<and> \<not> b2 \<and> \<not> b1 \<and> \<not> b0))"
  unfolding py_isspace_def Let_def of_char_Char_sum
  by (cases b0; cases b1; cases b2; cases b3; cases b4; cases b5; cases b6; cases b7) simp_all

lemma digit_char_code: "d < 10 \<Longrightarrow> of_char (digit_char d) = 48 + d"
proof -
  assume "d < 10"
  then have "d \<in> {0, 1, 2, 3, 4, 5, 6, 7, 8, 9}" by auto
  then show ?thesis by (auto simp: digit_char_def)
qed

lemma digit_char_isdigit: "d < 10 \<Longrightarrow> py_isdigit (digit_char d)"
  by (simp add: py_isdigit_def digit_char_code)

lemma nat_to_str_nonempty [simp]: "nat_to_str n \<noteq> []"
  by (subst nat_to_str.simps) simp

lemma nat_to_str_digits: "c \<in> set (nat_to_str n) \<Longrightarrow> py_isdigit c"
proof (induction n rule: nat_to_str.induct)
  case (1 n)
  show ?case
  proof (cases "n < 10")
    case True
    with "1.prems" show ?thesis
      by (subst (asm) nat_to_str.simps) (simp add: digit_char_isdigit)
  next
    case False
    with "1.prems" "1.IH" show ?thesis
      by (subst (asm) nat_to_str.simps) (auto simp: digit_char_isdigit)
  qed
qed

lemma str_to_nat_snoc: "str_to_nat (s @ [c]) = 10 * str_to_nat s + (of_char c - 48)"
  by (simp add: str_to_nat_def)

lemma str_to_nat_nat_to_str [simp]: "str_to_nat (nat_to_str n) = n"
proof (induction n rule: nat_to_str.induct)
  case (1 n)
  show ?case
  proof (cases "n < 10")
    case True
    then show ?thesis by (subst nat_to_str.simps) (simp add: str_to_nat_def digit_char_code)
  next
    case False
    then have "str_to_nat (nat_to_str n) = 10 * (n div 10) + n mod 10"
      using "1.IH" by (subst nat_to_str.simps) (simp add: str_to_nat_snoc digit_char_code)
    then show ?thesis by simp
  qed
qed

lemma nat_to_str_inj: "nat_to_str m = nat_to_str n \<longleftrightarrow> m = n"
  by (metis str_to_nat_nat_to_str)

lemma distinct_chars_card: "distinct_chars s = card (set s)"
  by (simp add: distinct_chars_def length_remdups_card_conv)

subsection \<open>Lists as stores, sorting, association lists\<close>

text \<open>
  A Python loop that mutates list elements through indices is a fold of list updates; when
  every index is written at most once, the element at an index is the update for that index.
\<close>

lemma fold_update_nth_length:
  "length (fold (\<lambda>(i, j) xs'. xs'[j := g i (xs' ! j)]) ps xs) = length xs"
  by (induction ps arbitrary: xs) auto

lemma fold_update_nth:
  "distinct (map snd ps) \<Longrightarrow> j < length xs \<Longrightarrow>
   fold (\<lambda>(i, j) xs'. xs'[j := g i (xs' ! j)]) ps xs ! j =
   (case map_of (map (\<lambda>(i, j). (j, i)) ps) j of Some i \<Rightarrow> g i (xs ! j) | None \<Rightarrow> xs ! j)"
proof (induction ps arbitrary: xs)
  case Nil
  then show ?case by simp
next
  case (Cons p ps)
  obtain i k where p: "p = (i, k)" by (cases p)
  let ?xs = "xs[k := g i (xs ! k)]"
  have "j < length ?xs" using Cons.prems by simp
  then have IH: "fold (\<lambda>(i, j) xs'. xs'[j := g i (xs' ! j)]) ps ?xs ! j =
      (case map_of (map (\<lambda>(i, j). (j, i)) ps) j of Some i \<Rightarrow> g i (?xs ! j) | None \<Rightarrow> ?xs ! j)"
    using Cons.prems Cons.IH by simp
  show ?case
  proof (cases "j = k")
    case True
    with Cons.prems p have "map_of (map (\<lambda>(i, j). (j, i)) ps) j = None"
      by (force simp: map_of_eq_None_iff)
    with True IH Cons.prems p show ?thesis by simp
  next
    case False
    with IH p show ?thesis by (simp split: option.splits)
  qed
qed

lemma map_insort_key_comp:
  "map f (insort_key (\<lambda>x. g (f x)) a xs) = insort_key g (f a) (map f xs)"
  by (induction xs) auto

lemma map_sort_key_comp: "map f (sort_key (\<lambda>x. g (f x)) xs) = sort_key g (map f xs)"
  by (induction xs) (simp_all add: map_insort_key_comp)

lemma map_of_rev_distinct: "distinct (map fst xs) \<Longrightarrow> map_of (rev xs) = map_of xs"
proof (rule ext)
  fix k
  assume d: "distinct (map fst xs)"
  then have d': "distinct (map fst (rev xs))" by (simp add: rev_map[symmetric])
  show "map_of (rev xs) k = map_of xs k"
  proof (cases "map_of xs k")
    case None
    then have "k \<notin> fst ` set (rev xs)" by (simp add: map_of_eq_None_iff)
    then have "map_of (rev xs) k = None" by (metis map_of_eq_None_iff)
    then show ?thesis using None by simp
  next
    case (Some v)
    with d have "(k, v) \<in> set xs" by simp
    with d' show ?thesis using Some by simp
  qed
qed

lemma enumerate_conv_map: "enumerate 0 xs = map (\<lambda>i. (i, xs ! i)) [0..<length xs]"
  by (rule nth_equalityI) (simp_all add: nth_enumerate_eq)

lemma length_fold_update [simp]:
  "length (fold (\<lambda>j xs. xs[j := F j xs]) js xs) = length xs"
  by (induction js arbitrary: xs) auto

lemma fold_update_pairs_length [simp]:
  "length (fold (\<lambda>(i, c) xs. xs[g i := c]) ps xs) = length xs"
  by (induction ps arbitrary: xs) auto

lemma fold_update_pairs_other:
  "(\<forall>(i, c) \<in> set ps. g i \<noteq> j) \<Longrightarrow> fold (\<lambda>(i, c) xs. xs[g i := c]) ps xs ! j = xs ! j"
  by (induction ps arbitrary: xs) auto

end
