(* ===== verification/Translator.thy ===== *)
theory Translator
  imports Complex_Main Prelude
begin

text \<open>
  One translation provider as \<open>services/translate/base.py\<close> defines it
  (\<open>BaseTranslator\<close>) with the two concrete providers of \<open>deepl_translator.py\<close> and
  \<open>google_translator.py\<close>: language-code normalisation and support, the "valuable
  text" filter, the rate-limit sleep, the invalid-output retry loop, the output clean-up with
  the repair of looping output, and each provider's \<open>_translate\<close> over a network oracle.

  A provider object is the record \<open>translator\<close>; its class is the field \<open>kind\<close>, and the
  class constants (\<open>_LANGUAGE_CODE_MAP\<close>, \<open>_INVALID_REPEAT_COUNT\<close>,
  \<open>_MAX_REQUESTS_PER_MINUTE\<close>) are functions of the kind. The wall clock
  (\<open>time.time()\<close>) is a real number passed in and returned: sleeping advances it by the
  time slept and nothing else does. The network is an oracle \<open>api\<close> from the provider,
  the two provider language codes and the query to the outcome of one HTTP request.
\<close>

subsection \<open>Language codes\<close>

definition supported_languages :: "string \<Rightarrow> string option" where
  "supported_languages = map_of
     [(''sim_chinese'', ''Chinese (Simplified)''), (''trad_chinese'', ''Chinese (Traditional)''),
      (''korean'', ''Korean''), (''vietnamese'', ''Vietnamese''), (''japanese'', ''Japanese''),
      (''english'', ''English'')]"

definition legacy_language_map :: "string \<Rightarrow> string option" where
  "legacy_language_map = map_of
     [(''JPN'', ''japanese''), (''ENG'', ''english''), (''KOR'', ''korean''),
      (''VIN'', ''vietnamese''), (''CHI'', ''sim_chinese''), (''CHT'', ''trad_chinese'')]"

definition normalize_language_code :: "string \<Rightarrow> string" where
  "normalize_language_code c = (case legacy_language_map c of Some v \<Rightarrow> v | None \<Rightarrow> c)"

subsection \<open>Valuable text and repeating sequences\<close>

text \<open>
  \<open>alphanumeric_count < len(cleaned) * 0.3\<close> is a float comparison; for every length below
  \<open>2^50\<close> it agrees with the exact \<open>10 * count < 3 * len\<close> (the product rounds to the
  integer when \<open>len\<close> is a multiple of ten, and otherwise stays more than 0.1 from one).
\<close>

definition is_valuable_text :: "string \<Rightarrow> bool" where
  "is_valuable_text t \<longleftrightarrow>
     (if t = [] \<or> py_blank t then False
      else (let cleaned = remove_ws t in
            if length cleaned < 2 then False
            else \<not> (10 * length (filter py_isalnum cleaned) < 3 * length cleaned)))"

text \<open>\<open>repeating_sequence\<close>: the shortest prefix whose repetition covers the text up to a
  remainder shorter than the prefix; the text itself when there is none.\<close>

definition tiles :: "string \<Rightarrow> nat \<Rightarrow> bool" where
  "tiles t k \<longleftrightarrow> concat (replicate (length t div k) (take k t)) = take ((length t div k) * k) t"

definition repeating_sequence :: "string \<Rightarrow> string" where
  "repeating_sequence t =
     (if t = [] then []
      else (case find (tiles t) [1..<length t div 2 + 1] of
              Some k \<Rightarrow> take k t
            | None \<Rightarrow> t))"

subsection \<open>Providers\<close>

datatype provider_kind = DeepL | Google

fun language_code_map :: "provider_kind \<Rightarrow> string \<Rightarrow> string option" where
  "language_code_map DeepL = map_of
     [(''sim_chinese'', ''zh''), (''trad_chinese'', ''zh-hant''), (''korean'', ''ko''),
      (''japanese'', ''ja''), (''english'', ''en'')]"
| "language_code_map Google = map_of
     [(''sim_chinese'', ''zh-cn''), (''trad_chinese'', ''zh-tw''), (''korean'', ''ko''),
      (''vietnamese'', ''vi''), (''japanese'', ''ja''), (''english'', ''en'')]"

fun invalid_repeat_count :: "provider_kind \<Rightarrow> nat" where
  "invalid_repeat_count DeepL = 0"
| "invalid_repeat_count Google = 1"

fun max_requests_per_minute :: "provider_kind \<Rightarrow> int" where
  "max_requests_per_minute DeepL = 3"
| "max_requests_per_minute Google = 3"

record translator =
  kind :: provider_kind
  last_request_ts :: real
  request_count :: nat
  rate_limited :: bool      \<comment> \<open>GoogleTranslator\<close>
  quota_exceeded :: bool    \<comment> \<open>DeepLTranslator\<close>
  auth_failed :: bool       \<comment> \<open>DeepLTranslator\<close>
  client_ready :: bool      \<comment> \<open>DeepLTranslator: \<open>self.translator is not None\<close>\<close>

definition new_translator :: "provider_kind \<Rightarrow> bool \<Rightarrow> bool \<Rightarrow> translator" where
  \<comment> \<open>\<open>__init__\<close>; for DeepL whether the client came up and whether authorisation failed\<close>
  "new_translator k ready auth =
     \<lparr>kind = k, last_request_ts = 0, request_count = 0, rate_limited = False,
      quota_exceeded = False, auth_failed = auth, client_ready = ready\<rparr>"

fun is_available :: "translator \<Rightarrow> bool" where
  "is_available p =
     (case kind p of
        DeepL \<Rightarrow> client_ready p \<and> \<not> quota_exceeded p \<and> \<not> auth_failed p
      | Google \<Rightarrow> \<not> rate_limited p)"

datatype translate_error =
    LanguageUnsupported string
  | ValueError
  | RateLimitException
  | ProviderFailure

text \<open>\<open>supports_languages\<close>: DeepL first rejects the legacy code of Vietnamese, then the base check.\<close>

definition base_supports_languages ::
  "provider_kind \<Rightarrow> string \<Rightarrow> string \<Rightarrow> bool \<Rightarrow> translate_error + bool" where
  "base_supports_languages k f t fatal =
     (let f = normalize_language_code f; t = normalize_language_code t;
          unsupported = (if language_code_map k f = None then Some f
                         else if language_code_map k t = None then Some t else None)
      in case unsupported of
           Some u \<Rightarrow> (if fatal then Inl (LanguageUnsupported u) else Inr False)
         | None \<Rightarrow> Inr True)"

definition supports_languages ::
  "provider_kind \<Rightarrow> string \<Rightarrow> string \<Rightarrow> bool \<Rightarrow> translate_error + bool" where
  "supports_languages k f t fatal =
     (if k = DeepL \<and> (f = ''VIN'' \<or> t = ''VIN'')
      then (if fatal then Inl (LanguageUnsupported ''VIN'') else Inr False)
      else base_supports_languages k f t fatal)"

definition parse_language_codes ::
  "provider_kind \<Rightarrow> string \<Rightarrow> string \<Rightarrow> bool \<Rightarrow> translate_error + (string option \<times> string option)" where
  "parse_language_codes k f t fatal =
     (let f = normalize_language_code f; t = normalize_language_code t in
      case supports_languages k f t fatal of
        Inl e \<Rightarrow> Inl e
      | Inr False \<Rightarrow> Inr (None, None)
      | Inr True \<Rightarrow> Inr (language_code_map k f, language_code_map k t))"

subsection \<open>Rate limiting\<close>

definition ratelimit_sleep :: "translator \<Rightarrow> real \<Rightarrow> translator \<times> real" where
  "ratelimit_sleep p now =
     (if 0 < max_requests_per_minute (kind p)
      then (let min_interval = 60 / real_of_int (max_requests_per_minute (kind p));
                since = now - last_request_ts p;
                now' = (if since < min_interval then now + (min_interval - since) else now)
            in (p\<lparr>last_request_ts := now'\<rparr>, now'))
      else (p, now))"

subsection \<open>One request per query: \<open>_translate\<close> of each provider\<close>

datatype api_result =
    Api_ok string
  | Api_rate_limited   \<comment> \<open>HTTP 429 (Google)\<close>
  | Api_quota_exceeded \<comment> \<open>\<open>deepl.QuotaExceededException\<close>\<close>
  | Api_auth_failed    \<comment> \<open>\<open>deepl.AuthorizationException\<close>\<close>
  | Api_failed         \<comment> \<open>any other HTTP status, network or parse error\<close>

type_synonym api = "provider_kind \<Rightarrow> string option \<Rightarrow> string option \<Rightarrow> string \<Rightarrow> api_result"

text \<open>\<open>_translate_single\<close> of each provider: one request, its effect on the counters.\<close>

definition google_translate_single ::
  "api \<Rightarrow> string option \<Rightarrow> string option \<Rightarrow> string \<Rightarrow> translator \<Rightarrow>
   (translate_error + string) \<times> translator" where
  "google_translate_single api f t q p =
     (case api Google f t q of
        Api_rate_limited \<Rightarrow> (Inl RateLimitException, p)
      | Api_ok r \<Rightarrow>
          (if r = [] then (Inl ProviderFailure, p)
           else (Inr r, p\<lparr>request_count := Suc (request_count p)\<rparr>))
      | _ \<Rightarrow> (Inl ProviderFailure, p))"

definition deepl_translate_single ::
  "api \<Rightarrow> string option \<Rightarrow> string option \<Rightarrow> string \<Rightarrow> translator \<Rightarrow>
   (translate_error + string option) \<times> translator" where
  "deepl_translate_single api f t q p =
     (case api DeepL f t q of
        Api_ok r \<Rightarrow>
          (if r = [] then (Inr None, p)
           else (Inr (Some r), p\<lparr>request_count := Suc (request_count p)\<rparr>))
      | Api_quota_exceeded \<Rightarrow> (Inl RateLimitException, p\<lparr>quota_exceeded := True\<rparr>)
      | Api_auth_failed \<Rightarrow> (Inl ProviderFailure, p\<lparr>auth_failed := True\<rparr>)
      | _ \<Rightarrow> (Inl ProviderFailure, p))"

definition prepend_result ::
  "string \<Rightarrow> (translate_error + string list) \<times> translator \<Rightarrow> (translate_error + string list) \<times> translator" where
  "prepend_result r res = (case res of (Inr rs, p) \<Rightarrow> (Inr (r # rs), p) | (Inl e, p) \<Rightarrow> (Inl e, p))"

text \<open>\<open>GoogleTranslator._translate\<close>: a rate limit sets the flag and aborts the whole batch;
  any other failure of one query gives \<open>''\<close>.\<close>

fun google_translate_queries ::
  "api \<Rightarrow> string option \<Rightarrow> string option \<Rightarrow> string list \<Rightarrow> translator \<Rightarrow>
   (translate_error + string list) \<times> translator" where
  "google_translate_queries api f t [] p = (Inr [], p)"
| "google_translate_queries api f t (q # qs) p =
     (if py_blank q then prepend_result [] (google_translate_queries api f t qs p)
      else
        (case google_translate_single api f t q p of
           (Inl RateLimitException, p1) \<Rightarrow> (Inl RateLimitException, p1\<lparr>rate_limited := True\<rparr>)
         | (Inl _, p1) \<Rightarrow> prepend_result [] (google_translate_queries api f t qs p1)
         | (Inr r, p1) \<Rightarrow> prepend_result r (google_translate_queries api f t qs p1)))"

text \<open>\<open>DeepLTranslator._translate\<close>: every failure of one query is caught and gives \<open>''\<close>.\<close>

fun deepl_translate_queries ::
  "api \<Rightarrow> string option \<Rightarrow> string option \<Rightarrow> string list \<Rightarrow> translator \<Rightarrow> string list \<times> translator" where
  "deepl_translate_queries api f t [] p = ([], p)"
| "deepl_translate_queries api f t (q # qs) p =
     (if py_blank q then apfst ((#) []) (deepl_translate_queries api f t qs p)
      else
        (case deepl_translate_single api f t q p of
           (Inr (Some r), p1) \<Rightarrow> apfst ((#) r) (deepl_translate_queries api f t qs p1)
         | (_, p1) \<Rightarrow> apfst ((#) []) (deepl_translate_queries api f t qs p1)))"

definition provider_translate ::
  "api \<Rightarrow> translator \<Rightarrow> string option \<Rightarrow> string option \<Rightarrow> string list \<Rightarrow>
   (translate_error + string list) \<times> translator" where
  "provider_translate api p f t qs =
     (case kind p of
        Google \<Rightarrow> google_translate_queries api f t qs p
      | DeepL \<Rightarrow>
          (if \<not> client_ready p then (Inl ProviderFailure, p)
           else (let (rs, p') = deepl_translate_queries api f t qs p in (Inr rs, p'))))"

subsection \<open>Invalid output and the retry query\<close>

definition base_is_translation_invalid :: "string \<Rightarrow> string \<Rightarrow> bool" where
  "base_is_translation_invalid q r \<longleftrightarrow>
     (if r = [] \<and> q \<noteq> [] then True
      else if q = [] \<or> r = [] then False
      else 6 < distinct_chars q \<and> distinct_chars r < 6 \<and> 4 * distinct_chars r < length r)"

definition google_error_patterns :: "string list" where
  "google_error_patterns = [''translation error'', ''service unavailable'', ''quota exceeded'']"

fun is_translation_invalid :: "provider_kind \<Rightarrow> string \<Rightarrow> string \<Rightarrow> bool" where
  "is_translation_invalid DeepL q r = base_is_translation_invalid q r"
| "is_translation_invalid Google q r =
     (base_is_translation_invalid q r \<or>
      (r \<noteq> [] \<and> q \<noteq> [] \<and>
       (py_lower_str (py_strip r) = py_lower_str (py_strip q) \<or>
        (\<exists>pat \<in> set google_error_patterns. py_contains pat (py_lower_str r)))))"

fun modify_invalid_translation_query :: "provider_kind \<Rightarrow> string \<Rightarrow> string \<Rightarrow> string" where
  "modify_invalid_translation_query DeepL q r = q"
| "modify_invalid_translation_query Google q r =
     (if length (py_split q) = 1 then ''Word: '' @ q else ''Text: '' @ q)"

subsection \<open>Output clean-up: \<open>_clean_translation_output\<close>\<close>

definition is_punct :: "char \<Rightarrow> bool" where
  "is_punct c \<longleftrightarrow> c \<in> set ''.,;!?''"

text \<open>\<open>re.sub(r'(?<![.,;!?])([.,;!?])(?=\w)', r'\1 ', t)\<close>; \<open>prev\<close> is the character before.\<close>

fun space_after_punct :: "char option \<Rightarrow> string \<Rightarrow> string" where
  "space_after_punct prev [] = []"
| "space_after_punct prev (c # cs) =
     (if is_punct c \<and> \<not> (case prev of Some d \<Rightarrow> is_punct d | None \<Rightarrow> False) \<and>
         cs \<noteq> [] \<and> py_isword (hd cs)
      then c # CHR '' '' # space_after_punct (Some c) cs
      else c # space_after_punct (Some c) cs)"

text \<open>\<open>re.sub(r'([.,;!?])\s+(?=[.,;!?]|$)', r'\1', t)\<close>.\<close>

function consolidate_punct :: "string \<Rightarrow> string" where
  "consolidate_punct [] = []"
| "consolidate_punct (c # cs) =
     (let r = dropWhile py_isspace cs in
      if is_punct c \<and> r \<noteq> cs \<and> (r = [] \<or> is_punct (hd r))
      then c # consolidate_punct r
      else c # consolidate_punct cs)"
  by pat_completeness auto
termination
  by (relation "measure length") (auto simp: le_imp_less_Suc length_dropWhile_le)

text \<open>\<open>re.sub(r'(?<=[.,;!?\w])\s+([.,;!?])', r'\1', t)\<close>.\<close>

function space_before_punct :: "char option \<Rightarrow> string \<Rightarrow> string" where
  "space_before_punct prev [] = []"
| "space_before_punct prev (c # cs) =
     (let r = dropWhile py_isspace (c # cs) in
      if py_isspace c \<and> (case prev of Some d \<Rightarrow> is_punct d \<or> py_isword d | None \<Rightarrow> False) \<and>
         r \<noteq> [] \<and> is_punct (hd r)
      then hd r # space_before_punct (Some (hd r)) (tl r)
      else c # space_before_punct (Some c) cs)"
  by pat_completeness auto
termination
proof (relation "measure (\<lambda>(prev, s). length s)")
  have "length (dropWhile py_isspace cs) - Suc 0 < Suc (length cs)" for cs
    using length_dropWhile_le [of py_isspace cs] by linarith
  then show "\<And>prev c cs r. r = dropWhile py_isspace (c # cs) \<Longrightarrow>
      py_isspace c \<and> (case prev of None \<Rightarrow> False | Some d \<Rightarrow> is_punct d \<or> py_isword d) \<and>
      r \<noteq> [] \<and> is_punct (hd r) \<Longrightarrow>
      ((Some (hd r), tl r), prev, c # cs) \<in> measure (\<lambda>(prev, s). length s)"
    by auto
qed auto

text \<open>\<open>re.sub(r'((?:\s|^)\.+)\s+(?=\w)', r'\1', t)\<close>; \<open>start\<close> is true at position 0.\<close>

definition ellipsis_gap :: "string \<Rightarrow> (string \<times> string) option" where
  \<comment> \<open>after the leading character: the dots and what follows the spaces behind them\<close>
  "ellipsis_gap s =
     (let dots = takeWhile (\<lambda>c. c = CHR ''.'') s; r1 = dropWhile (\<lambda>c. c = CHR ''.'') s;
          r2 = dropWhile py_isspace r1
      in if dots \<noteq> [] \<and> r2 \<noteq> r1 \<and> r2 \<noteq> [] \<and> py_isword (hd r2) then Some (dots, r2) else None)"

function fix_ellipsis :: "bool \<Rightarrow> string \<Rightarrow> string" where
  "fix_ellipsis start [] = []"
| "fix_ellipsis start (c # cs) =
     (if py_isspace c then
        (case ellipsis_gap cs of
           Some (dots, r) \<Rightarrow> c # dots @ fix_ellipsis False r
         | None \<Rightarrow> c # fix_ellipsis False cs)
      else if start then
        (case ellipsis_gap (c # cs) of
           Some (dots, r) \<Rightarrow> dots @ fix_ellipsis False r
         | None \<Rightarrow> c # fix_ellipsis False cs)
      else c # fix_ellipsis False cs)"
  by pat_completeness auto
termination
proof (relation "measure (\<lambda>(b, s). length s)")
  have gap: "ellipsis_gap s = Some (d, r) \<Longrightarrow> length r < length s" for s d r
  proof -
    assume "ellipsis_gap s = Some (d, r)"
    then have r: "r = dropWhile py_isspace (dropWhile (\<lambda>c. c = CHR ''.'') s)"
      and ne: "takeWhile (\<lambda>c. c = CHR ''.'') s \<noteq> []"
      by (auto simp: ellipsis_gap_def Let_def split: if_splits)
    have "length r \<le> length (dropWhile (\<lambda>c. c = CHR ''.'') s)"
      unfolding r by (rule length_dropWhile_le)
    moreover have "length (dropWhile (\<lambda>c. c = CHR ''.'') s) < length s"
      using ne by (cases s) (auto simp: le_imp_less_Suc length_dropWhile_le split: if_splits)
    ultimately show ?thesis by simp
  qed
  show "\<And>start c cs x2 dots r. py_isspace c \<Longrightarrow> ellipsis_gap cs = Some x2 \<Longrightarrow> (dots, r) = x2 \<Longrightarrow>
          ((False, r), start, c # cs) \<in> measure (\<lambda>(b, s). length s)"
    using gap by fastforce
  show "\<And>start c cs x2 dots r. \<not> py_isspace c \<Longrightarrow> start \<Longrightarrow> ellipsis_gap (c # cs) = Some x2 \<Longrightarrow>
          (dots, r) = x2 \<Longrightarrow> ((False, r), start, c # cs) \<in> measure (\<lambda>(b, s). length s)"
    using gap by fastforce
qed auto

text \<open>Capitalisation transfer: \<open>char.upper() if query[i].isupper() else char\<close>.\<close>

definition transfer_case :: "string \<Rightarrow> string \<Rightarrow> string" where
  "transfer_case r q = map (\<lambda>(c, d). if py_isupper d then py_upper c else c) (zip r q)"

definition repair_repetition :: "string \<Rightarrow> string \<Rightarrow> string" where
  "repair_repetition q r =
     (let seq = repeating_sequence (py_lower_str r) in
      if length r < length q \<and> 2 * length seq < length r
      then transfer_case (concat (replicate (max (length q div length seq) 1) seq)) q
      else r)"

definition clean_translation_output :: "string \<Rightarrow> string \<Rightarrow> string \<Rightarrow> string" where
  "clean_translation_output q r to_lang =
     (if q = [] \<or> r = [] then []
      else py_strip (repair_repetition q
             (fix_ellipsis True (space_before_punct None
               (consolidate_punct (space_after_punct None (collapse_ws r)))))))"

subsection \<open>\<open>BaseTranslator.translate\<close>\<close>

text \<open>\<open>_translations\<close> padded with \<open>''\<close> or truncated to the number of queries.\<close>

definition pad_truncate :: "nat \<Rightarrow> string list \<Rightarrow> string list" where
  "pad_truncate n rs = (if length rs < n then rs @ replicate (n - length rs) [] else take n rs)"

text \<open>
  The retry loop \<open>for attempt in range(1 + _INVALID_REPEAT_COUNT)\<close>: the first argument
  counts the attempts left, the second is \<open>attempt\<close>. Every exception inside the body
  (unsupported language, a failing \<open>_translate\<close>) ends the loop (\<open>break\<close>).
\<close>

type_synonym loop_state = "string list \<times> string list \<times> nat list \<times> translator \<times> real"

text \<open>One iteration of the loop body; the flag says whether the loop goes on.\<close>

definition attempt_body ::
  "api \<Rightarrow> nat \<Rightarrow> string \<Rightarrow> string \<Rightarrow> loop_state \<Rightarrow> bool \<times> loop_state" where
  "attempt_body api a f t st =
     (let (qtt, trs, un, p, clk) = st;
          clk1 = (if 0 < a then clk + 1 / 10 else clk);
          (p1, clk2) = ratelimit_sleep p clk1
      in case parse_language_codes (kind p1) f t True of
           Inl _ \<Rightarrow> (False, qtt, trs, un, p1, clk2)
         | Inr (fc, tc) \<Rightarrow>
             (case provider_translate api p1 fc tc qtt of
                (Inl _, p2) \<Rightarrow> (False, qtt, trs, un, p2, clk2)
              | (Inr res, p2) \<Rightarrow>
                  (let res' = pad_truncate (length qtt) res;
                       trs' = fold (\<lambda>j ts. ts[j := res' ! j]) un trs
                   in if invalid_repeat_count (kind p2) = 0 then (False, qtt, trs', un, p2, clk2)
                      else
                        (let un' = filter (\<lambda>j. is_translation_invalid (kind p2) (qtt ! j) (trs' ! j)) un;
                             qtt' = fold (\<lambda>j qs. qs[j := modify_invalid_translation_query (kind p2)
                                                          (qs ! j) (trs' ! j)]) un' qtt
                         in (un' \<noteq> [], qtt', trs', un', p2, clk2)))))"

fun attempt_loop :: "api \<Rightarrow> nat \<Rightarrow> nat \<Rightarrow> string \<Rightarrow> string \<Rightarrow> loop_state \<Rightarrow> loop_state" where
  "attempt_loop api 0 a f t st = st"
| "attempt_loop api (Suc n) a f t st =
     (let (go_on, st') = attempt_body api a f t st in
      if go_on then attempt_loop api n (Suc a) f t st' else st')"

definition base_translate ::
  "api \<Rightarrow> translator \<Rightarrow> real \<Rightarrow> string \<Rightarrow> string \<Rightarrow> string list \<Rightarrow>
   (translate_error + string list) \<times> translator \<times> real" where
  "base_translate api p clk f0 t0 queries =
     (let f = normalize_language_code f0; t = normalize_language_code t0 in
      if supported_languages t = None then (Inl ValueError, p, clk)
      else if supported_languages f = None then (Inl ValueError, p, clk)
      else if f = t then (Inr queries, p, clk)
      else
        (let query_indices = filter (\<lambda>i. is_valuable_text (queries ! i)) [0..<length queries];
             qtt = map (nth queries) query_indices
         in if qtt = [] then (Inr queries, p, clk)
            else
              (let (qtt', trs, _, p', clk') =
                     attempt_loop api (1 + invalid_repeat_count (kind p)) 0 f t
                       (qtt, replicate (length qtt) [], [0..<length qtt], p, clk);
                   cleaned = map (\<lambda>(q, r). clean_translation_output q r t) (zip qtt' trs);
                   final = fold (\<lambda>(i, c) fs. fs[query_indices ! i := c]) (enumerate 0 cleaned) queries
               in (Inr final, p', clk'))))"

definition loop_inv :: "loop_state \<Rightarrow> loop_state \<Rightarrow> bool" where
  "loop_inv st st' \<longleftrightarrow>
     (case (st, st') of ((qtt, trs, un, p, clk), (qtt', trs', un', p', clk')) \<Rightarrow>
        length qtt' = length qtt \<and> length trs' = length trs \<and> kind p' = kind p \<and> clk \<le> clk')"

declare attempt_loop.simps [simp del]

subsection \<open>Provider state and the retry loop\<close>



lemma ratelimit_sleep_kind [simp]: "kind (fst (ratelimit_sleep p now)) = kind p"
  by (simp add: ratelimit_sleep_def Let_def)

lemma ratelimit_sleep_ts: "last_request_ts (fst (ratelimit_sleep p now)) =
   (if 0 < max_requests_per_minute (kind p) then snd (ratelimit_sleep p now) else last_request_ts p)"
  by (simp add: ratelimit_sleep_def Let_def)

lemma ratelimit_sleep_clock: "now \<le> snd (ratelimit_sleep p now)"
  by (simp add: ratelimit_sleep_def Let_def)

lemma google_translate_single_kind [simp]:
  "kind (snd (google_translate_single api f t q p)) = kind p"
  "last_request_ts (snd (google_translate_single api f t q p)) = last_request_ts p"
  by (simp_all add: google_translate_single_def split: api_result.splits)

lemma deepl_translate_single_kind [simp]:
  "kind (snd (deepl_translate_single api f t q p)) = kind p"
  "last_request_ts (snd (deepl_translate_single api f t q p)) = last_request_ts p"
  by (simp_all add: deepl_translate_single_def split: api_result.splits)

lemma prepend_result_snd [simp]: "snd (prepend_result r res) = snd res"
  by (simp add: prepend_result_def split: prod.splits sum.splits)

lemma google_translate_queries_kind:
  "kind (snd (google_translate_queries api f t qs p)) = kind p \<and>
   last_request_ts (snd (google_translate_queries api f t qs p)) = last_request_ts p"
proof (induction api f t qs p rule: google_translate_queries.induct)
  case (2 api f t q qs p)
  obtain r p1 where s: "google_translate_single api f t q p = (r, p1)" by fastforce
  then have "kind p1 = kind p" "last_request_ts p1 = last_request_ts p"
    using google_translate_single_kind [of api f t q p] by simp_all
  with 2 s show ?case by (auto split: sum.splits translate_error.splits)
qed simp

lemma deepl_translate_queries_kind:
  "kind (snd (deepl_translate_queries api f t qs p)) = kind p \<and>
   last_request_ts (snd (deepl_translate_queries api f t qs p)) = last_request_ts p"
proof (induction api f t qs p rule: deepl_translate_queries.induct)
  case (2 api f t q qs p)
  obtain r p1 where s: "deepl_translate_single api f t q p = (r, p1)" by fastforce
  then have "kind p1 = kind p" "last_request_ts p1 = last_request_ts p"
    using deepl_translate_single_kind [of api f t q p] by simp_all
  with 2 s show ?case by (auto simp: snd_apfst split: sum.splits option.splits)
qed simp

lemma provider_translate_kind:
  "kind (snd (provider_translate api p f t qs)) = kind p \<and>
   last_request_ts (snd (provider_translate api p f t qs)) = last_request_ts p"
  using google_translate_queries_kind [of api f t qs p] deepl_translate_queries_kind [of api f t qs p]
  by (auto simp: provider_translate_def split: provider_kind.splits prod.splits)

lemma loop_inv_refl: "loop_inv st st"
  by (auto simp: loop_inv_def split: prod.splits)

lemma loop_inv_trans: "loop_inv st st' \<Longrightarrow> loop_inv st' st'' \<Longrightarrow> loop_inv st st''"
  by (auto simp: loop_inv_def split: prod.splits)

lemma attempt_body_inv: "loop_inv st (snd (attempt_body api a f t st))"
proof -
  obtain qtt trs un p clk where st: "st = (qtt, trs, un, p, clk)" by (cases st) auto
  let ?clk1 = "if 0 < a then clk + 1 / 10 else clk"
  obtain p1 clk2 where rl: "ratelimit_sleep p ?clk1 = (p1, clk2)" by fastforce
  have k1: "kind p1 = kind p" using ratelimit_sleep_kind [of p ?clk1] rl by simp
  have c1: "clk \<le> clk2" using ratelimit_sleep_clock [of ?clk1 p] rl by (auto split: if_splits)
  have k2: "provider_translate api p1 fc tc qtt = (r, p2) \<Longrightarrow> kind p2 = kind p" for fc tc r p2
    using provider_translate_kind [of api p1 fc tc qtt] k1 by simp
  show ?thesis
    using k1 c1 k2 unfolding st attempt_body_def
    by (auto simp: rl loop_inv_def Let_def split: sum.splits prod.splits dest: k2)
qed

lemma attempt_loop_inv: "loop_inv st (attempt_loop api n a f t st)"
proof (induction n arbitrary: a st)
  case 0
  then show ?case by (simp add: loop_inv_refl attempt_loop.simps)
next
  case (Suc n)
  obtain go_on st' where b: "attempt_body api a f t st = (go_on, st')"
    by (cases "attempt_body api a f t st") simp
  have "loop_inv st st'" using attempt_body_inv [of st api a f t] b by simp
  then show ?case
    using Suc.IH [where a = "Suc a" and st = st'] b by (auto simp: attempt_loop.simps intro: loop_inv_trans)
qed

subsection \<open>Language support and the early returns\<close>


lemma supported_languages_cases:
  "supported_languages l \<noteq> None \<longleftrightarrow>
   l \<in> {''sim_chinese'', ''trad_chinese'', ''korean'', ''vietnamese'', ''japanese'', ''english''}"
  unfolding supported_languages_def
  by (simp only: map_of_eq_None_iff dom_map_of_conv_image_fst) simp

lemma normalize_supported: "supported_languages l \<noteq> None \<Longrightarrow> normalize_language_code l = l"
  unfolding supported_languages_cases normalize_language_code_def legacy_language_map_def
  by auto

lemma google_supports: "supported_languages l \<noteq> None \<Longrightarrow> language_code_map Google l \<noteq> None"
  unfolding supported_languages_cases by auto

lemma valuable_not_blank: "is_valuable_text q \<Longrightarrow> \<not> py_blank q"
  by (auto simp: is_valuable_text_def split: if_splits)

text \<open>
  When source and target normalise to the same supported language, \<open>translate\<close>
  returns the queries unchanged, makes no request and leaves the provider and the clock as they were.\<close>

theorem base_translate_same_language:
  "supported_languages (normalize_language_code f) \<noteq> None \<Longrightarrow>
   normalize_language_code f = normalize_language_code t \<Longrightarrow>
   base_translate api p clk f t qs = (Inr qs, p, clk)"
  by (simp add: base_translate_def Let_def)

text \<open>
  When no query is valuable text, \<open>translate\<close> returns the queries
  unchanged without any request, whatever the (supported) languages.\<close>

theorem base_translate_trivial:
  "\<forall>q \<in> set qs. \<not> is_valuable_text q \<Longrightarrow>
   supported_languages (normalize_language_code f) \<noteq> None \<Longrightarrow>
   supported_languages (normalize_language_code t) \<noteq> None \<Longrightarrow>
   base_translate api p clk f t qs = (Inr qs, p, clk)"
proof -
  assume triv: "\<forall>q \<in> set qs. \<not> is_valuable_text q"
  then have "filter (\<lambda>i. is_valuable_text (qs ! i)) [0..<length qs] = []"
    by (auto simp: filter_empty_conv)
  then show "supported_languages (normalize_language_code f) \<noteq> None \<Longrightarrow>
      supported_languages (normalize_language_code t) \<noteq> None \<Longrightarrow> ?thesis"
    by (simp add: base_translate_def Let_def)
qed

text \<open>
  C31. \<open>_ratelimit_sleep\<close> never returns before \<open>60 / N\<close> seconds after the
  previous request of the provider, never moves the clock back, and records the new request time.\<close>

theorem ratelimit_sleep_spacing:
  "last_request_ts p + 60 / real_of_int (max_requests_per_minute (kind p)) \<le>
     last_request_ts (fst (ratelimit_sleep p now)) \<and>
   now \<le> snd (ratelimit_sleep p now) \<and>
   last_request_ts (fst (ratelimit_sleep p now)) = snd (ratelimit_sleep p now)"
proof (cases "kind p")
  case DeepL
  then show ?thesis by (simp add: ratelimit_sleep_def Let_def)
next
  case Google
  then show ?thesis by (simp add: ratelimit_sleep_def Let_def)
qed

text \<open>
  C18. \<open>translate\<close> returns one output per query, and every query that is not
  valuable text comes back verbatim at its position.\<close>

theorem base_translate_shape:
  assumes "base_translate api p clk f t qs = (Inr rs, p', clk')"
  shows "length rs = length qs \<and> (\<forall>i < length qs. \<not> is_valuable_text (qs ! i) \<longrightarrow> rs ! i = qs ! i)"
proof -
  let ?ix = "filter (\<lambda>i. is_valuable_text (qs ! i)) [0..<length qs]"
  let ?qtt = "map (nth qs) ?ix"
  obtain qtt' trs un p'' clk'' where lp:
    "attempt_loop api (1 + invalid_repeat_count (kind p)) 0
       (normalize_language_code f) (normalize_language_code t)
       (?qtt, replicate (length ?qtt) [], [0..<length ?qtt], p, clk) = (qtt', trs, un, p'', clk'')"
    by (metis prod.exhaust)
  let ?cl = "map (\<lambda>(q, r). clean_translation_output q r (normalize_language_code t)) (zip qtt' trs)"
  have len: "length ?cl \<le> length ?ix"
    using attempt_loop_inv [of "(?qtt, replicate (length ?qtt) [], [0..<length ?qtt], p, clk)"
        api "1 + invalid_repeat_count (kind p)" 0 "normalize_language_code f"
        "normalize_language_code t"] lp
    by (simp add: loop_inv_def)
  have other: "fold (\<lambda>(k, c) fs. fs[?ix ! k := c]) (enumerate 0 ?cl) qs ! i = qs ! i"
    if "i < length qs" "\<not> is_valuable_text (qs ! i)" for i
  proof (rule fold_update_pairs_other)
    have "?ix ! k \<noteq> i" if "(k, c) \<in> set (enumerate 0 ?cl)" for k c
    proof -
      have "k < length ?ix" using that len by (auto simp: in_set_enumerate_eq)
      then have "?ix ! k \<in> set ?ix" by (rule nth_mem)
      with \<open>\<not> is_valuable_text (qs ! i)\<close> show ?thesis by auto
    qed
    then show "\<forall>(k, c) \<in> set (enumerate 0 ?cl). ?ix ! k \<noteq> i" by auto
  qed
  from assms lp have rs: "rs = fold (\<lambda>(k, c) fs. fs[?ix ! k := c]) (enumerate 0 ?cl) qs \<or> rs = qs"
    by (auto simp: base_translate_def Let_def split: if_splits)
  then show ?thesis
    using other by auto
qed

subsection \<open>Rate limits reported by Google\<close>


lemma fold_update_pairs_const:
  "j < length xs \<Longrightarrow> \<forall>(i, c) \<in> set ps. c = x \<Longrightarrow>
   xs ! j = x \<or> (\<exists>(i, c) \<in> set ps. g i = j) \<Longrightarrow>
   fold (\<lambda>(i, c) xs. xs[g i := c]) ps xs ! j = x"
proof (induction ps arbitrary: xs)
  case Nil
  then show ?case by simp
next
  case (Cons pc ps)
  obtain i c where pc: "pc = (i, c)" by (cases pc)
  have "xs[g i := c] ! j = x \<or> (\<exists>(i, c) \<in> set ps. g i = j)"
    using Cons.prems pc by (cases "g i = j") auto
  then show ?case
    using Cons.prems pc Cons.IH [of "xs[g i := c]"] by simp
qed

lemma fold_update_enumerate_const:
  assumes "\<forall>i \<in> set ix. i < length xs"
  shows "fold (\<lambda>(k, c) fs. fs[ix ! k := c]) (enumerate 0 (replicate (length ix) x)) xs =
         map (\<lambda>j. if j \<in> set ix then x else xs ! j) [0..<length xs]"
proof (rule nth_equalityI)
  fix j
  assume j: "j < length (fold (\<lambda>(k, c) fs. fs[ix ! k := c]) (enumerate 0 (replicate (length ix) x)) xs)"
  then have jl: "j < length xs" by simp
  show "fold (\<lambda>(k, c) fs. fs[ix ! k := c]) (enumerate 0 (replicate (length ix) x)) xs ! j =
        map (\<lambda>j. if j \<in> set ix then x else xs ! j) [0..<length xs] ! j"
  proof (cases "j \<in> set ix")
    case True
    then obtain k where "k < length ix" "ix ! k = j" by (auto simp: in_set_conv_nth)
    then have "\<exists>(k, c) \<in> set (enumerate 0 (replicate (length ix) x)). ix ! k = j"
      by (auto simp: in_set_enumerate_eq intro!: bexI [of _ "(k, x)"])
    then show ?thesis
      using True jl by (auto intro!: fold_update_pairs_const simp: in_set_enumerate_eq)
  next
    case False
    then have "\<forall>(k, c) \<in> set (enumerate 0 (replicate (length ix) x)). ix ! k \<noteq> j"
      by (auto simp: in_set_enumerate_eq)
    then show ?thesis
      using False jl by (simp add: fold_update_pairs_other)
  qed
qed simp

lemma clean_translation_output_empty [simp]: "clean_translation_output q [] t = []"
  by (simp add: clean_translation_output_def)

lemma clean_zip_empty:
  "map (\<lambda>(q, r). clean_translation_output q r t) (zip qs (replicate n [])) =
   replicate (min (length qs) n) []"
proof (induction qs arbitrary: n)
  case (Cons q qs)
  then show ?case by (cases n) auto
qed simp

lemma google_queries_rate_limited:
  assumes api: "\<And>f t q. api Google f t q = Api_rate_limited"
    and ne: "\<exists>q \<in> set qs. \<not> py_blank q"
  shows "fst (google_translate_queries api f t qs p) = Inl RateLimitException \<and>
         rate_limited (snd (google_translate_queries api f t qs p))"
  using ne
proof (induction qs arbitrary: p)
  case Nil
  then show ?case by simp
next
  case (Cons q qs)
  show ?case
  proof (cases "py_blank q")
    case True
    then have "fst (google_translate_queries api f t qs p) = Inl RateLimitException \<and>
         rate_limited (snd (google_translate_queries api f t qs p))"
      using Cons by auto
    with True show ?thesis
      by (auto simp: prepend_result_def split: prod.splits sum.splits)
  next
    case False
    then show ?thesis by (simp add: google_translate_single_def api)
  qed
qed


lemma parse_google_supported:
  assumes "supported_languages f \<noteq> None" "supported_languages t \<noteq> None"
  shows "parse_language_codes Google f t True = Inr (language_code_map Google f, language_code_map Google t)"
proof -
  have n: "normalize_language_code f = f" "normalize_language_code t = t"
    using assms normalize_supported by auto
  have "language_code_map Google f \<noteq> None" "language_code_map Google t \<noteq> None"
    using assms google_supports by auto
  then show ?thesis
    by (simp add: parse_language_codes_def supports_languages_def base_supports_languages_def n
             del: language_code_map.simps)
qed

text \<open>
  C29. When every Google request answers HTTP 429, \<open>translate\<close> does not raise:
  it returns an empty string for every valuable query and the query itself for every other one,
  and the provider is left marked rate-limited.\<close>

theorem base_translate_google_rate_limited:
  assumes g: "kind p = Google"
    and api: "\<And>f t q. api Google f t q = Api_rate_limited"
    and sf: "supported_languages (normalize_language_code from_lang) \<noteq> None"
    and st: "supported_languages (normalize_language_code to_lang) \<noteq> None"
    and d: "normalize_language_code from_lang \<noteq> normalize_language_code to_lang"
    and v: "\<exists>q \<in> set qs. is_valuable_text q"
  shows "fst (base_translate api p clk from_lang to_lang qs) = Inr (map (\<lambda>q. if is_valuable_text q then [] else q) qs) \<and>
         rate_limited (fst (snd (base_translate api p clk from_lang to_lang qs)))"
proof -
  let ?f = "normalize_language_code from_lang" and ?t = "normalize_language_code to_lang"
  let ?ix = "filter (\<lambda>i. is_valuable_text (qs ! i)) [0..<length qs]"
  let ?qtt = "map (nth qs) ?ix"
  obtain p1 clk1 where rl: "ratelimit_sleep p clk = (p1, clk1)" by (cases "ratelimit_sleep p clk")
  have k1: "kind p1 = Google" using rl g ratelimit_sleep_kind [of p clk] by simp
  have ne: "?qtt \<noteq> []" using v by (fastforce simp: filter_empty_conv in_set_conv_nth)
  have nb: "\<exists>q \<in> set ?qtt. \<not> py_blank q"
    using v valuable_not_blank by (fastforce simp: in_set_conv_nth)
  obtain p2 where gq: "google_translate_queries api (language_code_map Google ?f) (language_code_map Google ?t) ?qtt p1
      = (Inl RateLimitException, p2)" and p2: "rate_limited p2"
    using google_queries_rate_limited [where api = api and qs = ?qtt and f = "language_code_map Google ?f"
        and t = "language_code_map Google ?t" and p = p1, OF api nb]
    by (cases "google_translate_queries api (language_code_map Google ?f) (language_code_map Google ?t) ?qtt p1") auto
  have body: "attempt_body api 0 ?f ?t (?qtt, replicate (length ?qtt) [], [0..<length ?qtt], p, clk) =
      (False, ?qtt, replicate (length ?qtt) [], [0..<length ?qtt], p2, clk1)"
    using rl k1 gq parse_google_supported [OF sf st]
    by (simp add: attempt_body_def provider_translate_def)
  have loop: "attempt_loop api (1 + invalid_repeat_count (kind p)) 0 ?f ?t
      (?qtt, replicate (length ?qtt) [], [0..<length ?qtt], p, clk) =
      (?qtt, replicate (length ?qtt) [], [0..<length ?qtt], p2, clk1)"
    using body g by (simp add: attempt_loop.simps)
  have ixb: "\<forall>i \<in> set ?ix. i < length qs" by simp
  have "map (\<lambda>j. if j \<in> set ?ix then [] else qs ! j) [0..<length qs] =
        map (\<lambda>q. if is_valuable_text q then [] else q) qs"
    by (rule nth_equalityI) auto
  then show ?thesis
    using sf st d ne loop fold_update_enumerate_const [OF ixb, of "[]"] p2
    by (simp add: base_translate_def Let_def clean_zip_empty del: map_eq_conv)
qed

subsection \<open>Repeating sequences and the repair\<close>


lemma tiles_length [simp]: "tiles t (length t)"
  by (cases "t = []") (simp_all add: tiles_def)

lemma repeating_sequence_cases:
  obtains (none) "repeating_sequence t = t" "\<forall>k. 0 < k \<and> 2 * k \<le> length t \<longrightarrow> \<not> tiles t k"
  | (some) k where "repeating_sequence t = take k t" "0 < k" "2 * k \<le> length t" "tiles t k"
      "\<forall>j. 0 < j \<and> j < k \<longrightarrow> \<not> tiles t j"
proof (cases "t = []")
  case True
  then show ?thesis using none by (simp add: repeating_sequence_def)
next
  case ne: False
  show ?thesis
  proof (cases "find (tiles t) [1..<length t div 2 + 1]")
    case None
    have "\<not> tiles t k" if "0 < k" "2 * k \<le> length t" for k
    proof -
      have "k \<in> set [1..<length t div 2 + 1]" using that by auto
      then show ?thesis using None by (auto simp: find_None_iff)
    qed
    then have "\<forall>k. 0 < k \<and> 2 * k \<le> length t \<longrightarrow> \<not> tiles t k" by blast
    then show ?thesis using none ne None by (simp add: repeating_sequence_def)
  next
    case (Some k)
    then obtain i where i: "i < length [1..<length t div 2 + 1]" "[1..<length t div 2 + 1] ! i = k"
      "tiles t k" "\<forall>j<i. \<not> tiles t ([1..<length t div 2 + 1] ! j)"
      by (auto simp: find_Some_iff)
    then have k: "k = Suc i" "0 < k" "2 * k \<le> length t" by (auto simp del: upt_Suc)
    have "\<forall>j. 0 < j \<and> j < k \<longrightarrow> \<not> tiles t j"
    proof (intro allI impI)
      fix j assume "0 < j \<and> j < k"
      then have "j - 1 < i" "[1..<length t div 2 + 1] ! (j - 1) = j" using k i(1) by (auto simp del: upt_Suc)
      then show "\<not> tiles t j" using i(4) by metis
    qed
    then show ?thesis using some [of k] ne Some k i(3) by (simp add: repeating_sequence_def)
  qed
qed

text \<open>
  \<open>repeating_sequence\<close> returns a prefix of the text whose repetition
  tiles it, and no shorter prefix of at most half the length tiles it.\<close>

theorem repeating_sequence_shortest:
  "repeating_sequence t = take (length (repeating_sequence t)) t \<and>
   tiles t (length (repeating_sequence t)) \<and>
   (\<forall>k. 0 < k \<and> k < length (repeating_sequence t) \<and> 2 * k \<le> length t \<longrightarrow> \<not> tiles t k)"
proof (cases t rule: repeating_sequence_cases)
  case none
  then show ?thesis by simp
next
  case (some k)
  then have "length (take k t) = k" by simp
  then show ?thesis using some by (simp add: min_absorb1)
qed

lemma repeating_sequence_nonempty: "t \<noteq> [] \<Longrightarrow> repeating_sequence t \<noteq> []"
  by (cases t rule: repeating_sequence_cases) auto

lemma length_py_lower_str [simp]: "length (py_lower_str s) = length s"
  by (simp add: py_lower_str_def)

lemma length_transfer_case [simp]: "length (transfer_case r q) = min (length r) (length q)"
  by (simp add: transfer_case_def)

lemma length_concat_replicate: "length (concat (replicate n xs)) = n * length xs"
  by (induction n) auto

lemma tiling_length:
  assumes "0 < (s::nat)"
  shows "min (max (n div s) 1 * s) n \<le> n \<and> n < min (max (n div s) 1 * s) n + s"
proof (cases "n < s")
  case True
  then have "n div s = 0" by (rule div_less)
  then show ?thesis using True by (simp add: min_def)
next
  case False
  then have "1 \<le> n div s" using assms div_greater_zero_iff [of n s] by simp
  moreover have "n div s * s \<le> n" by (rule div_times_less_eq_dividend)
  moreover have "n < n div s * s + s"
    using assms mod_less_divisor [OF assms, of n] div_mult_mod_eq [of n s] by linarith
  ultimately show ?thesis by (simp add: max_absorb1)
qed

text \<open>
  When the repetition repair of \<open>_clean_translation_output\<close> fires (output shorter than the query and at
  least twice as long as its repeating sequence), the repaired output is at most as long as the
  query and falls short of it by less than one sequence; otherwise the output is unchanged.\<close>

theorem repair_repetition_length:
  "let seq = repeating_sequence (py_lower_str r) in
   if length r < length q \<and> 2 * length seq < length r
   then length (repair_repetition q r) \<le> length q \<and>
        length q < length (repair_repetition q r) + length seq
   else repair_repetition q r = r"
proof -
  let ?seq = "repeating_sequence (py_lower_str r)"
  show ?thesis
  proof (cases "length r < length q \<and> 2 * length ?seq < length r")
    case True
    then have "py_lower_str r \<noteq> []" by (auto simp: py_lower_str_def)
    then have "0 < length ?seq" using repeating_sequence_nonempty by blast
    then show ?thesis
      using tiling_length [of "length ?seq" "length q"]
      by (simp add: repair_repetition_def Let_def if_P [OF True] length_concat_replicate)
  next
    case False
    then show ?thesis by (simp only: repair_repetition_def Let_def if_not_P [OF False] if_False)
  qed
qed

subsection \<open>Concrete runs\<close>

theorem base_translate_same_language_witness:
  "base_translate (\<lambda>k f t q. Api_ok ''xy'') (new_translator Google True False) 0
      ''JPN'' ''japanese'' [''Hello'', ''?''] = (Inr [''Hello'', ''?''], new_translator Google True False, 0)"
  using base_translate_same_language [where f = "''JPN''" and t = "''japanese''"
      and api = "\<lambda>k f t q. Api_ok ''xy''" and p = "new_translator Google True False" and clk = 0
      and qs = "[''Hello'', ''?'']"]
  by (simp add: normalize_language_code_def legacy_language_map_def supported_languages_def)

theorem base_translate_trivial_witness:
  "base_translate (\<lambda>k f t q. Api_ok ''xy'') (new_translator DeepL True False) 0
      ''japanese'' ''english'' [''??'', '' a''] = (Inr [''??'', '' a''], new_translator DeepL True False, 0)"
  using base_translate_trivial [where f = "''japanese''" and t = "''english''"
      and api = "\<lambda>k f t q. Api_ok ''xy''" and p = "new_translator DeepL True False" and clk = 0
      and qs = "[''??'', '' a'']"]
  by (simp add: normalize_language_code_def legacy_language_map_def supported_languages_def
      is_valuable_text_def remove_ws_def py_blank_def py_simps)

theorem base_translate_shape_witness:
  "length [''xy'', ''?''] = length [''ab'', ''?''] \<and> [''xy'', ''?''] ! 1 = [''ab'', ''?''] ! 1 \<and>
   base_translate (\<lambda>k f t q. Api_ok ''xy'') (new_translator DeepL True False) 0
      ''japanese'' ''english'' [''ab'', ''?''] =
      (Inr [''xy'', ''?''], (new_translator DeepL True False)\<lparr>last_request_ts := 20, request_count := 1\<rparr>, 20)"
proof -
  have e: "base_translate (\<lambda>k f t q. Api_ok ''xy'') (new_translator DeepL True False) 0
      ''japanese'' ''english'' [''ab'', ''?''] =
      (Inr [''xy'', ''?''], (new_translator DeepL True False)\<lparr>last_request_ts := 20, request_count := 1\<rparr>, 20)"
    by code_simp
  have "\<not> is_valuable_text ''?''" by (simp add: is_valuable_text_def remove_ws_def py_blank_def py_simps)
  then show ?thesis using base_translate_shape [OF e] e by simp
qed

theorem base_translate_google_rate_limited_witness:
  "fst (base_translate (\<lambda>k f t q. Api_rate_limited) (new_translator Google True False) 0
      ''JPN'' ''ENG'' [''Hello'', ''?'']) = Inr [[], ''?''] \<and>
   rate_limited (fst (snd (base_translate (\<lambda>k f t q. Api_rate_limited) (new_translator Google True False) 0
      ''JPN'' ''ENG'' [''Hello'', ''?''])))"
  using base_translate_google_rate_limited [where p = "new_translator Google True False"
      and api = "\<lambda>k f t q. Api_rate_limited" and from_lang = "''JPN''" and to_lang = "''ENG''" and clk = 0
      and qs = "[''Hello'', ''?'']"]
  by (simp add: new_translator_def normalize_language_code_def legacy_language_map_def
      supported_languages_def is_valuable_text_def remove_ws_def py_blank_def py_simps)

theorem repeating_sequence_shortest_witness:
  "repeating_sequence ''abcabcab'' = ''abc'' \<and> tiles ''abcabcab'' 3 \<and>
   \<not> tiles ''abcabcab'' 1 \<and> \<not> tiles ''abcabcab'' 2"
proof -
  have r: "repeating_sequence ''abcabcab'' = ''abc''" by code_simp
  have "\<forall>k. 0 < k \<and> k < length ''abc'' \<and> 2 * k \<le> length ''abcabcab'' \<longrightarrow> \<not> tiles ''abcabcab'' k"
    and "tiles ''abcabcab'' (length ''abc'')"
    using repeating_sequence_shortest [of "''abcabcab''"] unfolding r by blast+
  then show ?thesis using r by (simp add: eval_nat_numeral)
qed

text \<open>A Google query whose first answer is a looping token is retried with the prefix
  \<open>Text: \<close>; the check after the last attempt prefixes it once more, and the clean-up
  repairs the output against that rewritten query: the 18-character source gets a
  30-character output with the capitals of \<open>Text: Text: \<close>.\<close>

theorem base_translate_retry_query_leak:
  "fst (base_translate (\<lambda>k f t q. Api_ok ''aaaaaaaaaa'') (new_translator Google True False) 100
      ''japanese'' ''english'' [''Hello there friend'']) = Inr [''AaaaaaAaaaaaAaaaaaaaaaaaaaaaaa'']"
  by code_simp

end
