(* ===== verification/Manager.thy ===== *)
theory Manager
  imports Translator
begin

text \<open>
  \<open>services/translate/translation_manager.py\<close>: the \<open>TranslationManager\<close> that owns the
  providers in their fixed priority order (DeepL when it comes up, then Google), validates
  the language pair, and tries the providers in order until one returns a non-blank
  translation. The providers are the records of \<open>Translator\<close>; their flags and request
  times are updated in place in the manager's list, so they persist from one call to the next.
\<close>

subsection \<open>State and construction\<close>

text \<open>What \<open>DeepLTranslator(api_key)\<close> meets when it is constructed: the \<open>deepl\<close> package
  missing (\<open>ImportError\<close>), or \<open>_initialize_translator\<close> ending with a working client, an
  \<open>AuthorizationException\<close>, or any other failure.\<close>

datatype deepl_env = Deepl_missing_package | Deepl_client_ok | Deepl_auth_failed | Deepl_client_failed

record manager =
  deepl_api_key :: "string option"
  translators :: "translator list"
  service_priority :: "string list"
  initialized :: bool

datatype manager_error =
    Value_error                \<comment> \<open>\<open>ValueError\<close> of \<open>_validate_languages\<close> or an unknown service\<close>
  | Service_unavailable        \<comment> \<open>\<open>Exception\<close>: service currently not available\<close>
  | Pair_unsupported           \<comment> \<open>\<open>Exception\<close>: service does not support the pair\<close>
  | No_services                \<comment> \<open>\<open>Exception\<close>: no translation services could be initialised\<close>

definition new_manager :: "string option \<Rightarrow> manager" where
  "new_manager key = \<lparr>deepl_api_key = key, translators = [], service_priority = [], initialized = False\<rparr>"

fun service_name :: "provider_kind \<Rightarrow> string" where
  \<comment> \<open>\<open>translator.__class__.__name__.replace('Translator', '')\<close>\<close>
  "service_name DeepL = ''DeepL''"
| "service_name Google = ''Google''"

definition make_deepl :: "deepl_env \<Rightarrow> translator option" where
  "make_deepl env =
     (case env of
        Deepl_missing_package \<Rightarrow> None
      | Deepl_client_ok \<Rightarrow> Some (new_translator DeepL True False)
      | Deepl_auth_failed \<Rightarrow> Some (new_translator DeepL False True)
      | Deepl_client_failed \<Rightarrow> Some (new_translator DeepL False False))"

definition key_truthy :: "string option \<Rightarrow> bool" where
  "key_truthy k \<longleftrightarrow> (case k of None \<Rightarrow> False | Some s \<Rightarrow> s \<noteq> [])"

definition add_translator :: "translator \<Rightarrow> manager \<Rightarrow> manager" where
  "add_translator p m =
     m\<lparr>translators := translators m @ [p], service_priority := service_priority m @ [service_name (kind p)]\<rparr>"

text \<open>\<open>_initialize_sync\<close> (and \<open>initialize\<close>, which does the same): DeepL is added only when
  its constructor succeeds and it reports itself available; Google is always added.\<close>

definition initialize_sync :: "deepl_env \<Rightarrow> manager \<Rightarrow> manager_error + manager" where
  "initialize_sync env m =
     (if initialized m then Inr m
      else
        (let m1 = (if key_truthy (deepl_api_key m) then
                     (case make_deepl env of
                        Some d \<Rightarrow> (if is_available d then add_translator d m else m)
                      | None \<Rightarrow> m)
                   else m);
             m2 = add_translator (new_translator Google True False) m1
         in if translators m2 = [] then Inl No_services else Inr (m2\<lparr>initialized := True\<rparr>)))"

definition validate_languages :: "string \<Rightarrow> string \<Rightarrow> manager_error + (string \<times> string \<times> bool)" where
  "validate_languages f t =
     (if supported_languages f = None then Inl Value_error
      else if supported_languages t = None then Inl Value_error
      else if f = t then Inr (f, t, False)
      else Inr (f, t, True))"

subsection \<open>The fallback loop of \<open>translate\<close>\<close>

definition cons_translator ::
  "translator \<Rightarrow> string option \<times> translator list \<times> real \<Rightarrow> string option \<times> translator list \<times> real" where
  "cons_translator p r = (case r of (res, ps, clk) \<Rightarrow> (res, p # ps, clk))"

definition usable_result :: "string list \<Rightarrow> bool" where
  \<comment> \<open>\<open>result and result[0] and result[0].strip()\<close>\<close>
  "usable_result rs \<longleftrightarrow> rs \<noteq> [] \<and> \<not> py_blank (hd rs)"

fun try_translators ::
  "api \<Rightarrow> string \<Rightarrow> string \<Rightarrow> string \<Rightarrow> translator list \<Rightarrow> real \<Rightarrow>
   string option \<times> translator list \<times> real" where
  "try_translators api f t text [] clk = (None, [], clk)"
| "try_translators api f t text (p # ps) clk =
     (if \<not> is_available p then cons_translator p (try_translators api f t text ps clk)
      else if supports_languages (kind p) f t False \<noteq> Inr True
      then cons_translator p (try_translators api f t text ps clk)
      else
        (case base_translate api p clk f t [text] of
           (Inr rs, p', clk') \<Rightarrow>
             (if usable_result rs then (Some (hd rs), p' # ps, clk')
              else cons_translator p' (try_translators api f t text ps clk'))
         | (Inl _, p', clk') \<Rightarrow> cons_translator p' (try_translators api f t text ps clk')))"

definition manager_translate ::
  "deepl_env \<Rightarrow> api \<Rightarrow> manager \<Rightarrow> real \<Rightarrow> string \<Rightarrow> string \<Rightarrow> string \<Rightarrow>
   (manager_error + string option) \<times> manager \<times> real" where
  "manager_translate env api m clk text f t =
     (case initialize_sync env m of
        Inl e \<Rightarrow> (Inl e, m, clk)
      | Inr m1 \<Rightarrow>
          (if py_blank text then (Inr (Some text), m1, clk)
           else
             (case validate_languages f t of
                Inl e \<Rightarrow> (Inl e, m1, clk)
              | Inr (f', t', needs) \<Rightarrow>
                  (if \<not> needs then (Inr (Some text), m1, clk)
                   else
                     (let (r, ps, clk') = try_translators api f' t' text (translators m1) clk
                      in (Inr r, m1\<lparr>translators := ps\<rparr>, clk'))))))"


subsection \<open>\<open>translate_batch\<close>, \<open>translate_with_service\<close> and the service queries\<close>

text \<open>
  \<open>translate_batch\<close> runs one \<open>translate\<close> per text under \<open>asyncio.gather\<close> with a
  semaphore; the model runs them one after the other in the order of the texts, which is the
  schedule in which every task completes before the next one starts. An exception of one task
  becomes \<open>None\<close> at its position.
\<close>

fun batch_loop ::
  "deepl_env \<Rightarrow> api \<Rightarrow> manager \<Rightarrow> real \<Rightarrow> string \<Rightarrow> string \<Rightarrow> string list \<Rightarrow>
   string option list \<times> manager \<times> real" where
  "batch_loop env api m clk f t [] = ([], m, clk)"
| "batch_loop env api m clk f t (x # xs) =
     (let (r, m1, clk1) = manager_translate env api m clk x f t;
          (rs, m2, clk2) = batch_loop env api m1 clk1 f t xs
      in ((case r of Inl _ \<Rightarrow> None | Inr v \<Rightarrow> v) # rs, m2, clk2))"

definition translate_batch ::
  "deepl_env \<Rightarrow> api \<Rightarrow> manager \<Rightarrow> real \<Rightarrow> string list \<Rightarrow> string \<Rightarrow> string \<Rightarrow>
   (manager_error + string option list) \<times> manager \<times> real" where
  "translate_batch env api m clk texts f t =
     (case initialize_sync env m of
        Inl e \<Rightarrow> (Inl e, m, clk)
      | Inr m1 \<Rightarrow>
          (if texts = [] then (Inr [], m1, clk)
           else
             (case validate_languages f t of
                Inl e \<Rightarrow> (Inl e, m1, clk)
              | Inr (f', t', needs) \<Rightarrow>
                  (if \<not> needs then (Inr (map Some texts), m1, clk)
                   else
                     (let (rs, m2, clk2) = batch_loop env api m1 clk f' t' texts
                      in (Inr rs, m2, clk2))))))"

fun first_index :: "('a \<Rightarrow> bool) \<Rightarrow> 'a list \<Rightarrow> nat option" where
  "first_index P [] = None"
| "first_index P (x # xs) = (if P x then Some 0 else map_option Suc (first_index P xs))"

definition translate_with_service ::
  "deepl_env \<Rightarrow> api \<Rightarrow> manager \<Rightarrow> real \<Rightarrow> string \<Rightarrow> string \<Rightarrow> string \<Rightarrow> string \<Rightarrow>
   (manager_error + string option) \<times> manager \<times> real" where
  "translate_with_service env api m clk text name f t =
     (case initialize_sync env m of
        Inl e \<Rightarrow> (Inl e, m, clk)
      | Inr m1 \<Rightarrow>
          (if py_blank text then (Inr (Some text), m1, clk)
           else
             (case first_index (\<lambda>p. service_name (kind p) = name) (translators m1) of
                None \<Rightarrow> (Inl Value_error, m1, clk)
              | Some i \<Rightarrow>
                  (let p = translators m1 ! i in
                   if \<not> is_available p then (Inl Service_unavailable, m1, clk)
                   else
                     (case validate_languages f t of
                        Inl e \<Rightarrow> (Inl e, m1, clk)
                      | Inr (f', t', needs) \<Rightarrow>
                          (if \<not> needs then (Inr (Some text), m1, clk)
                           else if supports_languages (kind p) f' t' False \<noteq> Inr True
                           then (Inl Pair_unsupported, m1, clk)
                           else
                             (case base_translate api p clk f' t' [text] of
                                (Inl _, p', clk') \<Rightarrow>
                                  (Inl Value_error, m1\<lparr>translators := (translators m1)[i := p']\<rparr>, clk')
                              | (Inr rs, p', clk') \<Rightarrow>
                                  (Inr (if rs \<noteq> [] \<and> hd rs \<noteq> [] then Some (hd rs) else None),
                                   m1\<lparr>translators := (translators m1)[i := p']\<rparr>, clk'))))))))"

definition get_available_services :: "deepl_env \<Rightarrow> manager \<Rightarrow> (manager_error + string list) \<times> manager" where
  "get_available_services env m =
     (case initialize_sync env m of
        Inl e \<Rightarrow> (Inl e, m)
      | Inr m1 \<Rightarrow> (Inr (map (\<lambda>p. service_name (kind p)) (filter is_available (translators m1))), m1))"

definition close_manager :: "manager \<Rightarrow> manager" where
  "close_manager m = m\<lparr>translators := [], service_priority := [], initialized := False\<rparr>"

text \<open>\<open>health_check\<close>: each provider translates \<open>['test']\<close> from \<open>JPN\<close> to \<open>ENG\<close> (the legacy
  codes, which \<open>BaseTranslator\<close> normalises) and is healthy when the first result is a
  non-empty string; an exception counts as unhealthy. The providers' state and the clock
  change as in any request.\<close>

fun health_loop :: "api \<Rightarrow> real \<Rightarrow> translator list \<Rightarrow> (string \<times> bool) list \<times> translator list \<times> real" where
  "health_loop api clk [] = ([], [], clk)"
| "health_loop api clk (p # ps) =
     (let (r, p', clk1) = base_translate api p clk ''JPN'' ''ENG'' [''test''];
          (hs, ps', clk2) = health_loop api clk1 ps
      in ((service_name (kind p), case r of Inr rs \<Rightarrow> rs \<noteq> [] \<and> hd rs \<noteq> [] | Inl _ \<Rightarrow> False) # hs,
          p' # ps', clk2))"

definition manager_health_check ::
  "deepl_env \<Rightarrow> api \<Rightarrow> manager \<Rightarrow> real \<Rightarrow> (manager_error + (string \<times> bool) list) \<times> manager \<times> real" where
  "manager_health_check env api m clk =
     (case initialize_sync env m of
        Inl e \<Rightarrow> (Inl e, m, clk)
      | Inr m1 \<Rightarrow> (let (hs, ps, clk') = health_loop api clk (translators m1) in (Inr hs, m1\<lparr>translators := ps\<rparr>, clk')))"

subsection \<open>Invariant\<close>

text \<open>The priority list names the providers, and an initialised manager holds Google last,
  preceded at most by DeepL; an uninitialised one holds none.\<close>

definition manager_wf :: "manager \<Rightarrow> bool" where
  "manager_wf m \<longleftrightarrow>
     service_priority m = map (\<lambda>p. service_name (kind p)) (translators m) \<and>
     (if initialized m then map kind (translators m) \<in> {[Google], [DeepL, Google]}
      else translators m = [])"

subsection \<open>Provider kinds and the invariant\<close>

lemma base_translate_kind [simp]: "kind (fst (snd (base_translate api p clk f t qs))) = kind p"
proof -
  let ?ix = "filter (\<lambda>i. is_valuable_text (qs ! i)) [0..<length qs]"
  let ?st = "(map (nth qs) ?ix, replicate (length (map (nth qs) ?ix)) [], [0..<length (map (nth qs) ?ix)], p, clk)"
  obtain a b c p' d where lp: "attempt_loop api (1 + invalid_repeat_count (kind p)) 0
      (normalize_language_code f) (normalize_language_code t) ?st = (a, b, c, p', d)"
    by (metis prod.exhaust)
  have "kind p' = kind p"
    using attempt_loop_inv [of ?st api "1 + invalid_repeat_count (kind p)" 0
        "normalize_language_code f" "normalize_language_code t"] lp
    by (simp add: loop_inv_def)
  then show ?thesis using lp by (simp add: base_translate_def Let_def)
qed

lemma base_translate_kind_eq: "base_translate api p clk f t qs = (r, p', c) \<Longrightarrow> kind p' = kind p"
  using base_translate_kind [of api p clk f t qs] by simp

lemma cons_translator_simps [simp]:
  "fst (cons_translator p r) = fst r"
  "fst (snd (cons_translator p r)) = p # fst (snd r)"
  by (simp_all add: cons_translator_def split: prod.splits)

lemma try_translators_kinds:
  "map kind (fst (snd (try_translators api f t input ps clk))) = map kind ps"
proof (induction ps arbitrary: clk)
  case (Cons p ps)
  then show ?case
    by (auto split: prod.splits sum.splits dest: base_translate_kind_eq)
qed simp

lemma initialize_sync_Inr: "\<exists>m'. initialize_sync env m = Inr m'"
  by (simp add: initialize_sync_def Let_def add_translator_def)

lemma initialize_sync_wf:
  assumes "manager_wf m" "initialize_sync env m = Inr m'"
  shows "manager_wf m'"
proof (cases "initialized m")
  case True
  then show ?thesis using assms by (simp add: initialize_sync_def)
next
  case False
  then have "translators m = []" "service_priority m = []" using assms(1) by (simp_all add: manager_wf_def)
  then show ?thesis
    using assms(2) False
    by (auto simp: initialize_sync_def Let_def add_translator_def manager_wf_def make_deepl_def new_translator_def
             split: if_splits option.splits deepl_env.splits)
qed


lemma manager_wf_translators:
  "manager_wf m \<Longrightarrow> map kind ps = map kind (translators m) \<Longrightarrow> manager_wf (m\<lparr>translators := ps\<rparr>)"
proof -
  assume wf: "manager_wf m" and k: "map kind ps = map kind (translators m)"
  have "map (\<lambda>p. service_name (kind p)) ps = map (\<lambda>p. service_name (kind p)) (translators m)"
    using arg_cong [OF k, of "map service_name"] by (simp add: comp_def)
  moreover have "ps = [] \<longleftrightarrow> translators m = []" using arg_cong [OF k, of length] by auto
  ultimately show ?thesis using wf k by (simp add: manager_wf_def split: if_splits)
qed

lemma first_index_Some:
  "first_index P xs = Some i \<Longrightarrow> i < length xs \<and> P (xs ! i) \<and> (\<forall>j < i. \<not> P (xs ! j))"
proof (induction xs arbitrary: i)
  case (Cons x xs)
  then show ?case by (cases i) (auto split: if_splits simp: less_Suc_eq_0_disj)
qed simp

lemma manager_translate_wf:
  assumes wf: "manager_wf m"
  shows "manager_wf (fst (snd (manager_translate env api m clk input f t)))"
proof -
  obtain m1 where i: "initialize_sync env m = Inr m1" using initialize_sync_Inr by blast
  have wf1: "manager_wf m1" using initialize_sync_wf [OF wf i] .
  obtain r ps clk' where tt: "try_translators api f t input (translators m1) clk = (r, ps, clk')"
    by (metis prod.exhaust)
  have "map kind ps = map kind (translators m1)"
    using try_translators_kinds [of api f t input "translators m1" clk] tt by simp
  then have "manager_wf (m1\<lparr>translators := ps\<rparr>)" by (rule manager_wf_translators [OF wf1])
  then show ?thesis
    using wf1 i tt by (auto simp: manager_translate_def validate_languages_def split: sum.splits)
qed

lemma batch_loop_wf:
  "manager_wf m \<Longrightarrow> manager_wf (fst (snd (batch_loop env api m clk f t xs)))"
proof (induction xs arbitrary: m clk)
  case (Cons x xs)
  obtain r m1 clk1 where mt: "manager_translate env api m clk x f t = (r, m1, clk1)"
    by (metis prod.exhaust)
  obtain rs m2 clk2 where bl: "batch_loop env api m1 clk1 f t xs = (rs, m2, clk2)"
    by (metis prod.exhaust)
  have "manager_wf m1" using manager_translate_wf [OF Cons.prems, of env api clk x f t] mt by simp
  then have "manager_wf m2" using Cons.IH [of m1 clk1] bl by simp
  then show ?case using mt bl by simp
qed simp

lemma batch_loop_length: "length (fst (batch_loop env api m clk f t xs)) = length xs"
proof (induction xs arbitrary: m clk)
  case (Cons x xs)
  obtain r m1 clk1 where mt: "manager_translate env api m clk x f t = (r, m1, clk1)"
    by (metis prod.exhaust)
  obtain rs m2 clk2 where bl: "batch_loop env api m1 clk1 f t xs = (rs, m2, clk2)"
    by (metis prod.exhaust)
  show ?case using Cons.IH [of m1 clk1] mt bl by simp
qed simp

lemma translate_batch_wf:
  assumes wf: "manager_wf m"
  shows "manager_wf (fst (snd (translate_batch env api m clk texts f t)))"
proof -
  obtain m1 where i: "initialize_sync env m = Inr m1" using initialize_sync_Inr by blast
  have wf1: "manager_wf m1" using initialize_sync_wf [OF wf i] .
  then show ?thesis
    using i batch_loop_wf [OF wf1, of env api clk f t texts]
    by (auto simp: translate_batch_def validate_languages_def split: sum.splits prod.splits)
qed

lemma translate_with_service_wf:
  assumes wf: "manager_wf m"
  shows "manager_wf (fst (snd (translate_with_service env api m clk input name f t)))"
proof -
  obtain m1 where i: "initialize_sync env m = Inr m1" using initialize_sync_Inr by blast
  have wf1: "manager_wf m1" using initialize_sync_wf [OF wf i] .
  have upd: "manager_wf (m1\<lparr>translators := (translators m1)[j := p']\<rparr>)"
    if "first_index (\<lambda>p. service_name (kind p) = name) (translators m1) = Some j"
       "base_translate api (translators m1 ! j) clk f' t' [input] = (r, p', c)" for j r p' c f' t'
  proof (rule manager_wf_translators [OF wf1])
    have "j < length (translators m1)" using first_index_Some [OF that(1)] by simp
    moreover have "kind p' = kind (translators m1 ! j)" using base_translate_kind_eq [OF that(2)] .
    ultimately show "map kind ((translators m1)[j := p']) = map kind (translators m1)"
      by (metis list_update_id map_update nth_map)
  qed
  show ?thesis
    using wf1 i upd by (auto simp: translate_with_service_def validate_languages_def Let_def
        split: sum.splits prod.splits option.splits)
qed

lemma health_loop_kinds: "map kind (fst (snd (health_loop api clk ps))) = map kind ps"
proof (induction ps arbitrary: clk)
  case (Cons p ps)
  obtain r p' c1 where b: "base_translate api p clk ''JPN'' ''ENG'' [''test''] = (r, p', c1)"
    by (metis prod.exhaust)
  have "kind p' = kind p" using base_translate_kind [of api p clk "''JPN''" "''ENG''" "[''test'']"] b by simp
  moreover obtain hs ps' c2 where "health_loop api c1 ps = (hs, ps', c2)" by (metis prod.exhaust)
  ultimately show ?case using Cons.IH [of c1] b by simp
qed simp

lemma manager_health_check_wf:
  assumes "manager_wf m"
  shows "manager_wf (fst (snd (manager_health_check env api m clk)))"
proof -
  obtain m1 where i: "initialize_sync env m = Inr m1" using initialize_sync_Inr by blast
  then have wf1: "manager_wf m1" using initialize_sync_wf [OF assms] by simp
  obtain hs ps clk' where h: "health_loop api clk (translators m1) = (hs, ps, clk')" by (metis prod.exhaust)
  have "map kind ps = map kind (translators m1)" using health_loop_kinds [of api clk "translators m1"] h by simp
  moreover have "map (\<lambda>p. service_name (kind p)) xs = map service_name (map kind xs)" for xs by simp
  ultimately have "map (\<lambda>p. service_name (kind p)) ps = map (\<lambda>p. service_name (kind p)) (translators m1)"
    and "ps = [] \<longleftrightarrow> translators m1 = []" by (metis, metis Nil_is_map_conv)
  then have "manager_wf (m1\<lparr>translators := ps\<rparr>)" using wf1 \<open>map kind ps = map kind (translators m1)\<close>
    by (auto simp: manager_wf_def split: if_splits)
  then show ?thesis by (simp add: manager_health_check_def i h)
qed

lemma close_manager_wf: "manager_wf (close_manager m)"
  by (simp add: close_manager_def manager_wf_def)

lemma new_manager_wf: "manager_wf (new_manager k)"
  by (simp add: new_manager_def manager_wf_def)

subsection \<open>The fallback loop\<close>

lemma get_available_services_wf: "manager_wf m \<Longrightarrow> manager_wf (snd (get_available_services env m))"
  using initialize_sync_Inr [of env m] initialize_sync_wf [of m env]
  by (auto simp: get_available_services_def)

text \<open>
  C11. When the provider loop of \<open>translate\<close> returns a translation, it is the first
  result of one provider's \<open>translate\<close> call on the text: a provider that is available and
  supports the pair, whose state and clock after that call are the ones the loop returns;
  every provider after it is left untouched (never called), and the translation is not blank.\<close>

theorem try_translators_fallback_order:
  "fst (try_translators api f t input ps clk) = Some r \<Longrightarrow>
   \<exists>i < length ps. is_available (ps ! i) \<and> supports_languages (kind (ps ! i)) f t False = Inr True \<and>
     (\<exists>c rs. base_translate api (ps ! i) c f t [input] =
               (Inr rs, fst (snd (try_translators api f t input ps clk)) ! i,
                snd (snd (try_translators api f t input ps clk))) \<and> r = hd rs) \<and>
     drop (Suc i) (fst (snd (try_translators api f t input ps clk))) = drop (Suc i) ps \<and> \<not> py_blank r"
proof (induction ps arbitrary: clk)
  case Nil
  then show ?case by simp
next
  case (Cons p ps)
  show ?case
  proof (cases "is_available p \<and> supports_languages (kind p) f t False = Inr True")
    case False
    then have tt: "try_translators api f t input (p # ps) clk = cons_translator p (try_translators api f t input ps clk)"
      by (cases "is_available p") (auto simp del: is_available.simps)
    then have "fst (try_translators api f t input ps clk) = Some r"
      using Cons.prems by (simp add: cons_translator_def split: prod.splits)
    then obtain i where "i < length ps" "is_available (ps ! i)"
      "supports_languages (kind (ps ! i)) f t False = Inr True"
      "\<exists>c rs. base_translate api (ps ! i) c f t [input] =
               (Inr rs, fst (snd (try_translators api f t input ps clk)) ! i,
                snd (snd (try_translators api f t input ps clk))) \<and> r = hd rs"
      "drop (Suc i) (fst (snd (try_translators api f t input ps clk))) = drop (Suc i) ps" "\<not> py_blank r"
      using Cons.IH by blast
    then show ?thesis using tt
      by (intro exI [of _ "Suc i"]) (auto simp: cons_translator_def split: prod.splits simp del: is_available.simps)
  next
    case True
    obtain res p' clk' where bt: "base_translate api p clk f t [input] = (res, p', clk')"
      by (metis prod.exhaust)
    show ?thesis
    proof (cases "\<exists>rs. res = Inr rs \<and> usable_result rs")
      case True
      then obtain rs where "res = Inr rs" "usable_result rs" by blast
      then show ?thesis
        using \<open>is_available p \<and> _\<close> bt Cons.prems
        by (intro exI [of _ 0]) (auto simp: usable_result_def simp del: is_available.simps)
    next
      case False
      then have tt: "try_translators api f t input (p # ps) clk =
          cons_translator p' (try_translators api f t input ps clk')"
        using \<open>is_available p \<and> _\<close> bt by (auto split: sum.splits simp del: is_available.simps)
      then have "fst (try_translators api f t input ps clk') = Some r"
        using Cons.prems by (simp add: cons_translator_def split: prod.splits)
      then obtain i where "i < length ps" "is_available (ps ! i)"
        "supports_languages (kind (ps ! i)) f t False = Inr True"
        "\<exists>c rs. base_translate api (ps ! i) c f t [input] =
               (Inr rs, fst (snd (try_translators api f t input ps clk')) ! i,
                snd (snd (try_translators api f t input ps clk'))) \<and> r = hd rs"
        "drop (Suc i) (fst (snd (try_translators api f t input ps clk'))) = drop (Suc i) ps" "\<not> py_blank r"
        using Cons.IH by blast
      then show ?thesis using tt
        by (intro exI [of _ "Suc i"]) (auto simp: cons_translator_def split: prod.splits simp del: is_available.simps)
    qed
  qed
qed

lemma try_translators_none_available:
  "\<forall>p \<in> set ps. \<not> is_available p \<Longrightarrow> try_translators api f t input ps clk = (None, ps, clk)"
  by (induction ps) (auto simp: cons_translator_def simp del: is_available.simps)

subsection \<open>Properties of the manager\<close>

lemma try_translators_nonblank:
  "fst (try_translators api f t input ps clk) = Some r \<Longrightarrow> \<not> py_blank r"
  by (induction ps arbitrary: clk)
     (auto simp: usable_result_def split: if_splits sum.splits prod.splits simp del: is_available.simps)

text \<open>
  C28. Every operation of the manager (\<open>_initialize_sync\<close>, \<open>translate\<close>,
  \<open>translate_batch\<close>, \<open>translate_with_service\<close>, \<open>get_available_services\<close>, \<open>close\<close>,
  \<open>health_check\<close>)
  keeps the priority list naming the providers, with Google last and at most DeepL before it;
  initialisation never raises.\<close>

theorem manager_ops_preserve_wf:
  assumes "manager_wf m"
  shows "manager_wf (fst (snd (manager_translate env api m clk input f t))) \<and>
         manager_wf (fst (snd (translate_batch env api m clk texts f t))) \<and>
         manager_wf (fst (snd (translate_with_service env api m clk input name f t))) \<and>
         manager_wf (snd (get_available_services env m)) \<and>
         manager_wf (close_manager m) \<and>
         manager_wf (fst (snd (manager_health_check env api m clk))) \<and>
         (case initialize_sync env m of Inl _ \<Rightarrow> False | Inr m' \<Rightarrow> manager_wf m')"
  using assms manager_translate_wf translate_batch_wf translate_with_service_wf
    get_available_services_wf close_manager_wf manager_health_check_wf initialize_sync_wf initialize_sync_Inr [of env m]
  by (auto split: sum.splits)

text \<open>
  C30. When no provider of an initialised manager is available, \<open>translate\<close> of a
  non-blank text in a valid pair returns \<open>None\<close> without any request and without changing
  any state or the clock. Nothing resets the flags, so a provider that hit one rate limit stays
  out of use for the rest of the process.\<close>

theorem manager_translate_none_available:
  assumes "initialized m" "\<forall>p \<in> set (translators m). \<not> is_available p" "\<not> py_blank input"
    and "validate_languages f t = Inr (f, t, True)"
  shows "manager_translate env api m clk input f t = (Inr None, m, clk)"
  using assms try_translators_none_available [OF assms(2), of api f t input clk]
  by (simp add: manager_translate_def initialize_sync_def)

text \<open>
  A translation returned by \<open>translate\<close> is either the text itself (blank text or
  same language) or not blank.\<close>

theorem manager_translate_nonblank:
  "fst (manager_translate env api m clk input f t) = Inr (Some r) \<Longrightarrow> r = input \<or> \<not> py_blank r"
proof -
  assume res: "fst (manager_translate env api m clk input f t) = Inr (Some r)"
  obtain m1 where i: "initialize_sync env m = Inr m1" using initialize_sync_Inr by blast
  obtain r' ps clk' where tt: "try_translators api f t input (translators m1) clk = (r', ps, clk')"
    by (metis prod.exhaust)
  have "r' = Some r \<Longrightarrow> \<not> py_blank r" using try_translators_nonblank [of api f t input "translators m1" clk] tt
    by simp
  then show ?thesis
    using res i tt by (auto simp: manager_translate_def validate_languages_def split: if_splits)
qed

text \<open>
  \<open>translate_batch\<close> returns one result per input text.\<close>

theorem translate_batch_length:
  "fst (translate_batch env api m clk texts f t) = Inr rs \<Longrightarrow> length rs = length texts"
proof -
  assume res: "fst (translate_batch env api m clk texts f t) = Inr rs"
  obtain m1 where i: "initialize_sync env m = Inr m1" using initialize_sync_Inr by blast
  obtain rs' m2 clk2 where bl: "batch_loop env api m1 clk f t texts = (rs', m2, clk2)"
    by (metis prod.exhaust)
  have "length rs' = length texts" using batch_loop_length [of env api m1 clk f t texts] bl by simp
  then show ?thesis
    using res i bl by (auto simp: translate_batch_def validate_languages_def split: if_splits)
qed

text \<open>
  C37. \<open>translate\<close> called with its own default language codes \<open>JPN\<close> and
  \<open>ENG\<close> raises ValueError for every non-blank text: the manager validates before it
  normalises.\<close>

theorem manager_rejects_legacy_codes:
  "\<not> py_blank input \<Longrightarrow> fst (manager_translate env api m clk input ''JPN'' ''ENG'') = Inl Value_error"
  using initialize_sync_Inr [of env m]
  by (auto simp: manager_translate_def validate_languages_def supported_languages_def split: sum.splits)

text \<open>
  Initialisation puts DeepL first exactly when an API key is set and its client
  came up available, and always puts Google last.\<close>

theorem initialize_sync_order:
  "case initialize_sync env (new_manager k) of
     Inl _ \<Rightarrow> False
   | Inr m' \<Rightarrow> initialized m' \<and> service_priority m' = map (\<lambda>p. service_name (kind p)) (translators m') \<and>
       map kind (translators m') = (if key_truthy k \<and> env = Deepl_client_ok then [DeepL, Google] else [Google])"
  by (cases env) (auto simp: initialize_sync_def new_manager_def make_deepl_def add_translator_def
      new_translator_def Let_def)

subsection \<open>Concrete runs\<close>

theorem manager_ops_preserve_wf_witness:
  "manager_wf (fst (snd (manager_translate Deepl_client_ok (\<lambda>k f t q. Api_ok ''Bonjour'') (new_manager (Some ''key''))
      0 ''Hello'' ''japanese'' ''english''))) \<and>
   manager_wf (close_manager (new_manager (Some ''key'')))"
  using manager_ops_preserve_wf [OF new_manager_wf [of "Some ''key''"], where env = Deepl_client_ok
      and api = "\<lambda>k f t q. Api_ok ''Bonjour''" and clk = 0 and input = "''Hello''" and f = "''japanese''"
      and t = "''english''"]
  by simp

theorem manager_translate_none_available_witness:
  "fst (manager_translate Deepl_missing_package (\<lambda>k f t q. Api_rate_limited) (new_manager None) 0
      ''Hello'' ''japanese'' ''english'') = Inr None \<and>
   manager_translate Deepl_missing_package (\<lambda>k f t q. Api_ok ''Bonjour'')
      (fst (snd (manager_translate Deepl_missing_package (\<lambda>k f t q. Api_rate_limited) (new_manager None) 0
        ''Hello'' ''japanese'' ''english''))) 20 ''Hello'' ''japanese'' ''english'' =
   (Inr None, fst (snd (manager_translate Deepl_missing_package (\<lambda>k f t q. Api_rate_limited) (new_manager None) 0
        ''Hello'' ''japanese'' ''english'')), 20)"
proof -
  define m1 where "m1 = (new_manager None)\<lparr>translators :=
      [(new_translator Google True False)\<lparr>last_request_ts := 20, rate_limited := True\<rparr>],
      service_priority := [''Google''], initialized := True\<rparr>"
  have e: "manager_translate Deepl_missing_package (\<lambda>k f t q. Api_rate_limited) (new_manager None) 0
      ''Hello'' ''japanese'' ''english'' = (Inr None, m1, 20)"
    unfolding m1_def by code_simp
  have "manager_translate Deepl_missing_package (\<lambda>k f t q. Api_ok ''Bonjour'') m1 20 ''Hello'' ''japanese'' ''english''
      = (Inr None, m1, 20)"
    using manager_translate_none_available [where m = m1 and input = "''Hello''" and f = "''japanese''"
        and t = "''english''" and env = Deepl_missing_package and api = "\<lambda>k f t q. Api_ok ''Bonjour''" and clk = 20]
    by (simp add: m1_def new_manager_def new_translator_def validate_languages_def supported_languages_def
        py_blank_def py_simps)
  then show ?thesis using e by simp
qed

theorem manager_translate_nonblank_witness:
  "fst (manager_translate Deepl_missing_package (\<lambda>k f t q. Api_ok ''Bonjour'') (new_manager None) 0
      ''Hello'' ''japanese'' ''english'') = Inr (Some ''Bonjour'') \<and>
   (''Bonjour'' = ''Hello'' \<or> \<not> py_blank ''Bonjour'')"
proof -
  have e: "fst (manager_translate Deepl_missing_package (\<lambda>k f t q. Api_ok ''Bonjour'') (new_manager None) 0
      ''Hello'' ''japanese'' ''english'') = Inr (Some ''Bonjour'')"
    by code_simp
  show ?thesis using e manager_translate_nonblank [OF e] by simp
qed

theorem translate_batch_length_witness:
  "fst (translate_batch Deepl_missing_package (\<lambda>k f t q. Api_ok ''Bonjour'') (new_manager None) 0
      [''Hello'', '' ''] ''japanese'' ''english'') = Inr [Some ''Bonjour'', Some '' ''] \<and>
   length [Some ''Bonjour'', Some '' ''] = length [''Hello'', '' '']"
proof -
  have e: "fst (translate_batch Deepl_missing_package (\<lambda>k f t q. Api_ok ''Bonjour'') (new_manager None) 0
      [''Hello'', '' ''] ''japanese'' ''english'') = Inr [Some ''Bonjour'', Some '' '']"
    by code_simp
  show ?thesis using e translate_batch_length [OF e] by simp
qed

theorem manager_rejects_legacy_codes_witness:
  "fst (manager_translate Deepl_missing_package (\<lambda>k f t q. Api_ok ''Bonjour'') (new_manager None) 0
      ''Hello'' ''JPN'' ''ENG'') = Inl Value_error"
  using manager_rejects_legacy_codes [where input = "''Hello''" and env = Deepl_missing_package
      and api = "\<lambda>k f t q. Api_ok ''Bonjour''" and m = "new_manager None" and clk = 0]
  by (simp add: py_blank_def py_simps)

theorem try_translators_fallback_order_witness:
  "fst (try_translators (\<lambda>k f t q. Api_ok ''Bonjour'') ''japanese'' ''english'' ''Hello''
      [new_translator DeepL False True, new_translator Google True False] 0) = Some ''Bonjour'' \<and>
   \<not> py_blank ''Bonjour''"
proof -
  have e: "fst (try_translators (\<lambda>k f t q. Api_ok ''Bonjour'') ''japanese'' ''english'' ''Hello''
      [new_translator DeepL False True, new_translator Google True False] 0) = Some ''Bonjour''"
    by code_simp
  have "\<not> py_blank ''Bonjour''" using try_translators_fallback_order [OF e] by blast
  with e show ?thesis by blast
qed

end
