(* ===== verification/Schemas.thy ===== *)
theory Schemas
  imports Prelude
begin

text \<open>
  The data model of \<open>models/schemas.py\<close> and the static language tables of
  \<open>config.py\<close>: the \<open>Language\<close>, \<open>TextDirection\<close> and \<open>ProcessingStage\<close>
  enumerations as datatypes, \<open>BoundingBox\<close> and \<open>TextBox\<close> as records with their
  derived properties, and the font and direction lookups with the startup check that every
  language has a font.
\<close>

subsection \<open>Enumerations\<close>

datatype language = Japanese | Sim_chinese | Trad_chinese | Korean | English | Vietnamese

datatype text_direction = LTR | TTB

datatype processing_stage =
  Initialized | Ocr | Translation | Inpainting | Rendering | Completed | Error

text \<open>\<open>Language.value\<close>, and \<open>Language(s)\<close>, which raises ValueError on any other string.\<close>

fun language_value :: "language \<Rightarrow> string" where
  "language_value Japanese = ''japanese''"
| "language_value Sim_chinese = ''sim_chinese''"
| "language_value Trad_chinese = ''trad_chinese''"
| "language_value Korean = ''korean''"
| "language_value English = ''english''"
| "language_value Vietnamese = ''vietnamese''"

definition all_languages :: "language list" where
  "all_languages = [Japanese, Sim_chinese, Trad_chinese, Korean, English, Vietnamese]"

definition language_of_value :: "string \<Rightarrow> language option" where
  "language_of_value s = find (\<lambda>l. language_value l = s) all_languages"

fun direction_of_value :: "string \<Rightarrow> text_direction option" where
  "direction_of_value s =
     (if s = ''ltr'' then Some LTR else if s = ''ttb'' then Some TTB else None)"

subsection \<open>Configuration tables (\<open>Settings.font_mappings\<close>, \<open>Settings.text_directions\<close>)\<close>

definition font_mapping_list :: "(string \<times> string) list" where
  \<comment> \<open>the items of the dict, in their order\<close>
  "font_mapping_list =
     [(''english'', ''fonts/CCMonologousTeddyBear.ttf''),
      (''japanese'', ''fonts/GenEiAntique.ttf''),
      (''sim_chinese'', ''fonts/SCNotoSerifCJK.otf''),
      (''korean'', ''fonts/KRNotoSerifCJK.otf''),
      (''trad_chinese'', ''fonts/TCNotoSerifCJK.otf''),
      (''vietnamese'', ''fonts/CCMonologousTeddyBear.ttf''),
      (''default'', ''fonts/CCMonologousTeddyBear.ttf'')]"

definition font_mappings :: "string \<Rightarrow> string option" where
  "font_mappings = map_of font_mapping_list"

definition text_directions :: "string \<Rightarrow> string option" where
  "text_directions = map_of
     [(''english'', ''ltr''), (''japanese'', ''ttb''), (''sim_chinese'', ''ttb''),
      (''trad_chinese'', ''ttb''), (''korean'', ''ltr''), (''vietnamese'', ''ltr''),
      (''default'', ''ltr'')]"

text \<open>The import-time check: the languages without a font entry.\<close>

definition missing_fonts :: "string list" where
  "missing_fonts = [language_value l. l \<leftarrow> all_languages, font_mappings (language_value l) = None]"

definition get_font_for_language :: "language \<Rightarrow> string" where
  "get_font_for_language l =
     (case font_mappings (language_value l) of
        Some p \<Rightarrow> p
      | None \<Rightarrow> (case font_mappings ''default'' of Some d \<Rightarrow> d | None \<Rightarrow> []))"

text \<open>\<open>TextDirection(direction)\<close> raises ValueError on a string that is no direction.\<close>

datatype schema_error = ValueError

definition get_text_direction_for_language :: "language \<Rightarrow> schema_error + text_direction" where
  "get_text_direction_for_language l =
     (let d = (case text_directions (language_value l) of
                 Some d \<Rightarrow> d
               | None \<Rightarrow> (case text_directions ''default'' of Some d \<Rightarrow> d | None \<Rightarrow> []))
      in case direction_of_value d of Some td \<Rightarrow> Inr td | None \<Rightarrow> Inl ValueError)"

subsection \<open>Records\<close>

record bounding_box =
  x1 :: int
  y1 :: int
  x2 :: int
  y2 :: int

definition bb_width :: "bounding_box \<Rightarrow> int" where
  "bb_width b = x2 b - x1 b"

definition bb_height :: "bounding_box \<Rightarrow> int" where
  "bb_height b = y2 b - y1 b"

definition center_x :: "bounding_box \<Rightarrow> int" where
  "center_x b = (x1 b + x2 b) div 2"

definition center_y :: "bounding_box \<Rightarrow> int" where
  "center_y b = (y1 b + y2 b) div 2"

definition mk_bbox :: "int \<Rightarrow> int \<Rightarrow> int \<Rightarrow> int \<Rightarrow> bounding_box" where
  "mk_bbox a b c d = \<lparr>x1 = a, y1 = b, x2 = c, y2 = d\<rparr>"

text \<open>The invariant the spec states for every box (the model does not enforce it).\<close>

definition bbox_wf :: "bounding_box \<Rightarrow> bool" where
  "bbox_wf b \<longleftrightarrow> x1 b < x2 b \<and> y1 b < y2 b"

record text_box =
  box_text :: string
  bbox :: bounding_box
  translated_text :: string

definition mk_text_box :: "string \<Rightarrow> bounding_box \<Rightarrow> text_box" where
  \<comment> \<open>\<open>TextBox(text=..., bbox=...)\<close>: \<open>translated_text\<close> defaults to the empty string\<close>
  "mk_text_box t b = \<lparr>box_text = t, bbox = b, translated_text = []\<rparr>"

definition has_translation :: "text_box \<Rightarrow> bool" where
  "has_translation tb \<longleftrightarrow> \<not> py_blank (translated_text tb)"

definition display_text :: "text_box \<Rightarrow> string" where
  "display_text tb = (if has_translation tb then translated_text tb else box_text tb)"

lemmas schema_defs =
  bb_width_def bb_height_def center_x_def center_y_def mk_bbox_def bbox_wf_def
  has_translation_def display_text_def

lemma language_of_value_language_value [simp]: "language_of_value (language_value l) = Some l"
  by (cases l) (simp_all add: language_of_value_def all_languages_def)

lemma language_value_inj [simp]: "language_value l = language_value l' \<longleftrightarrow> l = l'"
  by (metis language_of_value_language_value option.inject)

lemma all_languages_complete [simp]: "l \<in> set all_languages"
  by (cases l) (simp_all add: all_languages_def)

lemma bbox_wf_dims: "bbox_wf b \<longleftrightarrow> 0 < bb_width b \<and> 0 < bb_height b"
  by (simp add: schema_defs)

end
