(* ===== verification/Ocr.thy ===== *)
theory Ocr
  imports Schemas
begin

text \<open>
  The OCR side the pipeline calls: \<open>services/ocr/base.py\<close> (\<open>_merge_nearby_boxes\<close>, the
  text-box merge utility both engines apply to their detections) and
  \<open>services/ocr/ocr_manager.py\<close> (service construction and selection). The recognition
  engines themselves are oracles returning detected boxes.
\<close>

subsection \<open>The merge utility (\<open>OCRService._merge_nearby_boxes\<close>)\<close>

datatype ocr_error =
    Attribute_error      \<comment> \<open>\<open>b.confidence\<close> on a \<open>TextBox\<close>, which has no such field\<close>
  | Runtime_error        \<comment> \<open>no OCR service for the language\<close>
  | Engine_error         \<comment> \<open>any exception of an engine's recognition\<close>
  | Init_error           \<comment> \<open>an engine constructor raised inside \<open>initialize\<close>\<close>

text \<open>\<open>_boxes_nearby\<close>: \<open>sqrt(dx**2 + dy**2) <= threshold\<close>. For integer coordinates and
  threshold (and squares below \<open>2^53\<close>) the correctly rounded square root is at most the
  integer threshold exactly when the squared distance is at most its square; a negative
  threshold is never reached.\<close>

definition boxes_nearby :: "bounding_box \<Rightarrow> bounding_box \<Rightarrow> int \<Rightarrow> bool" where
  "boxes_nearby b1 b2 th \<longleftrightarrow>
     0 \<le> th \<and> (center_x b1 - center_x b2)\<^sup>2 + (center_y b1 - center_y b2)\<^sup>2 \<le> th\<^sup>2"

text \<open>\<open>_merge_text_boxes\<close>: one box is returned as it is; for two or more the generator
  \<open>sum(b.confidence for b in boxes)\<close> raises \<open>AttributeError\<close> before the merged box is built.\<close>

definition merge_text_boxes :: "text_box list \<Rightarrow> ocr_error + text_box" where
  "merge_text_boxes bs = (if length bs = 1 then Inr (hd bs) else Inl Attribute_error)"

text \<open>The loop of \<open>_merge_nearby_boxes\<close> over \<open>enumerate(boxes)\<close> with the \<open>used\<close> set:
  the indices still to visit, and the set of indices already grouped.\<close>

fun merge_outer :: "int \<Rightarrow> text_box list \<Rightarrow> nat list \<Rightarrow> nat set \<Rightarrow> ocr_error + text_box list" where
  "merge_outer th bs [] used = Inr []"
| "merge_outer th bs (i # is) used =
     (if i \<in> used then merge_outer th bs is used
      else
        (let js = filter (\<lambda>j. j \<notin> used \<and> boxes_nearby (bbox (bs ! i)) (bbox (bs ! j)) th)
                    [Suc i..<length bs];
             group = bs ! i # map (nth bs) js;
             used' = insert i used \<union> set js
         in case (if 1 < length group then merge_text_boxes group else Inr (bs ! i)) of
              Inl e \<Rightarrow> Inl e
            | Inr m \<Rightarrow> (case merge_outer th bs is used' of Inl e \<Rightarrow> Inl e | Inr ms \<Rightarrow> Inr (m # ms))))"

definition merge_nearby_boxes :: "int \<Rightarrow> text_box list \<Rightarrow> ocr_error + text_box list" where
  "merge_nearby_boxes th bs = (if bs = [] then Inr bs else merge_outer th bs [0..<length bs] {})"

text \<open>Whether two boxes, in detection order, lie within the threshold of each other.\<close>

fun has_nearby_pair :: "int \<Rightarrow> text_box list \<Rightarrow> bool" where
  "has_nearby_pair th [] = False"
| "has_nearby_pair th (b # bs) = ((\<exists>c \<in> set bs. boxes_nearby (bbox b) (bbox c) th) \<or> has_nearby_pair th bs)"


subsection \<open>The OCR manager (\<open>OCRManager\<close>)\<close>

datatype ocr_kind = Easy_ocr | Manga_ocr

text \<open>What the constructor of an engine does: raise (a model or reader that fails to load), or
  build a service that reports itself available or not.\<close>

datatype ocr_ctor = Ctor_raises | Ctor_ok bool

type_synonym ocr_env = "ocr_kind \<Rightarrow> ocr_ctor"

text \<open>The recognition of an engine on the image for a language: the detected boxes before the
  merge, or \<open>None\<close> when it raises (for EasyOCR also when it has no reader for the language).\<close>

type_synonym ocr_engine = "ocr_kind \<Rightarrow> string \<Rightarrow> text_box list option"

record ocr_manager =
  ocr_services :: "(string \<times> ocr_kind) list"   \<comment> \<open>the dict \<open>self.services\<close>, in insertion order\<close>
  ocr_initialized :: bool

definition new_ocr_manager :: ocr_manager where
  "new_ocr_manager = \<lparr>ocr_services = [], ocr_initialized = False\<rparr>"

fun ocr_supported_languages :: "ocr_kind \<Rightarrow> string list" where
  "ocr_supported_languages Easy_ocr =
     [''english'', ''korean'', ''vietnamese'', ''japanese'', ''sim_chinese'', ''trad_chinese'']"
| "ocr_supported_languages Manga_ocr = [''japanese'', ''sim_chinese'', ''trad_chinese'']"

text \<open>\<open>self.services[name] = service\<close>: a new key is appended, an existing one keeps its place.\<close>

fun dict_set :: "'k \<Rightarrow> 'v \<Rightarrow> ('k \<times> 'v) list \<Rightarrow> ('k \<times> 'v) list" where
  "dict_set k v [] = [(k, v)]"
| "dict_set k v ((k', v') # ps) = (if k = k' then (k, v) # ps else (k', v') # dict_set k v ps)"

fun ocr_init_loop ::
  "ocr_env \<Rightarrow> (string \<times> ocr_kind) list \<Rightarrow> ocr_manager \<Rightarrow> (ocr_error + unit) \<times> ocr_manager" where
  "ocr_init_loop env [] m = (Inr (), m)"
| "ocr_init_loop env ((name, k) # rest) m =
     (case env k of
        Ctor_raises \<Rightarrow> (Inl Init_error, m)
      | Ctor_ok avail \<Rightarrow>
          ocr_init_loop env rest
            (if avail then m\<lparr>ocr_services := dict_set name k (ocr_services m)\<rparr> else m))"

text \<open>\<open>initialize\<close>: an exception of a constructor propagates with the services added so far
  kept and \<open>_initialized\<close> still false.\<close>

definition ocr_initialize :: "ocr_env \<Rightarrow> ocr_manager \<Rightarrow> (ocr_error + unit) \<times> ocr_manager" where
  "ocr_initialize env m =
     (if ocr_initialized m then (Inr (), m)
      else
        (case ocr_init_loop env [(''easy'', Easy_ocr), (''manga'', Manga_ocr)] m of
           (Inl e, m') \<Rightarrow> (Inl e, m')
         | (Inr u, m') \<Rightarrow> (Inr u, m'\<lparr>ocr_initialized := True\<rparr>)))"

definition get_ocr_service :: "ocr_env \<Rightarrow> ocr_manager \<Rightarrow> string \<Rightarrow> (ocr_error + ocr_kind) \<times> ocr_manager" where
  "get_ocr_service env m lang =
     (case ocr_initialize env m of
        (Inl e, m') \<Rightarrow> (Inl e, m')
      | (Inr _, m') \<Rightarrow>
          (if lang \<in> set [''japanese'', ''sim_chinese'', ''trad_chinese''] \<and>
              (case map_of (ocr_services m') ''manga'' of
                 Some k \<Rightarrow> lang \<in> set (ocr_supported_languages k) | None \<Rightarrow> False)
           then (Inr (the (map_of (ocr_services m') ''manga'')), m')
           else
             (case find (\<lambda>(n, k). lang \<in> set (ocr_supported_languages k)) (ocr_services m') of
                Some (n, k) \<Rightarrow> (Inr k, m')
              | None \<Rightarrow> (Inl Runtime_error, m'))))"

definition ocr_is_available :: "ocr_manager \<Rightarrow> bool" where
  \<comment> \<open>\<open>is_available\<close>: \<open>len(self.services) > 0\<close>\<close>
  "ocr_is_available m \<longleftrightarrow> ocr_services m \<noteq> []"

definition ocr_close :: "ocr_manager \<Rightarrow> ocr_manager" where
  \<comment> \<open>\<open>close\<close>: the services' own \<open>close\<close> errors are logged; the dict is cleared\<close>
  "ocr_close m = m\<lparr>ocr_services := [], ocr_initialized := False\<rparr>"

text \<open>\<open>extract_text\<close> of either engine: recognition, then \<open>_merge_nearby_boxes\<close> with its
  default threshold 20, since \<open>settings.merge_nearby_textboxes\<close> is true by default.\<close>

definition merge_nearby_textboxes :: bool where
  "merge_nearby_textboxes = True"

definition extract_text :: "ocr_engine \<Rightarrow> ocr_kind \<Rightarrow> string \<Rightarrow> ocr_error + text_box list" where
  "extract_text eng k lang =
     (case eng k lang of
        None \<Rightarrow> Inl Engine_error
      | Some bs \<Rightarrow> (if merge_nearby_textboxes then merge_nearby_boxes 20 bs else Inr bs))"

subsection \<open>The merge is the identity or raises\<close>

lemma map_nth_upt_drop: "map ((!) xs) [k..<length xs] = drop k xs"
  by (rule nth_equalityI) auto

lemma exists_upt_drop:
  "(\<exists>j \<in> set [k..<length xs]. P (xs ! j)) \<longleftrightarrow> (\<exists>c \<in> set (drop k xs). P c)"
  using map_nth_upt_drop [of xs k] by (metis (no_types, lifting) image_iff list.set_map)

lemma has_nearby_pair_drop:
  "k < length bs \<Longrightarrow> has_nearby_pair th (drop k bs) \<longleftrightarrow>
     (\<exists>c \<in> set (drop (Suc k) bs). boxes_nearby (bbox (bs ! k)) (bbox c) th) \<or>
     has_nearby_pair th (drop (Suc k) bs)"
  by (simp add: Cons_nth_drop_Suc [symmetric])

lemma merge_outer_char:
  assumes "used \<subseteq> {..<k}" "k \<le> length bs"
  shows "merge_outer th bs [k..<length bs] used =
    (if has_nearby_pair th (drop k bs) then Inl Attribute_error else Inr (drop k bs))"
  using assms
proof (induction "length bs - k" arbitrary: k used)
  case 0
  then show ?case by simp
next
  case (Suc d)
  then have k: "k < length bs" by simp
  have up: "[k..<length bs] = k # [Suc k..<length bs]" using k by (simp add: upt_conv_Cons)
  have ku: "k \<notin> used" using Suc.prems by auto
  let ?js = "filter (\<lambda>j. j \<notin> used \<and> boxes_nearby (bbox (bs ! k)) (bbox (bs ! j)) th) [Suc k..<length bs]"
  have js: "?js = filter (\<lambda>j. boxes_nearby (bbox (bs ! k)) (bbox (bs ! j)) th) [Suc k..<length bs]"
    using Suc.prems(1) by (intro filter_cong) auto
  show ?case
  proof (cases "\<exists>c \<in> set (drop (Suc k) bs). boxes_nearby (bbox (bs ! k)) (bbox c) th")
    case True
    then have "?js \<noteq> []"
      unfolding js using exists_upt_drop [of "Suc k" bs "\<lambda>c. boxes_nearby (bbox (bs ! k)) (bbox c) th"]
      by (auto simp: filter_empty_conv)
    then show ?thesis
      using True ku k by (simp add: up Let_def merge_text_boxes_def has_nearby_pair_drop)
  next
    case False
    then have e: "?js = []"
      unfolding js using exists_upt_drop [of "Suc k" bs "\<lambda>c. boxes_nearby (bbox (bs ! k)) (bbox c) th"]
      by (auto simp: filter_empty_conv)
    have ih: "merge_outer th bs [Suc k..<length bs] (insert k used) =
      (if has_nearby_pair th (drop (Suc k) bs) then Inl Attribute_error else Inr (drop (Suc k) bs))"
    proof -
      have d: "d = length bs - Suc k" using Suc.hyps(2) by arith
      have u: "insert k used \<subseteq> {..<Suc k}" using Suc.prems(1) by auto
      show ?thesis using Suc.hyps(1) [OF d u] k by simp
    qed
    show ?thesis
      using False ku k e ih by (simp add: up Let_def has_nearby_pair_drop Cons_nth_drop_Suc split: sum.splits)
  qed
qed

text \<open>
  C32. \<open>_merge_nearby_boxes\<close> returns the boxes unchanged when no two of them lie within
  the threshold, and otherwise raises \<open>AttributeError\<close>: it never produces a merged box.\<close>

theorem merge_nearby_boxes_char:
  "merge_nearby_boxes th bs = (if has_nearby_pair th bs then Inl Attribute_error else Inr bs)"
  using merge_outer_char [of "{}" 0 bs th] by (simp add: merge_nearby_boxes_def)

text \<open>
  \<open>_merge_nearby_boxes\<close> is idempotent on every list it returns.\<close>

theorem merge_nearby_boxes_idempotent:
  "merge_nearby_boxes th bs = Inr ms \<Longrightarrow> merge_nearby_boxes th ms = Inr ms"
  using merge_outer_char [of "{}" 0 bs th] merge_outer_char [of "{}" 0 ms th]
  by (auto simp: merge_nearby_boxes_def split: if_splits)

text \<open>
  With both engines built and available, \<open>get_ocr_service\<close> picks MangaOCR for
  Japanese and both Chinese scripts and EasyOCR for every other language.\<close>

theorem ocr_service_selection:
  assumes "oenv Easy_ocr = Ctor_ok True" "oenv Manga_ocr = Ctor_ok True"
  shows "fst (get_ocr_service oenv new_ocr_manager (language_value l)) =
         Inr (if l \<in> {Japanese, Sim_chinese, Trad_chinese} then Manga_ocr else Easy_ocr)"
  using assms by (cases l) (simp_all add: get_ocr_service_def ocr_initialize_def new_ocr_manager_def)

subsection \<open>Concrete runs\<close>

theorem merge_nearby_boxes_idempotent_witness:
  "merge_nearby_boxes 20 [mk_text_box ''A'' (mk_bbox 0 0 10 10), mk_text_box ''B'' (mk_bbox 100 0 110 10)] =
     Inr [mk_text_box ''A'' (mk_bbox 0 0 10 10), mk_text_box ''B'' (mk_bbox 100 0 110 10)]"
proof -
  have e: "merge_nearby_boxes 20 [mk_text_box ''A'' (mk_bbox 0 0 10 10), mk_text_box ''B'' (mk_bbox 100 0 110 10)] =
     Inr [mk_text_box ''A'' (mk_bbox 0 0 10 10), mk_text_box ''B'' (mk_bbox 100 0 110 10)]"
    by code_simp
  show ?thesis using merge_nearby_boxes_idempotent [OF e] .
qed

theorem ocr_service_selection_witness:
  "fst (get_ocr_service (\<lambda>k. Ctor_ok True) new_ocr_manager (language_value Japanese)) = Inr Manga_ocr \<and>
   fst (get_ocr_service (\<lambda>k. Ctor_ok True) new_ocr_manager (language_value Korean)) = Inr Easy_ocr"
  using ocr_service_selection [of "\<lambda>k. Ctor_ok True" Japanese] ocr_service_selection [of "\<lambda>k. Ctor_ok True" Korean]
  by simp

end
