(* ===== verification/Http_Layer.thy ===== *)
theory Http_Layer
  imports Manager Ocr
begin

text \<open>
  The HTTP layer around the pipeline: the request dependencies of \<open>routes/dependencies.py\<close>
  (client address, the in-memory rate limiter, API keys, upload size), the request-size
  middleware and the exception handlers of \<open>main.py\<close>, and the health check of
  \<open>routes/routers/health.py\<close>. Settings the code reads under a name \<open>Settings\<close> does not
  define are an \<open>AttributeError\<close>; the readings of \<open>psutil\<close> are an oracle. An exception's
  detail is kept where it is a fixed text; a formatted detail keeps its fixed prefix.
\<close>

subsection \<open>Exceptions and responses\<close>

datatype api_exc =
    Http_exception nat string        \<comment> \<open>\<open>HTTPException(status_code, detail)\<close>\<close>
  | Processing_error string          \<comment> \<open>\<open>ProcessingError\<close> and its subclasses\<close>
  | Request_validation_error         \<comment> \<open>FastAPI's \<open>RequestValidationError\<close>\<close>
  | Attribute_error string           \<comment> \<open>a setting \<open>Settings\<close> does not define\<close>
  | Value_error                      \<comment> \<open>\<open>int(...)\<close> of a string that is not an integer\<close>
  | Other_exception                  \<comment> \<open>any other exception\<close>

datatype json_response = Json_response nat string  \<comment> \<open>status code and the \<open>"error"\<close> field\<close>

text \<open>The four handlers registered on the application, as FastAPI dispatches them.\<close>

fun handle_exception :: "api_exc \<Rightarrow> json_response" where
  "handle_exception (Processing_error d) = Json_response 422 ''processing_error''"
| "handle_exception Request_validation_error = Json_response 422 ''validation_error''"
| "handle_exception (Http_exception c d) = Json_response c ''http_error''"
| "handle_exception _ = Json_response 500 ''internal_server_error''"

subsection \<open>Headers and integers\<close>

text \<open>Starlette keeps header names in lower case and \<open>headers.get(name)\<close> looks the lower-cased
  name up, returning the first value.\<close>

type_synonym headers = "(string \<times> string) list"

definition header_get :: "headers \<Rightarrow> string \<Rightarrow> string option" where
  "header_get hs k = map_of hs (py_lower_str k)"

text \<open>\<open>int(s)\<close> for a string: surrounding whitespace, an optional sign, decimal digits with
  single underscores between them; anything else raises \<open>ValueError\<close>.\<close>

fun py_digit_run :: "string \<Rightarrow> bool" where
  "py_digit_run [] = False"
| "py_digit_run (c # r) =
     (py_isdigit c \<and> (case r of [] \<Rightarrow> True | d # r' \<Rightarrow> if d = CHR ''_'' then py_digit_run r' else py_digit_run r))"

definition py_int :: "string \<Rightarrow> int option" where
  "py_int s =
     (let t = py_strip s;
          (neg, ds) = (case t of c # r \<Rightarrow> if c = CHR ''-'' then (True, r) else if c = CHR ''+'' then (False, r)
                                           else (False, t) | [] \<Rightarrow> (False, []));
          n = int (str_to_nat (filter (\<lambda>c. c \<noteq> CHR ''_'') ds))
      in if py_digit_run ds then Some (if neg then - n else n) else None)"

subsection \<open>Session ids (\<open>get_session_id\<close>)\<close>

text \<open>The \<open>X-Session-ID\<close> header when it is non-empty, else a fresh \<open>str(uuid.uuid4())\<close>,
  given as an argument.\<close>

definition get_session_id :: "headers \<Rightarrow> string \<Rightarrow> string" where
  "get_session_id hs fresh =
     (case header_get hs ''X-Session-ID'' of Some s \<Rightarrow> if s \<noteq> [] then s else fresh | None \<Rightarrow> fresh)"

subsection \<open>Client address (\<open>get_client_ip\<close>)\<close>

definition real_ip_or_host :: "headers \<Rightarrow> string option \<Rightarrow> string" where
  "real_ip_or_host hs client =
     (case header_get hs ''X-Real-IP'' of
        Some r \<Rightarrow> if r \<noteq> [] then r else (case client of Some h \<Rightarrow> h | None \<Rightarrow> ''unknown'')
      | None \<Rightarrow> (case client of Some h \<Rightarrow> h | None \<Rightarrow> ''unknown''))"

definition get_client_ip :: "headers \<Rightarrow> string option \<Rightarrow> string" where
  "get_client_ip hs client =
     (case header_get hs ''X-Forwarded-For'' of
        Some f \<Rightarrow> if f \<noteq> [] then py_strip (hd (py_split_on (CHR '','') f)) else real_ip_or_host hs client
      | None \<Rightarrow> real_ip_or_host hs client)"

subsection \<open>The rate limiter (\<open>rate_limit_dependency\<close>)\<close>

text \<open>\<open>rate_limit_storage\<close>: for each client address the times of its admitted requests.\<close>

type_synonym rl_store = "string \<rightharpoonup> real list"

text \<open>The body after the enabling flag: drop the entries older than the window (the cleaned
  list is stored back before the check), refuse with 429 when the client already has
  \<open>max_requests\<close> entries, else record the request.\<close>

definition rate_limit_check ::
  "nat \<Rightarrow> nat \<Rightarrow> real \<Rightarrow> string \<Rightarrow> rl_store \<Rightarrow> (api_exc + unit) \<times> rl_store" where
  "rate_limit_check max_requests window_minutes now ip st =
     (let window_start = now - real (window_minutes * 60);
          reqs = (case st ip of Some r \<Rightarrow> filter (\<lambda>t. window_start < t) r | None \<Rightarrow> [])
      in if max_requests \<le> length reqs
         then (Inl (Http_exception 429 ''Rate limit exceeded''), st(ip \<mapsto> reqs))
         else (Inr (), st(ip \<mapsto> reqs @ [now])))"

text \<open>\<open>settings.ENABLE_RATE_LIMITING\<close>: \<open>Settings\<close> defines \<open>enable_rate_limiting\<close> only, so the
  attribute the dependency reads does not exist.\<close>

definition settings_ENABLE_RATE_LIMITING :: "bool option" where
  "settings_ENABLE_RATE_LIMITING = None"

definition rate_limit_dependency ::
  "bool option \<Rightarrow> nat \<Rightarrow> nat \<Rightarrow> real \<Rightarrow> headers \<Rightarrow> string option \<Rightarrow> rl_store \<Rightarrow> (api_exc + unit) \<times> rl_store" where
  "rate_limit_dependency enabled max_requests window_minutes now hs client st =
     (case enabled of
        None \<Rightarrow> (Inl (Attribute_error ''ENABLE_RATE_LIMITING''), st)
      | Some False \<Rightarrow> (Inr (), st)
      | Some True \<Rightarrow> rate_limit_check max_requests window_minutes now (get_client_ip hs client) st)"

text \<open>\<open>RateLimiter\<close>: each limiter reads its limits as \<open>settings.TRANSLATION_RATE_LIMIT_REQUESTS\<close>
  and the like, which \<open>Settings\<close> does not define either; the attribute error is raised while
  the arguments are evaluated.\<close>

datatype endpoint_limit = Translation_limit | Preview_limit | Batch_limit

fun limit_setting :: "endpoint_limit \<Rightarrow> string" where
  "limit_setting Translation_limit = ''TRANSLATION_RATE_LIMIT_REQUESTS''"
| "limit_setting Preview_limit = ''PREVIEW_RATE_LIMIT_REQUESTS''"
| "limit_setting Batch_limit = ''BATCH_RATE_LIMIT_REQUESTS''"

definition endpoint_rate_limit :: "endpoint_limit \<Rightarrow> rl_store \<Rightarrow> (api_exc + unit) \<times> rl_store" where
  "endpoint_rate_limit e st = (Inl (Attribute_error (limit_setting e)), st)"

subsection \<open>API keys and upload size\<close>

definition settings_ENABLE_API_KEY_AUTH :: "bool option" where
  "settings_ENABLE_API_KEY_AUTH = None"

definition settings_API_KEYS :: "string list option" where
  "settings_API_KEYS = None"

definition is_valid_api_key :: "string list option \<Rightarrow> string \<Rightarrow> api_exc + bool" where
  "is_valid_api_key keys k =
     (case keys of None \<Rightarrow> Inl (Attribute_error ''API_KEYS'') | Some ks \<Rightarrow> Inr (ks = [] \<or> k \<in> set ks))"

definition validate_api_key ::
  "bool option \<Rightarrow> string list option \<Rightarrow> string option \<Rightarrow> api_exc + string option" where
  "validate_api_key enabled keys creds =
     (case enabled of
        None \<Rightarrow> Inl (Attribute_error ''ENABLE_API_KEY_AUTH'')
      | Some False \<Rightarrow> Inr None
      | Some True \<Rightarrow>
          (case creds of
             None \<Rightarrow> Inl (Http_exception 401 ''API key required'')
           | Some k \<Rightarrow>
               (case is_valid_api_key keys k of
                  Inl e \<Rightarrow> Inl e
                | Inr False \<Rightarrow> Inl (Http_exception 401 ''Invalid API key'')
                | Inr True \<Rightarrow> Inr (Some k))))"

definition validate_file_upload :: "headers \<Rightarrow> int \<Rightarrow> api_exc + unit" where
  "validate_file_upload hs max_file_size =
     (case header_get hs ''content-length'' of
        Some cl \<Rightarrow>
          if cl = [] then Inr ()
          else (case py_int cl of
                  None \<Rightarrow> Inl Value_error
                | Some n \<Rightarrow> if max_file_size < n then Inl (Http_exception 413 ''File too large. Maximum size: '')
                            else Inr ())
      | None \<Rightarrow> Inr ())"

subsection \<open>The request-size middleware (\<open>FileSizeLimitMiddleware.dispatch\<close>)\<close>

text \<open>\<open>Passed\<close>: the request goes on to the application.\<close>

datatype middleware_result = Too_large json_response | Passed

definition file_size_dispatch :: "int \<Rightarrow> string \<Rightarrow> headers \<Rightarrow> api_exc + middleware_result" where
  "file_size_dispatch max_size method hs =
     (if method = ''POST'' then
        (case header_get hs ''content-length'' of
           Some cl \<Rightarrow>
             if cl = [] then Inr Passed
             else (case py_int cl of
                     None \<Rightarrow> Inl Value_error
                   | Some n \<Rightarrow> if max_size < n then Inr (Too_large (Json_response 413 ''file_too_large'')) else Inr Passed)
         | None \<Rightarrow> Inr Passed)
      else Inr Passed)"

definition app_max_size :: int where
  \<comment> \<open>\<open>app.add_middleware(FileSizeLimitMiddleware, max_size=10 * 1024 * 1024)\<close>\<close>
  "app_max_size = 10 * 1024 * 1024"

subsection \<open>The health check (\<open>routes/routers/health.py\<close>)\<close>

text \<open>What \<open>psutil\<close> reports: \<open>None\<close> when it is not installed.\<close>

record sys_readings =
  memory_percent :: real
  disk_percent :: real
  cpu_percent :: real
  memory_available :: real   \<comment> \<open>bytes\<close>
  disk_free :: real          \<comment> \<open>bytes\<close>

text \<open>The thresholds of \<open>HealthSettings\<close>.\<close>

definition max_memory_percent :: real where "max_memory_percent = 90"
definition max_disk_percent :: real where "max_disk_percent = 90"
definition max_cpu_percent :: real where "max_cpu_percent = 90"
definition min_memory_gb :: real where "min_memory_gb = 1"
definition min_disk_gb :: real where "min_disk_gb = 1"

datatype resource_problem = Memory_high | Disk_high | Cpu_high | Memory_low | Disk_low

text \<open>\<open>_check_system_resources\<close>: healthy exactly when no check fails; the message lists the
  failed checks in order (their texts format the readings).\<close>

definition check_system_resources :: "sys_readings option \<Rightarrow> bool \<times> resource_problem list" where
  "check_system_resources rd =
     (case rd of
        None \<Rightarrow> (False, [])
      | Some r \<Rightarrow>
          (let ps = (if max_memory_percent < memory_percent r then [Memory_high] else []) @
                    (if max_disk_percent < disk_percent r then [Disk_high] else []) @
                    (if max_cpu_percent < cpu_percent r then [Cpu_high] else []) @
                    (if memory_available r / 1024 ^ 3 < min_memory_gb then [Memory_low] else []) @
                    (if disk_free r / 1024 ^ 3 < min_disk_gb then [Disk_low] else [])
           in (ps = [], ps)))"

text \<open>\<open>_check_ocr_services\<close> on the \<open>OCRManager()\<close> it constructs: a manager that is never
  initialised has no service.\<close>

definition check_ocr_services :: "ocr_manager \<Rightarrow> bool \<times> string" where
  "check_ocr_services om =
     (if \<not> ocr_is_available om then (False, ''OCR manager not available'')
      else (True, py_join '', '' (map fst (ocr_services om))))"

text \<open>\<open>_check_translation_services\<close> on a fresh \<open>TranslationManager()\<close>, which
  \<open>get_available_services\<close> initialises.\<close>

definition check_translation_services :: "deepl_env \<Rightarrow> bool \<times> string list" where
  "check_translation_services env =
     (case fst (get_available_services env (new_manager None)) of
        Inl _ \<Rightarrow> (False, [])
      | Inr svcs \<Rightarrow> if svcs = [] then (False, []) else (True, svcs))"

datatype health_response = Healthy string "string list"  \<comment> \<open>version, translation services\<close>

definition app_version :: string where "app_version = ''0.0.0''"

definition health_check :: "deepl_env \<Rightarrow> sys_readings option \<Rightarrow> api_exc + health_response" where
  "health_check env rd =
     (let (system_ok, _) = check_system_resources rd;
          (ocr_ok, _) = check_ocr_services new_ocr_manager;
          (trans_ok, trans_info) = check_translation_services env
      in if \<not> (system_ok \<and> ocr_ok \<and> trans_ok) then Inl (Http_exception 500 ''Unhealthy: '')
         else Inr (Healthy app_version trans_info))"


subsection \<open>Reachable states of the rate limiter\<close>

text \<open>The stores the limiter can reach from the empty store, by calls with the same limits at
  any times and addresses.\<close>

inductive rl_reachable :: "nat \<Rightarrow> nat \<Rightarrow> rl_store \<Rightarrow> bool" for max_requests window_minutes where
  rl_init: "rl_reachable max_requests window_minutes Map.empty"
| rl_step: "rl_reachable max_requests window_minutes st \<Longrightarrow>
    rl_reachable max_requests window_minutes (snd (rate_limit_check max_requests window_minutes now ip st))"

section \<open>Properties\<close>

lemma dropWhile_no_match: "\<forall>x \<in> set xs. \<not> P x \<Longrightarrow> dropWhile P xs = xs"
  by (induction xs) auto

lemma py_strip_no_space: "\<forall>c \<in> set s. \<not> py_isspace c \<Longrightarrow> py_strip s = s"
  by (simp add: py_strip_def py_rstrip_def dropWhile_no_match)

lemma py_isdigit_not_space: "py_isdigit c \<Longrightarrow> \<not> py_isspace c"
  by (simp add: py_isdigit_def py_isspace_def Let_def)

lemma py_digit_run_digits: "s \<noteq> [] \<Longrightarrow> \<forall>c \<in> set s. py_isdigit c \<Longrightarrow> py_digit_run s"
proof (induction s rule: py_digit_run.induct)
  case (2 c r)
  have "c \<noteq> CHR ''_''" if "py_isdigit c" for c using that by (auto simp: py_isdigit_def)
  with 2 show ?case by (auto split: list.split)
qed simp

lemma py_int_nat_to_str: "py_int (nat_to_str n) = Some (int n)"
proof -
  let ?s = "nat_to_str n"
  have dig: "\<forall>c \<in> set ?s. py_isdigit c" by (simp add: nat_to_str_digits)
  then have strip: "py_strip ?s = ?s" by (simp add: py_strip_no_space py_isdigit_not_space)
  obtain c r where cr: "?s = c # r" by (cases ?s) auto
  then have "c \<noteq> CHR ''-''" "c \<noteq> CHR ''+''" using dig by (auto simp: py_isdigit_def)
  moreover have "filter (\<lambda>c. c \<noteq> CHR ''_'') ?s = ?s" using dig by (auto simp: filter_id_conv py_isdigit_def)
  moreover have "py_digit_run ?s" using dig by (simp add: py_digit_run_digits)
  moreover have "str_to_nat (c # r) = n" using str_to_nat_nat_to_str [of n] cr by simp
  ultimately show ?thesis using strip cr by (simp add: py_int_def Let_def)
qed

lemma sum_abs_nonneg: "0 \<le> sum_list (map abs (xs :: real list))"
  by (induction xs) simp_all

lemma member_le_sum_abs: "x \<in> set xs \<Longrightarrow> (x::real) \<le> sum_list (map abs xs)"
proof (induction xs)
  case (Cons a xs)
  have "0 \<le> sum_list (map abs xs)" by (rule sum_abs_nonneg)
  with Cons show ?case by (auto intro: add_increasing)
qed simp

lemma rate_limit_check_store:
  obtains reqs where "snd (rate_limit_check mx W now ip st) = st(ip \<mapsto> (if mx \<le> length reqs then reqs else reqs @ [now]))"
    and "case st ip of Some r \<Rightarrow> length reqs \<le> length r | None \<Rightarrow> reqs = []"
proof -
  let ?reqs = "case st ip of Some r \<Rightarrow> filter (\<lambda>t. now - real (W * 60) < t) r | None \<Rightarrow> []"
  have "snd (rate_limit_check mx W now ip st) = st(ip \<mapsto> (if mx \<le> length ?reqs then ?reqs else ?reqs @ [now]))"
    unfolding rate_limit_check_def Let_def by simp
  moreover have "case st ip of Some r \<Rightarrow> length ?reqs \<le> length r | None \<Rightarrow> ?reqs = []"
    by (simp split: option.split)
  ultimately show thesis by (rule that)
qed

text \<open>
  C12. The rate limiter never holds more than \<open>max_requests\<close> request times for an address:
  in every store reachable from the empty one, each address has at most \<open>max_requests\<close>
  entries.\<close>

theorem rate_limit_store_bounded:
  "rl_reachable mx W st \<Longrightarrow> st ip = Some reqs \<Longrightarrow> length reqs \<le> mx"
proof (induction arbitrary: reqs rule: rl_reachable.induct)
  case rl_init
  then show ?case by simp
next
  case (rl_step st now ip')
  obtain rs where st': "snd (rate_limit_check mx W now ip' st) = st(ip' \<mapsto> (if mx \<le> length rs then rs else rs @ [now]))"
    and rs: "case st ip' of Some r \<Rightarrow> length rs \<le> length r | None \<Rightarrow> rs = []"
    by (rule rate_limit_check_store)
  show ?case
  proof (cases "ip = ip'")
    case True
    have "length rs \<le> mx" if "mx \<le> length rs"
    proof (cases "st ip'")
      case (Some r)
      then have "st ip = Some r" using True by simp
      then have "length r \<le> mx" by (rule rl_step.IH)
      then show ?thesis using Some rs by simp
    next
      case None
      then show ?thesis using rs that by simp
    qed
    then show ?thesis using rl_step.prems True st' by (auto split: if_splits)
  next
    case False
    then show ?thesis using rl_step st' by simp
  qed
qed

text \<open>
  C13. A client is never locked out for good: whatever the store and the current time, some
  later time admits its next request (once every stored entry has left the window).\<close>

theorem rate_limit_eventually_admits:
  assumes "0 < mx"
  shows "\<exists>t \<ge> now. fst (rate_limit_check mx W t ip st) = Inr ()"
proof -
  let ?r = "case st ip of Some r \<Rightarrow> r | None \<Rightarrow> []"
  let ?t = "\<bar>now\<bar> + sum_list (map abs ?r) + real (W * 60) + 1"
  have old: "\<not> ?t - real (W * 60) < x" if "x \<in> set ?r" for x
    using member_le_sum_abs [OF that] by (simp add: abs_ge_zero)
  have "filter (\<lambda>x. ?t - real (W * 60) < x) ?r = []" using old by (simp add: filter_empty_conv)
  then have "fst (rate_limit_check mx W ?t ip st) = Inr ()"
    using assms by (cases "st ip") (simp_all add: rate_limit_check_def Let_def)
  moreover have "now \<le> ?t" using sum_abs_nonneg [of ?r] by simp
  ultimately show ?thesis by blast
qed

text \<open>
  C21. The health endpoint always answers 500: \<open>_check_ocr_services\<close> asks a freshly
  constructed \<open>OCRManager\<close>, which is never initialised and so has no service, whatever the
  system readings and translation providers are.\<close>

theorem health_check_always_unhealthy:
  "health_check env rd = Inl (Http_exception 500 ''Unhealthy: '')"
  by (simp add: health_check_def check_ocr_services_def ocr_is_available_def new_ocr_manager_def split: prod.split)

lemma file_size_dispatch_POST:
  "header_get hs ''content-length'' = Some (nat_to_str n) \<Longrightarrow>
   file_size_dispatch mx ''POST'' hs = Inr (if mx < int n then Too_large (Json_response 413 ''file_too_large'') else Passed)"
  by (simp add: file_size_dispatch_def py_int_nat_to_str)

text \<open>
  C25. The request-size middleware parses a decimal \<open>content-length\<close> back to the number it
  prints: a POST whose declared length exceeds 10 MiB is answered 413 before reaching the
  application, and any other POST passes.\<close>

theorem file_size_limit_decimal:
  "header_get hs ''content-length'' = Some (nat_to_str n) \<Longrightarrow>
   file_size_dispatch app_max_size ''POST'' hs =
   Inr (if 10485760 < n then Too_large (Json_response 413 ''file_too_large'') else Passed)"
  by (simp add: file_size_dispatch_POST app_max_size_def)

subsection \<open>Witnesses\<close>

theorem rate_limit_store_bounded_witness:
  "snd (rate_limit_check 2 5 0 ''a'' Map.empty) ''a'' = Some [0] \<and> length [0::real] \<le> 2"
proof -
  have r: "rl_reachable 2 5 (snd (rate_limit_check 2 5 0 ''a'' Map.empty))" by (rule rl_step [OF rl_init])
  have s: "snd (rate_limit_check 2 5 0 ''a'' Map.empty) ''a'' = Some [0]" by (simp add: rate_limit_check_def)
  show ?thesis using rate_limit_store_bounded [OF r s] s by simp
qed

theorem rate_limit_eventually_admits_witness:
  "\<exists>t \<ge> 0. fst (rate_limit_check 1 5 t ''a'' [''a'' \<mapsto> [0, 100]]) = Inr ()"
  by (rule rate_limit_eventually_admits) simp

theorem file_size_limit_decimal_witness:
  "file_size_dispatch app_max_size ''POST'' [(''content-length'', nat_to_str 20000000)] =
   Inr (Too_large (Json_response 413 ''file_too_large''))"
proof -
  have "header_get [(''content-length'', nat_to_str 20000000)] ''content-length'' = Some (nat_to_str 20000000)"
    by (simp add: header_get_def py_lower_str_def py_lower_code py_isupper_code)
  then show ?thesis using file_size_limit_decimal by simp
qed

end
