(* ===== verification/Marker_Packing.thy ===== *)
theory Marker_Packing
  imports Schemas
begin

text \<open>
  The translation stage of \<open>services/orchestrator.py\<close>: the reading-order sort
  (\<open>_sort_text_boxes_reading_order\<close>), the packing of all box texts into one payload with
  positional markers \<open>[i]text[/i]\<close> (\<open>_combine_text_for_context\<close>), the parsing of the
  translated payload with the regular expression \<open>\[(\d+)\](.*?)\[/\1\]\<close>
  (\<open>re.findall\<close>), the assignment back to the boxes (\<open>_distribute_translated_text\<close>,
  \<open>_simple_text_distribution\<close>) and the stage itself (\<open>_translate_text_boxes\<close>), which
  calls the translation manager through a parameter \<open>tr\<close>.

  The boxes are Python objects that the stage mutates through a sorted copy of the list;
  the model keeps the list in detection order and addresses each box by its index there, so
  the sorted order is a list of indices (\<open>reading_order\<close>).
\<close>

subsection \<open>Reading order\<close>

text \<open>
  \<open>get_sort_key\<close>: the branch for Japanese and Chinese reads an attribute \<open>language\<close>
  that \<open>TextBox\<close> does not have (\<open>hasattr\<close> is always false), so the key is always
  \<open>(y1, x1)\<close>.
\<close>

definition get_sort_key :: "text_box \<Rightarrow> int \<times> int" where
  "get_sort_key tb = (y1 (bbox tb), x1 (bbox tb))"

definition sort_text_boxes_reading_order :: "text_box list \<Rightarrow> text_box list" where
  "sort_text_boxes_reading_order bs = sort_key get_sort_key bs"

definition reading_order :: "text_box list \<Rightarrow> nat list" where
  "reading_order bs = sort_key (\<lambda>i. get_sort_key (bs ! i)) [0..<length bs]"

subsection \<open>Packing\<close>

definition open_tag :: "nat \<Rightarrow> string" where
  "open_tag i = ''['' @ nat_to_str i @ '']''"

definition close_tag :: "nat \<Rightarrow> string" where
  "close_tag i = ''[/'' @ nat_to_str i @ '']''"

definition marker :: "nat \<Rightarrow> string \<Rightarrow> string" where
  "marker i t = open_tag i @ t @ close_tag i"

definition combine_text_for_context :: "text_box list \<Rightarrow> string" where
  "combine_text_for_context bs =
     py_join '' ''
       [marker i (box_text b). (i, b) \<leftarrow> enumerate 0 (sort_text_boxes_reading_order bs),
                               \<not> py_blank (box_text b)]"

subsection \<open>The marker pattern \<open>\[(\d+)\](.*?)\[/\1\]\<close> and \<open>re.findall\<close>\<close>

text \<open>
  At a position the pattern matches an opening bracket, the maximal run of digits (a shorter
  run would leave a digit where \<open>]\<close> is required), a closing bracket, and then, since
  \<open>.*?\<close> is lazy and \<open>DOTALL\<close> lets it cross newlines, everything up to the first
  occurrence of the closing tag with the same digits.
\<close>

definition match_open :: "string \<Rightarrow> (string \<times> string) option" where
  "match_open s =
     (case s of
        [] \<Rightarrow> None
      | c # r \<Rightarrow>
          (if c = CHR ''[''
           then (let ds = takeWhile py_isdigit r; r' = dropWhile py_isdigit r in
                 if ds \<noteq> [] \<and> r' \<noteq> [] \<and> hd r' = CHR '']'' then Some (ds, tl r') else None)
           else None))"

fun find_sub :: "string \<Rightarrow> string \<Rightarrow> nat option" where
  "find_sub p [] = (if p = [] then Some 0 else None)"
| "find_sub p (c # s) =
     (if take (length p) (c # s) = p then Some 0 else map_option Suc (find_sub p s))"

definition match_at :: "string \<Rightarrow> (string \<times> string \<times> string) option" where
  "match_at s =
     (case match_open s of
        None \<Rightarrow> None
      | Some (ds, r) \<Rightarrow>
          (let cl = ''[/'' @ ds @ '']'' in
           case find_sub cl r of
             None \<Rightarrow> None
           | Some k \<Rightarrow> Some (ds, take k r, drop (k + length cl) r)))"

text \<open>\<open>re.findall\<close>: scan from the left; after a match continue behind it, else one character on.\<close>

function find_markers :: "string \<Rightarrow> (string \<times> string) list" where
  "find_markers [] = []"
| "find_markers (c # cs) =
     (case match_at (c # cs) of
        Some (ds, body, rest) \<Rightarrow> (ds, body) # find_markers rest
      | None \<Rightarrow> find_markers cs)"
  by pat_completeness auto
termination
proof (relation "measure length")
  fix c cs m ds r body rest
  assume "match_at (c # cs) = Some m" "(ds, r) = m" "(body, rest) = r"
  then obtain k where "rest = drop k (tl (dropWhile py_isdigit cs))"
    by (auto simp: match_at_def match_open_def Let_def split: option.splits if_splits)
  moreover have "length (dropWhile py_isdigit cs) \<le> length cs"
    by (rule length_dropWhile_le)
  ultimately show "(rest, c # cs) \<in> measure length" by auto
qed auto

subsection \<open>Distribution\<close>

text \<open>\<open>{int(idx): text.strip() for idx, text in matches}\<close>: a later duplicate index wins.\<close>

definition translations_map :: "(string \<times> string) list \<Rightarrow> nat \<Rightarrow> string option" where
  "translations_map ms = fold (\<lambda>(idx, t) m. m(str_to_nat idx \<mapsto> py_strip t)) ms Map.empty"

definition assign_one :: "(nat \<Rightarrow> string option) \<Rightarrow> nat \<Rightarrow> text_box \<Rightarrow> text_box" where
  "assign_one tr i b =
     (case tr i of
        Some t \<Rightarrow> (if t \<noteq> [] then b\<lparr>translated_text := t\<rparr> else b\<lparr>translated_text := box_text b\<rparr>)
      | None \<Rightarrow> b\<lparr>translated_text := box_text b\<rparr>)"

text \<open>The loop over the sorted boxes, writing through to the box objects.\<close>

definition assign_translations ::
  "(nat \<Rightarrow> string option) \<Rightarrow> nat list \<Rightarrow> text_box list \<Rightarrow> text_box list" where
  "assign_translations tr ord bs =
     fold (\<lambda>(i, j) bs'. bs'[j := assign_one tr i (bs' ! j)]) (enumerate 0 ord) bs"

datatype dist_error = TypeError | AttributeError

text \<open>
  The payload is \<open>Optional[str]\<close>: \<open>re.findall\<close> on \<open>None\<close> raises TypeError, and
  \<open>None.split\<close> in the fallback raises AttributeError.
\<close>

definition distribute_markers :: "text_box list \<Rightarrow> string option \<Rightarrow> dist_error + text_box list" where
  "distribute_markers bs r =
     (case r of
        None \<Rightarrow> Inl TypeError
      | Some s \<Rightarrow> Inr (assign_translations (translations_map (find_markers s)) (reading_order bs) bs))"

definition simple_text_distribution ::
  "text_box list \<Rightarrow> string option \<Rightarrow> dist_error + text_box list" where
  "simple_text_distribution bs r =
     (case r of
        None \<Rightarrow> Inl AttributeError
      | Some s \<Rightarrow>
          (let sentences = [py_strip x @ ''.''. x \<leftarrow> py_split_on CHR ''.'' s, \<not> py_blank x] in
           Inr (map (\<lambda>(i, b). if i < length sentences
                             then b\<lparr>translated_text := py_strip_char CHR ''.'' (sentences ! i)\<rparr>
                             else b\<lparr>translated_text := box_text b\<rparr>)
                    (enumerate 0 bs))))"

definition distribute_translated_text ::
  "text_box list \<Rightarrow> string option \<Rightarrow> dist_error + text_box list" where
  "distribute_translated_text bs r =
     (case distribute_markers bs r of
        Inr bs' \<Rightarrow> Inr bs'
      | Inl _ \<Rightarrow> simple_text_distribution bs r)"

subsection \<open>The translation stage\<close>

text \<open>The \<open>except\<close> branch: every box whose translation is the empty string keeps its text.\<close>

definition keep_original_text :: "text_box list \<Rightarrow> text_box list" where
  "keep_original_text bs =
     map (\<lambda>b. if translated_text b = [] then b\<lparr>translated_text := box_text b\<rparr> else b) bs"

definition translate_text_boxes ::
  "('s \<Rightarrow> string \<Rightarrow> ('e + string option) \<times> 's) \<Rightarrow> 's \<Rightarrow> text_box list \<Rightarrow> text_box list \<times> 's" where
  "translate_text_boxes tr st bs =
     (let (r, st') = tr st (combine_text_for_context bs) in
      case r of
        Inl _ \<Rightarrow> (keep_original_text bs, st')
      | Inr res \<Rightarrow>
          (case distribute_translated_text bs res of
             Inr bs' \<Rightarrow> (bs', st')
           | Inl _ \<Rightarrow> (keep_original_text bs, st')))"

text \<open>
  The reading positions whose box text is not blank: exactly the positions that
  \<open>_combine_text_for_context\<close> packs.
\<close>

definition packed_positions :: "text_box list \<Rightarrow> nat list" where
  "packed_positions bs =
     filter (\<lambda>i. \<not> py_blank (box_text (bs ! (reading_order bs ! i)))) [0..<length bs]"

subsection \<open>Reading order lemmas\<close>

lemma reading_order_distinct [simp]: "distinct (reading_order bs)"
  by (simp add: reading_order_def)

lemma reading_order_set [simp]: "set (reading_order bs) = {..<length bs}"
  by (auto simp: reading_order_def)

lemma reading_order_length [simp]: "length (reading_order bs) = length bs"
  by (simp add: reading_order_def)

lemma reading_order_nth_less: "i < length bs \<Longrightarrow> reading_order bs ! i < length bs"
  using nth_mem [of i "reading_order bs"] by simp

lemma reading_order_boxes: "map (nth bs) (reading_order bs) = sort_text_boxes_reading_order bs"
proof -
  have "map (nth bs) (reading_order bs) = sort_key get_sort_key (map (nth bs) [0..<length bs])"
    unfolding reading_order_def by (rule map_sort_key_comp)
  then show ?thesis by (simp add: sort_text_boxes_reading_order_def map_nth)
qed

subsection \<open>Parsing lemmas\<close>

lemma digits_tag:
  shows "takeWhile py_isdigit (nat_to_str i @ CHR '']'' # r) = nat_to_str i"
    and "dropWhile py_isdigit (nat_to_str i @ CHR '']'' # r) = CHR '']'' # r"
proof -
  have d: "\<And>c. c \<in> set (nat_to_str i) \<Longrightarrow> py_isdigit c"
    by (rule nat_to_str_digits)
  have b: "\<not> py_isdigit CHR '']''"
    by (simp add: py_isdigit_def)
  show "takeWhile py_isdigit (nat_to_str i @ CHR '']'' # r) = nat_to_str i"
    using d b by (simp add: takeWhile_append2)
  show "dropWhile py_isdigit (nat_to_str i @ CHR '']'' # r) = CHR '']'' # r"
    using d b by (simp add: dropWhile_append2)
qed

lemma match_open_tag: "match_open (open_tag i @ r) = Some (nat_to_str i, r)"
proof -
  have "open_tag i @ r = CHR ''['' # (nat_to_str i @ CHR '']'' # r)"
    by (simp add: open_tag_def)
  moreover have "\<not> py_isdigit CHR '']''"
    by (simp add: py_isdigit_def)
  ultimately show ?thesis by (simp add: match_open_def digits_tag Let_def)
qed

lemma find_sub_bracket_free:
  assumes "CHR ''['' \<notin> set t" and "p \<noteq> []" and "hd p = CHR ''[''"
  shows "find_sub p (t @ p @ r) = Some (length t)"
  using assms(1)
proof (induction t)
  case Nil
  from assms(2) obtain c q where "p = c # q" by (cases p) auto
  then show ?case by simp
next
  case (Cons c t)
  from assms(2) obtain q where p: "p = CHR ''['' # q" using assms(3) by (cases p) auto
  with Cons show ?case by auto
qed

lemma match_at_marker:
  assumes "CHR ''['' \<notin> set t"
  shows "match_at (marker i t @ r) = Some (nat_to_str i, t, r)"
proof -
  have m: "marker i t @ r = open_tag i @ (t @ close_tag i @ r)"
    by (simp add: marker_def)
  have "find_sub (close_tag i) (t @ close_tag i @ r) = Some (length t)"
    using assms by (rule find_sub_bracket_free) (simp_all add: close_tag_def)
  moreover have "CHR ''['' # CHR ''/'' # nat_to_str i @ '']'' = close_tag i"
    by (simp add: close_tag_def)
  ultimately show ?thesis
    by (simp add: m match_at_def match_open_tag Let_def)
qed

lemma find_markers_marker:
  "CHR ''['' \<notin> set t \<Longrightarrow> find_markers (marker i t @ r) = (nat_to_str i, t) # find_markers r"
proof -
  assume t: "CHR ''['' \<notin> set t"
  obtain c cs where "marker i t @ r = c # cs"
    by (simp add: marker_def open_tag_def)
  moreover have "match_at (marker i t @ r) = Some (nat_to_str i, t, r)"
    using t by (rule match_at_marker)
  ultimately show ?thesis by simp
qed

lemma match_at_not_bracket: "hd s \<noteq> CHR ''['' \<Longrightarrow> match_at s = None"
  by (cases s) (simp_all add: match_at_def match_open_def)

lemma find_markers_space: "find_markers (CHR '' '' # s) = find_markers s"
  by (simp add: match_at_not_bracket)

lemma find_markers_no_bracket: "CHR ''['' \<notin> set s \<Longrightarrow> find_markers s = []"
  by (induction s rule: find_markers.induct) (auto simp: match_at_not_bracket)

lemma translations_map_fold:
  "fold (\<lambda>(idx, t) m. m(str_to_nat idx \<mapsto> py_strip t)) ms m0 =
   m0 ++ map_of (rev (map (\<lambda>(d, t). (str_to_nat d, py_strip t)) ms))"
  by (induction ms arbitrary: m0) (auto simp: map_add_upd_left)

lemma translations_map_conv:
  "translations_map ms = map_of (rev (map (\<lambda>(d, t). (str_to_nat d, py_strip t)) ms))"
  by (simp add: translations_map_def translations_map_fold)

lemma combine_filter_map:
  "concat (map (\<lambda>i. if P i then [f i] else []) xs) = map f (filter P xs)"
  by (induction xs) auto

lemma combine_text_for_context_conv:
  "combine_text_for_context bs =
     py_join '' '' (map (\<lambda>i. marker i (box_text (bs ! (reading_order bs ! i)))) (packed_positions bs))"
proof -
  have "enumerate 0 (sort_text_boxes_reading_order bs) =
        map (\<lambda>i. (i, bs ! (reading_order bs ! i))) [0..<length bs]"
    by (simp add: reading_order_boxes[symmetric] enumerate_conv_map)
  then show ?thesis
    by (simp add: combine_text_for_context_def packed_positions_def comp_def
                  combine_filter_map[symmetric])
qed

subsection \<open>Assignment lemmas\<close>

lemma zip_swap: "map (\<lambda>(i, j). (j, i)) (zip xs ys) = zip ys xs"
  by (induction xs arbitrary: ys) (auto simp: zip_Cons1 split: list.splits)

lemma assign_translations_length [simp]:
  "length (assign_translations tr ord bs) = length bs"
  by (simp add: assign_translations_def fold_update_nth_length)

lemma assign_translations_nth:
  assumes "distinct ord" and "j < length bs"
  shows "assign_translations tr ord bs ! j =
         (case map_of (zip ord [0..<length ord]) j of
            Some i \<Rightarrow> assign_one tr i (bs ! j)
          | None \<Rightarrow> bs ! j)"
proof -
  have "map (\<lambda>(i, j). (j, i)) (enumerate 0 ord) = zip ord [0..<length ord]"
    by (simp add: enumerate_eq_zip zip_swap)
  moreover have "distinct (map snd (enumerate 0 ord))"
    using assms(1) by (simp add: enumerate_eq_zip)
  ultimately show ?thesis
    using assms(2) by (simp add: assign_translations_def fold_update_nth)
qed

lemma assign_translations_at:
  assumes "distinct ord" and "set ord \<subseteq> {..<length bs}" and "i < length ord"
  shows "assign_translations tr ord bs ! (ord ! i) = assign_one tr i (bs ! (ord ! i))"
proof -
  have "ord ! i < length bs" using assms(2,3) nth_mem by fastforce
  moreover have "map_of (zip ord [0..<length ord]) (ord ! i) = Some i"
    using map_of_zip_nth [of ord "[0..<length ord]" i] assms(1,3) by simp
  ultimately show ?thesis using assms(1) by (simp add: assign_translations_nth)
qed

lemma assign_one_frame [simp]:
  "box_text (assign_one tr i b) = box_text b" "bbox (assign_one tr i b) = bbox b"
  by (simp_all add: assign_one_def split: option.splits)

lemma keep_original_text_frame:
  "length (keep_original_text bs) = length bs"
  "j < length bs \<Longrightarrow> box_text (keep_original_text bs ! j) = box_text (bs ! j)"
  "j < length bs \<Longrightarrow> bbox (keep_original_text bs ! j) = bbox (bs ! j)"
  by (simp_all add: keep_original_text_def)

lemma distribute_translated_text_Some:
  "distribute_translated_text bs (Some s) =
     Inr (assign_translations (translations_map (find_markers s)) (reading_order bs) bs)"
  by (simp add: distribute_translated_text_def distribute_markers_def)

lemma distribute_translated_text_None:
  "distribute_translated_text bs None = Inl AttributeError"
  by (simp add: distribute_translated_text_def distribute_markers_def simple_text_distribution_def)

lemma assign_translations_empty:
  "assign_translations Map.empty (reading_order bs) bs = map (\<lambda>b. b\<lparr>translated_text := box_text b\<rparr>) bs"
proof (rule nth_equalityI)
  fix j assume "j < length (assign_translations Map.empty (reading_order bs) bs)"
  then show "assign_translations Map.empty (reading_order bs) bs ! j =
             map (\<lambda>b. b\<lparr>translated_text := box_text b\<rparr>) bs ! j"
    by (auto simp: assign_translations_nth assign_one_def split: option.splits)
qed simp

lemma translate_text_boxes_cases:
  obtains (fallback) "fst (translate_text_boxes tr st bs) = keep_original_text bs"
  | (markers) s where "fst (translate_text_boxes tr st bs) =
       assign_translations (translations_map (find_markers s)) (reading_order bs) bs"
proof -
  obtain r st' where tr: "tr st (combine_text_for_context bs) = (r, st')"
    by (cases "tr st (combine_text_for_context bs)")
  show thesis
  proof (cases r)
    case Inl
    then show thesis using fallback tr by (simp add: translate_text_boxes_def)
  next
    case (Inr res)
    show thesis
    proof (cases res)
      case None
      then show thesis using fallback tr Inr
        by (simp add: translate_text_boxes_def distribute_translated_text_None)
    next
      case (Some s)
      then show thesis using markers tr Inr
        by (simp add: translate_text_boxes_def distribute_translated_text_Some)
    qed
  qed
qed

lemma assign_reading_order_frame:
  assumes "j < length bs"
  shows "box_text (assign_translations tr (reading_order bs) bs ! j) = box_text (bs ! j)"
    and "bbox (assign_translations tr (reading_order bs) bs ! j) = bbox (bs ! j)"
  using assms by (simp_all add: assign_translations_nth split: option.splits)

lemma translations_map_stripped:
  "translations_map ms k = Some v \<Longrightarrow> \<exists>u. v = py_strip u"
  by (auto simp: translations_map_conv dest!: map_of_SomeD)

lemma translations_map_markers:
  assumes "distinct is"
  shows "translations_map (map (\<lambda>i. (nat_to_str i, f i)) is) =
         (Some \<circ> (\<lambda>k. py_strip (f k))) |` set is"
proof -
  have eq: "map (\<lambda>(d, t). (str_to_nat d, py_strip t)) (map (\<lambda>i. (nat_to_str i, f i)) is) =
        map (\<lambda>k. (k, py_strip (f k))) is"
    by simp
  have d: "distinct (map fst (map (\<lambda>k. (k, py_strip (f k))) is))"
    using assms by (simp add: comp_def)
  show ?thesis
    unfolding translations_map_conv eq map_of_rev_distinct [OF d] by (rule map_of_map_restrict)
qed

lemma reading_order_covers:
  "j < length bs \<Longrightarrow> map_of (zip (reading_order bs) [0..<length bs]) j \<noteq> None"
  by simp

subsection \<open>Properties of the stage\<close>

text \<open>
  C10. Marker round trip: when the provider echoes the markers and the texts inside them
  contain no opening square bracket, \<open>re.findall\<close> on the joined payload
  \<open>[i]t[/i] [j]u[/j] ...\<close> returns exactly the index strings and texts that were packed, in
  order (the spec's \<open>[0]A[/0] [1]B[/1]\<close> example, with letters standing for kana).
\<close>

theorem find_markers_roundtrip:
  "(\<forall>(i, t) \<in> set xs. CHR ''['' \<notin> set t) \<Longrightarrow>
   find_markers (py_join '' '' (map (\<lambda>(i, t). marker i t) xs)) = map (\<lambda>(i, t). (nat_to_str i, t)) xs"
proof (induction xs)
  case Nil
  then show ?case by simp
next
  case (Cons x xs)
  obtain i t where x: "x = (i, t)" by (cases x)
  with Cons.prems have t: "CHR ''['' \<notin> set t" by auto
  show ?case
  proof (cases xs)
    case Nil
    with x t show ?thesis using find_markers_marker [OF t, of i "[]"] by simp
  next
    case (Cons y ys)
    then have "py_join '' '' (map (\<lambda>(i, t). marker i t) (x # xs)) =
               marker i t @ CHR '' '' # py_join '' '' (map (\<lambda>(i, t). marker i t) xs)"
      by (simp add: x)
    moreover have "find_markers (marker i t @ CHR '' '' # py_join '' '' (map (\<lambda>(i, t). marker i t) xs)) =
        (nat_to_str i, t) # find_markers (py_join '' '' (map (\<lambda>(i, t). marker i t) xs))"
      by (simp only: find_markers_marker[OF t] find_markers_space)
    ultimately show ?thesis
      using Cons.IH Cons.prems x by simp
  qed
qed

theorem find_markers_roundtrip_witness:
  "find_markers (py_join '' '' (map (\<lambda>(i, t). marker i t) [(0::nat, [CHR 0xC1]), (1, [CHR 0xC2])])) =
     [(''0'', [CHR 0xC1]), (''1'', [CHR 0xC2])]"
proof -
  have h: "\<forall>(i, t) \<in> set [(0::nat, [CHR 0xC1]), (1, [CHR 0xC2])]. CHR ''['' \<notin> set t"
    by simp
  show ?thesis
    using find_markers_roundtrip [OF h] by (simp add: nat_to_str.simps digit_char_def)
qed

text \<open>
  C9. The translation stage assigns each box its own translation: if the translation
  manager answers the packed payload with the same markers around translations \<open>f i\<close>
  free of square brackets, the box at reading position \<open>i\<close> gets \<open>f i\<close> stripped,
  unless its own text or \<open>f i\<close> is blank, in which case it gets its original text.
\<close>

theorem translate_text_boxes_echo:
  assumes resp: "tr st (combine_text_for_context bs) =
      (Inr (Some (py_join '' '' (map (\<lambda>i. marker i (f i)) (packed_positions bs)))), st')"
    and nobr: "\<forall>i \<in> set (packed_positions bs). CHR ''['' \<notin> set (f i)"
    and i: "i < length bs"
  shows "translated_text (fst (translate_text_boxes tr st bs) ! (reading_order bs ! i)) =
         (if \<not> py_blank (box_text (bs ! (reading_order bs ! i))) \<and> \<not> py_blank (f i)
          then py_strip (f i) else box_text (bs ! (reading_order bs ! i)))"
proof -
  let ?P = "packed_positions bs"
  let ?ord = "reading_order bs"
  have "find_markers (py_join '' '' (map (\<lambda>(i, t). marker i t) (map (\<lambda>i. (i, f i)) ?P))) =
        map (\<lambda>(i, t). (nat_to_str i, t)) (map (\<lambda>i. (i, f i)) ?P)"
    using nobr by (intro find_markers_roundtrip) auto
  then have fm: "find_markers (py_join '' '' (map (\<lambda>i. marker i (f i)) ?P)) =
                 map (\<lambda>i. (nat_to_str i, f i)) ?P"
    by (simp add: comp_def)
  have dP: "distinct ?P" by (simp add: packed_positions_def)
  have stage: "fst (translate_text_boxes tr st bs) =
      assign_translations ((Some \<circ> (\<lambda>k. py_strip (f k))) |` set ?P) ?ord bs"
    using resp fm translations_map_markers [OF dP, of f]
    by (simp add: translate_text_boxes_def distribute_translated_text_Some)
  have mem: "i \<in> set ?P \<longleftrightarrow> \<not> py_blank (box_text (bs ! (?ord ! i)))"
    using i by (simp add: packed_positions_def)
  show ?thesis
    using i mem by (simp add: stage assign_translations_at assign_one_def py_blank_iff_strip
                              restrict_map_def)
qed

theorem translate_text_boxes_echo_witness:
  "translated_text (fst (translate_text_boxes
      (\<lambda>(u::unit) s. (Inr (Some ''[0]xy[/0] [1]zw[/1]'') :: unit + string option, u)) ()
      [mk_text_box ''B'' (mk_bbox 20 0 30 10), mk_text_box ''A'' (mk_bbox 0 0 10 10)]) ! 1) = ''xy''"
proof -
  let ?bs = "[mk_text_box ''B'' (mk_bbox 20 0 30 10), mk_text_box ''A'' (mk_bbox 0 0 10 10)]"
  let ?f = "\<lambda>i::nat. if i = 0 then ''xy'' else ''zw''"
  let ?tr = "\<lambda>(u::unit) s. (Inr (Some ''[0]xy[/0] [1]zw[/1]'') :: unit + string option, u)"
  have ord: "reading_order ?bs = [1, 0]"
    by (simp add: reading_order_def get_sort_key_def mk_text_box_def mk_bbox_def)
  have pp: "packed_positions ?bs = [0, 1]"
    unfolding packed_positions_def ord
    by (simp add: mk_text_box_def py_blank_def py_isspace_def upt_rec)
  have resp: "?tr () (combine_text_for_context ?bs) =
      (Inr (Some (py_join '' '' (map (\<lambda>i. marker i (?f i)) (packed_positions ?bs)))), ())"
    by (simp add: pp marker_def open_tag_def close_tag_def nat_to_str.simps digit_char_def)
  have nb: "\<forall>i \<in> set (packed_positions ?bs). CHR ''['' \<notin> set (?f i)"
    by (simp add: pp)
  have "translated_text (fst (translate_text_boxes ?tr () ?bs) ! (reading_order ?bs ! 0)) =
        (if \<not> py_blank (box_text (?bs ! (reading_order ?bs ! 0))) \<and> \<not> py_blank (?f 0)
         then py_strip (?f 0) else box_text (?bs ! (reading_order ?bs ! 0)))"
    by (rule translate_text_boxes_echo [where tr = ?tr and st = "()" and bs = ?bs and f = ?f
                                        and st' = "()", OF resp nb]) simp
  then show ?thesis
    unfolding ord by (simp add: mk_text_box_def py_blank_def py_isspace_def py_strip_def py_rstrip_def)
qed

text \<open>
  The translation stage changes only the translated texts: on every path it keeps the
  number of boxes and each box's original text and rectangle.
\<close>

theorem translate_text_boxes_frame:
  "length (fst (translate_text_boxes tr st bs)) = length bs \<and>
   (\<forall>j < length bs. box_text (fst (translate_text_boxes tr st bs) ! j) = box_text (bs ! j) \<and>
                    bbox (fst (translate_text_boxes tr st bs) ! j) = bbox (bs ! j))"
  by (cases rule: translate_text_boxes_cases [of tr st bs])
     (simp_all add: keep_original_text_frame assign_reading_order_frame)


theorem translate_text_boxes_frame_witness:
  "length (fst (translate_text_boxes (\<lambda>(u::unit) s. (Inr None :: unit + string option, u)) ()
      [mk_text_box ''A'' (mk_bbox 0 0 10 10)])) = 1 \<and>
   box_text (fst (translate_text_boxes (\<lambda>(u::unit) s. (Inr None :: unit + string option, u)) ()
      [mk_text_box ''A'' (mk_bbox 0 0 10 10)]) ! 0) = ''A''"
  using translate_text_boxes_frame [of "\<lambda>(u::unit) s. (Inr None :: unit + string option, u)" "()"
                                      "[mk_text_box ''A'' (mk_bbox 0 0 10 10)]"]
  by (simp add: mk_text_box_def)

text \<open>
  C27. No box is left untranslated silently: starting from boxes with empty translations (as
  OCR creates them), after the stage every box holds a non-blank translation or its original
  text, whatever the manager answers (an error, \<open>None\<close>, or any string).
\<close>

theorem translate_text_boxes_assigns:
  assumes fresh: "\<forall>b \<in> set bs. translated_text b = []"
  shows "\<forall>b \<in> set (fst (translate_text_boxes tr st bs)).
           translated_text b = box_text b \<or> \<not> py_blank (translated_text b)"
proof (cases rule: translate_text_boxes_cases [of tr st bs])
  case fallback
  with fresh show ?thesis by (auto simp: keep_original_text_def)
next
  case (markers s)
  let ?tm = "translations_map (find_markers s)"
  have "translated_text (assign_one ?tm i b) = box_text b \<or>
        \<not> py_blank (translated_text (assign_one ?tm i b))" for i b
    by (auto simp: assign_one_def split: option.splits
             dest!: translations_map_stripped dest: py_strip_nonempty_not_blank)
  then have at: "translated_text (fst (translate_text_boxes tr st bs) ! j) =
               box_text (fst (translate_text_boxes tr st bs) ! j) \<or>
             \<not> py_blank (translated_text (fst (translate_text_boxes tr st bs) ! j))"
    if "j < length bs" for j
    using that markers by (auto simp: assign_translations_nth split: option.splits)
  show ?thesis
  proof
    fix b
    assume "b \<in> set (fst (translate_text_boxes tr st bs))"
    then obtain j where "j < length bs" and "b = fst (translate_text_boxes tr st bs) ! j"
      using markers by (auto simp: in_set_conv_nth)
    with at show "translated_text b = box_text b \<or> \<not> py_blank (translated_text b)"
      by blast
  qed
qed

theorem translate_text_boxes_assigns_witness:
  "translated_text (fst (translate_text_boxes (\<lambda>(u::unit) s. (Inr None :: unit + string option, u)) ()
      [mk_text_box ''A'' (mk_bbox 0 0 10 10)]) ! 0) = ''A''"
proof -
  have h: "\<forall>b \<in> set [mk_text_box ''A'' (mk_bbox 0 0 10 10)]. translated_text b = []"
    by (simp add: mk_text_box_def)
  have "\<forall>b \<in> set (fst (translate_text_boxes (\<lambda>(u::unit) s. (Inr None :: unit + string option, u)) ()
        [mk_text_box ''A'' (mk_bbox 0 0 10 10)])).
      translated_text b = box_text b \<or> \<not> py_blank (translated_text b)"
    by (rule translate_text_boxes_assigns [OF h])
  then show ?thesis
    by (simp add: translate_text_boxes_def distribute_translated_text_None keep_original_text_def
                  mk_text_box_def py_blank_def py_isspace_def)
qed

text \<open>
  C36. A payload from which the provider stripped the markers is not split into sentences:
  \<open>re.findall\<close> finds nothing, so every box gets its original text; the sentence
  fallback \<open>_simple_text_distribution\<close> is reached only when the payload is \<open>None\<close>,
  and then it raises AttributeError itself.
\<close>

theorem distribute_without_markers:
  "CHR ''['' \<notin> set s \<Longrightarrow>
   distribute_translated_text bs (Some s) = Inr (map (\<lambda>b. b\<lparr>translated_text := box_text b\<rparr>) bs)"
proof -
  assume s: "CHR ''['' \<notin> set s"
  then show ?thesis
    by (simp add: distribute_translated_text_Some find_markers_no_bracket translations_map_def
        assign_translations_empty)
qed

theorem distribute_without_markers_witness:
  "distribute_translated_text [mk_text_box ''A'' (mk_bbox 0 0 10 10)] (Some ''Hello.'') =
     Inr [\<lparr>box_text = ''A'', bbox = mk_bbox 0 0 10 10, translated_text = ''A''\<rparr>]"
proof -
  have h: "CHR ''['' \<notin> set ''Hello.''" by simp
  show ?thesis using distribute_without_markers [OF h] by (simp add: mk_text_box_def)
qed

end
