(* ===== verification/Orchestrator.thy ===== *)
theory Orchestrator
  imports Marker_Packing Manager Ocr
begin

text \<open>
  \<open>services/orchestrator.py\<close>: \<open>TranslationOrchestrator.process_manga_translation\<close>, the
  four-stage pipeline over one image. OCR goes through the \<open>OCRManager\<close> of \<open>Ocr\<close>, the
  translation stage is \<open>translate_text_boxes\<close> of \<open>Marker_Packing\<close> with the
  \<open>TranslationManager\<close> of \<open>Manager\<close> as its translation function, and inpainting and
  rendering are per-box oracles over an abstract image type. The status callback is modelled
  by the list of stages it receives.
\<close>

subsection \<open>Requests, state and collaborators\<close>

record translation_request =
  source_language :: language
  target_language :: language

text \<open>The state the orchestrator object keeps from one request to the next: its two managers
  (with the provider flags inside) and the wall clock.\<close>

record pipeline_state =
  ocr_mgr :: ocr_manager
  trans_mgr :: manager
  clock :: real

datatype pipeline_error =
    Text_extraction_failed ocr_error   \<comment> \<open>\<open>ProcessingError\<close> raised by \<open>_extract_text\<close>\<close>
  | No_text_found                      \<comment> \<open>\<open>ProcessingError("No text found in image.")\<close>\<close>

text \<open>\<open>inpainter.inpaint_textbox\<close> and \<open>text_renderer.render_text\<close> on one box: the new image,
  or \<open>None\<close> when they raise.\<close>

type_synonym 'img inpainter = "'img \<Rightarrow> text_box \<Rightarrow> 'img option"
type_synonym 'img renderer = "'img \<Rightarrow> text_box \<Rightarrow> language \<Rightarrow> 'img option"

subsection \<open>The stages\<close>

definition extract_text_stage ::
  "ocr_env \<Rightarrow> ocr_engine \<Rightarrow> ocr_manager \<Rightarrow> language \<Rightarrow> (ocr_error + text_box list) \<times> ocr_manager" where
  \<comment> \<open>\<open>_extract_text\<close>: \<open>get_ocr_service(language)\<close> then \<open>extract_text\<close>\<close>
  "extract_text_stage env eng om l =
     (case get_ocr_service env om (language_value l) of
        (Inl e, om') \<Rightarrow> (Inl e, om')
      | (Inr k, om') \<Rightarrow> (extract_text eng k (language_value l), om'))"

text \<open>The translation function handed to the translation stage:
  \<open>translation_manager.translate(text=combined, from_lang=..., to_lang=...)\<close>.\<close>

definition manager_tr ::
  "deepl_env \<Rightarrow> api \<Rightarrow> string \<Rightarrow> string \<Rightarrow> manager \<times> real \<Rightarrow> string \<Rightarrow>
   (manager_error + string option) \<times> manager \<times> real" where
  "manager_tr env api f t st s = manager_translate env api (fst st) (snd st) s f t"

fun inpaint_loop :: "'img inpainter \<Rightarrow> 'img \<Rightarrow> text_box list \<Rightarrow> 'img option" where
  "inpaint_loop inp img [] = Some img"
| "inpaint_loop inp img (b # bs) = (case inp img b of None \<Rightarrow> None | Some img' \<Rightarrow> inpaint_loop inp img' bs)"

definition inpaint_text_regions :: "'img inpainter \<Rightarrow> 'img \<Rightarrow> text_box list \<Rightarrow> 'img" where
  \<comment> \<open>any exception returns the image as it came in\<close>
  "inpaint_text_regions inp img bs = (case inpaint_loop inp img bs of Some r \<Rightarrow> r | None \<Rightarrow> img)"

fun render_loop :: "'img renderer \<Rightarrow> language \<Rightarrow> 'img \<Rightarrow> text_box list \<Rightarrow> 'img option" where
  "render_loop rnd l img [] = Some img"
| "render_loop rnd l img (b # bs) =
     (if py_blank (translated_text b) then render_loop rnd l img bs
      else (case rnd img b l of None \<Rightarrow> None | Some img' \<Rightarrow> render_loop rnd l img' bs))"

definition render_translated_text :: "'img renderer \<Rightarrow> 'img \<Rightarrow> text_box list \<Rightarrow> language \<Rightarrow> 'img" where
  "render_translated_text rnd img bs l = (case render_loop rnd l img bs of Some r \<Rightarrow> r | None \<Rightarrow> img)"

definition emit :: "bool \<Rightarrow> processing_stage \<Rightarrow> processing_stage list \<Rightarrow> processing_stage list" where
  \<comment> \<open>\<open>if status_callback: status_callback(ProcessingStatus(stage=...))\<close>\<close>
  "emit cb s evs = (if cb then evs @ [s] else evs)"

definition process_manga_translation ::
  "ocr_env \<Rightarrow> ocr_engine \<Rightarrow> deepl_env \<Rightarrow> api \<Rightarrow> 'img inpainter \<Rightarrow> 'img renderer \<Rightarrow> bool \<Rightarrow>
   'img \<Rightarrow> translation_request \<Rightarrow> pipeline_state \<Rightarrow>
   (pipeline_error + 'img \<times> text_box list) \<times> processing_stage list \<times> pipeline_state" where
  "process_manga_translation oenv eng denv api inp rnd cb img req st =
     (let ev0 = emit cb Ocr (emit cb Initialized []);
          (r, om) = extract_text_stage oenv eng (ocr_mgr st) (source_language req);
          st1 = st\<lparr>ocr_mgr := om\<rparr>
      in case r of
           Inl e \<Rightarrow> (Inl (Text_extraction_failed e), emit cb Error ev0, st1)
         | Inr bs \<Rightarrow>
             (if bs = [] then (Inl No_text_found, emit cb Error ev0, st1)
              else
                (let ev1 = emit cb Translation ev0;
                     (bs', tst) = translate_text_boxes
                        (manager_tr denv api (language_value (source_language req))
                           (language_value (target_language req)))
                        (trans_mgr st1, clock st1) bs;
                     ev2 = emit cb Inpainting ev1;
                     img1 = inpaint_text_regions inp img bs';
                     ev3 = emit cb Rendering ev2;
                     img2 = render_translated_text rnd img1 bs' (target_language req);
                     ev4 = emit cb Completed ev3
                 in (Inr (img2, bs'), ev4, st1\<lparr>trans_mgr := fst tst, clock := snd tst\<rparr>))))"

subsection \<open>The stage machine of the spec\<close>

inductive stage_step :: "processing_stage \<Rightarrow> processing_stage \<Rightarrow> bool" where
  "stage_step Initialized Ocr"
| "stage_step Ocr Translation"
| "stage_step Translation Inpainting"
| "stage_step Inpainting Rendering"
| "stage_step Rendering Completed"
| "s \<noteq> Completed \<Longrightarrow> s \<noteq> Error \<Longrightarrow> stage_step s Error"

text \<open>A run of the machine from \<open>Initialized\<close>, as the list of stages visited.\<close>

inductive stage_run :: "processing_stage list \<Rightarrow> bool" where
  "stage_run [Initialized]"
| "stage_run (ss @ [s]) \<Longrightarrow> stage_step s s' \<Longrightarrow> stage_run (ss @ [s, s'])"

subsection \<open>Runs of the stage machine\<close>

lemma stage_run_Initialized: "stage_run [Initialized, Ocr, Error]"
  and stage_run_Completed: "stage_run [Initialized, Ocr, Translation, Inpainting, Rendering, Completed]"
proof -
  have r0: "stage_run [Initialized]" by (rule stage_run.intros(1))
  have r1: "stage_run [Initialized, Ocr]"
    using stage_run.intros(2) [of "[]" Initialized Ocr] r0 by (simp add: stage_step.intros)
  show "stage_run [Initialized, Ocr, Error]"
    using stage_run.intros(2) [of "[Initialized]" Ocr Error] r1 by (simp add: stage_step.intros)
  have r2: "stage_run [Initialized, Ocr, Translation]"
    using stage_run.intros(2) [of "[Initialized]" Ocr Translation] r1 by (simp add: stage_step.intros)
  have r3: "stage_run [Initialized, Ocr, Translation, Inpainting]"
    using stage_run.intros(2) [of "[Initialized, Ocr]" Translation Inpainting] r2 by (simp add: stage_step.intros)
  have r4: "stage_run [Initialized, Ocr, Translation, Inpainting, Rendering]"
    using stage_run.intros(2) [of "[Initialized, Ocr, Translation]" Inpainting Rendering] r3
    by (simp add: stage_step.intros)
  show "stage_run [Initialized, Ocr, Translation, Inpainting, Rendering, Completed]"
    using stage_run.intros(2) [of "[Initialized, Ocr, Translation, Inpainting]" Rendering Completed] r4
    by (simp add: stage_step.intros)
qed

inductive_cases stage_step_CompletedE: "stage_step Completed s"
inductive_cases stage_step_ErrorE: "stage_step Error s"

lemma stage_run_final:
  "stage_run ss \<Longrightarrow> hd ss = Initialized \<and> (\<forall>i < length ss - 1. ss ! i \<noteq> Completed \<and> ss ! i \<noteq> Error)"
proof (induction rule: stage_run.induct)
  case 1
  then show ?case by simp
next
  case (2 ss s s')
  have "s \<noteq> Completed" "s \<noteq> Error"
    using 2(2) by (auto elim: stage_step_CompletedE stage_step_ErrorE)
  moreover have "hd (ss @ [s, s']) = hd (ss @ [s])" by (cases ss) simp_all
  moreover have "(ss @ [s, s']) ! i = (ss @ [s]) ! i" if "i < length ss + 1" for i
    using that by (simp add: nth_append)
  ultimately show ?case using 2(3)
    by (auto simp: nth_append less_Suc_eq split: if_splits)
qed

lemma process_manga_translation_cases:
  "process_manga_translation oenv eng denv api inp rnd cb img req st =
   (case extract_text_stage oenv eng (ocr_mgr st) (source_language req) of
      (Inl e, om) \<Rightarrow> (Inl (Text_extraction_failed e), emit cb Error (emit cb Ocr (emit cb Initialized [])),
                     st\<lparr>ocr_mgr := om\<rparr>)
    | (Inr bs, om) \<Rightarrow>
        (if bs = [] then (Inl No_text_found, emit cb Error (emit cb Ocr (emit cb Initialized [])), st\<lparr>ocr_mgr := om\<rparr>)
         else
           (case translate_text_boxes (manager_tr denv api (language_value (source_language req))
                    (language_value (target_language req))) (trans_mgr st, clock st) bs of
              (bs', tst) \<Rightarrow>
                (Inr (render_translated_text rnd (inpaint_text_regions inp img bs') bs' (target_language req), bs'),
                 emit cb Completed (emit cb Rendering (emit cb Inpainting (emit cb Translation
                   (emit cb Ocr (emit cb Initialized []))))),
                 st\<lparr>ocr_mgr := om, trans_mgr := fst tst, clock := snd tst\<rparr>))))"
  by (simp add: process_manga_translation_def Let_def split: prod.splits sum.splits)

lemma process_events:
  "fst (snd (process_manga_translation oenv eng denv api inp rnd cb img req st)) =
   (if \<not> cb then []
    else (case fst (process_manga_translation oenv eng denv api inp rnd cb img req st) of
            Inl _ \<Rightarrow> [Initialized, Ocr, Error]
          | Inr _ \<Rightarrow> [Initialized, Ocr, Translation, Inpainting, Rendering, Completed]))"
  by (simp add: process_manga_translation_cases emit_def split: prod.splits sum.splits)

subsection \<open>The translation stage under an outage\<close>

lemma supported_language_value: "supported_languages (language_value l) \<noteq> None"
  by (cases l) (simp_all add: supported_languages_def)

lemma validate_language_values:
  "l \<noteq> l' \<Longrightarrow> validate_languages (language_value l) (language_value l') =
     Inr (language_value l, language_value l', True)"
  using supported_language_value [of l] supported_language_value [of l']
  by (simp add: validate_languages_def)

lemma manager_translate_unavailable:
  assumes "initialized m" "\<forall>p \<in> set (translators m). \<not> is_available p" "\<not> py_blank s"
    and "validate_languages f t = Inr (f, t, True)"
  shows "manager_translate env api m clk s f t = (Inr None, m, clk)"
  using assms try_translators_none_available [OF assms(2), of api f t s clk]
  by (simp add: manager_translate_def initialize_sync_def)

lemma py_blank_no_bracket: "py_blank s \<Longrightarrow> CHR ''['' \<notin> set s"
  by (auto simp: py_blank_def py_simps)

lemma translate_stage_outage:
  assumes "initialized m" "\<forall>p \<in> set (translators m). \<not> is_available p" "l \<noteq> l'"
    and "\<forall>b \<in> set bs. translated_text b = []"
  shows "map translated_text (fst (translate_text_boxes
            (manager_tr env api (language_value l) (language_value l')) (m, clk) bs)) = map box_text bs"
proof (cases "py_blank (combine_text_for_context bs)")
  case True
  then have "manager_translate env api m clk (combine_text_for_context bs) (language_value l) (language_value l') =
      (Inr (Some (combine_text_for_context bs)), m, clk)"
    using assms(1) by (simp add: manager_translate_def initialize_sync_def)
  then show ?thesis
    using py_blank_no_bracket [OF True]
    by (simp add: translate_text_boxes_def manager_tr_def distribute_translated_text_Some
        find_markers_no_bracket translations_map_def assign_translations_empty comp_def)
next
  case False
  then have "manager_translate env api m clk (combine_text_for_context bs) (language_value l) (language_value l') =
      (Inr None, m, clk)"
    using manager_translate_unavailable [OF assms(1,2) False validate_language_values [OF assms(3)]] by simp
  moreover have "map translated_text (keep_original_text bs) = map box_text bs"
    using assms(4) by (simp add: keep_original_text_def)
  ultimately show ?thesis
    by (simp add: translate_text_boxes_def manager_tr_def distribute_translated_text_None)
qed

lemma translate_text_boxes_box_text: "map box_text (fst (translate_text_boxes tr st bs)) = map box_text bs"
  by (cases rule: translate_text_boxes_cases [of tr st bs])
     (auto intro!: nth_equalityI simp: keep_original_text_frame assign_reading_order_frame)

lemma extract_text_stage_Inr:
  "fst (extract_text_stage oenv eng om l) = Inr bs \<Longrightarrow>
   \<exists>k. fst (get_ocr_service oenv om (language_value l)) = Inr k \<and> eng k (language_value l) = Some bs"
  using merge_outer_char [of "{}" 0 _ 20]
  by (auto simp: extract_text_stage_def extract_text_def merge_nearby_textboxes_def merge_nearby_boxes_def
      split: prod.splits sum.splits option.splits if_splits)

subsection \<open>Properties of the pipeline\<close>

text \<open>
  C1. The run fails exactly when the OCR stage fails or finds no text: no failure of the
  translation, inpainting or rendering stage fails the run.\<close>

theorem process_fails_only_at_ocr:
  "isl (fst (process_manga_translation oenv eng denv api inp rnd cb img req st)) \<longleftrightarrow>
   (case fst (extract_text_stage oenv eng (ocr_mgr st) (source_language req)) of
      Inl _ \<Rightarrow> True
    | Inr bs \<Rightarrow> bs = [])"
  by (simp add: process_manga_translation_cases split: prod.splits sum.splits)

text \<open>
  C2. With a status callback, the stages reported form a run of the stage machine of the spec,
  ending in \<open>Completed\<close> when the call returns and in \<open>Error\<close> when it raises.\<close>

theorem process_stage_trace:
  "cb \<Longrightarrow> stage_run (fst (snd (process_manga_translation oenv eng denv api inp rnd cb img req st))) \<and>
     last (fst (snd (process_manga_translation oenv eng denv api inp rnd cb img req st))) =
     (if isl (fst (process_manga_translation oenv eng denv api inp rnd cb img req st)) then Error else Completed)"
  using process_events [of oenv eng denv api inp rnd cb img req st] stage_run_Initialized stage_run_Completed
  by (auto split: sum.splits)

text \<open>
  C3. When no translation provider is available (for instance Google after an earlier 429),
  every box of a completed run carries its original text as its translation.\<close>

theorem pipeline_outage_keeps_original:
  assumes "initialized (trans_mgr st)" "\<forall>p \<in> set (translators (trans_mgr st)). \<not> is_available p"
    and "source_language req \<noteq> target_language req"
    and "\<forall>k l bs b. eng k l = Some bs \<longrightarrow> b \<in> set bs \<longrightarrow> translated_text b = []"
    and "fst (process_manga_translation oenv eng denv api inp rnd cb img req st) = Inr (img', bs')"
  shows "map translated_text bs' = map box_text bs'"
proof -
  obtain r om where ex: "extract_text_stage oenv eng (ocr_mgr st) (source_language req) = (r, om)"
    by (metis prod.exhaust)
  obtain bs where r: "r = Inr bs" and ne: "bs \<noteq> []"
    using assms(5) ex by (auto simp: process_manga_translation_cases split: sum.splits if_splits)
  obtain k where "eng k (language_value (source_language req)) = Some bs"
    using extract_text_stage_Inr [of oenv eng "ocr_mgr st" "source_language req" bs] ex r by auto
  then have empty: "\<forall>b \<in> set bs. translated_text b = []" using assms(4) by blast
  have bs': "bs' = fst (translate_text_boxes (manager_tr denv api (language_value (source_language req))
      (language_value (target_language req))) (trans_mgr st, clock st) bs)"
    using assms(5) ex r ne by (simp add: process_manga_translation_cases split: prod.splits)
  have "map box_text bs' = map box_text bs"
    unfolding bs' by (rule translate_text_boxes_box_text)
  then show ?thesis
    unfolding bs' using translate_stage_outage [OF assms(1,2,3) empty] by simp
qed

text \<open>
  C33. Any image in which the OCR engine detects two boxes whose centres are within 20 pixels
  fails the whole run: the merge of \<open>extract_text\<close> raises \<open>AttributeError\<close>.\<close>

theorem process_fails_on_nearby_boxes:
  assumes "fst (get_ocr_service oenv (ocr_mgr st) (language_value (source_language req))) = Inr k"
    and "eng k (language_value (source_language req)) = Some bs" and "has_nearby_pair 20 bs"
  shows "fst (process_manga_translation oenv eng denv api inp rnd cb img req st) =
         Inl (Text_extraction_failed Attribute_error)"
proof -
  obtain om where g: "get_ocr_service oenv (ocr_mgr st) (language_value (source_language req)) = (Inr k, om)"
    using assms(1) by (metis prod.collapse)
  have "merge_nearby_boxes 20 bs = Inl Attribute_error"
    using merge_outer_char [of "{}" 0 bs 20] assms(3) by (auto simp: merge_nearby_boxes_def)
  then have "extract_text_stage oenv eng (ocr_mgr st) (source_language req) = (Inl Attribute_error, om)"
    using g assms(2) by (simp add: extract_text_stage_def extract_text_def merge_nearby_textboxes_def)
  then show ?thesis by (simp add: process_manga_translation_cases)
qed

subsection \<open>Concrete runs\<close>

theorem process_stage_trace_witness:
  "stage_run [Initialized, Ocr, Translation, Inpainting, Rendering, Completed] \<and>
   fst (snd (process_manga_translation (\<lambda>k. Ctor_ok True) (\<lambda>k l. Some [mk_text_box ''Hello'' (mk_bbox 0 0 10 10)])
      Deepl_missing_package (\<lambda>k f t q. Api_ok ''Bonjour'') (\<lambda>img b. Some (img @ [1::nat])) (\<lambda>img b l. Some (img @ [2]))
      True [] \<lparr>source_language = Japanese, target_language = English\<rparr>
      \<lparr>ocr_mgr = new_ocr_manager, trans_mgr = new_manager None, clock = 0\<rparr>)) =
     [Initialized, Ocr, Translation, Inpainting, Rendering, Completed]"
proof -
  have e: "fst (snd (process_manga_translation (\<lambda>k. Ctor_ok True) (\<lambda>k l. Some [mk_text_box ''Hello'' (mk_bbox 0 0 10 10)])
      Deepl_missing_package (\<lambda>k f t q. Api_ok ''Bonjour'') (\<lambda>img b. Some (img @ [1::nat])) (\<lambda>img b l. Some (img @ [2]))
      True [] \<lparr>source_language = Japanese, target_language = English\<rparr>
      \<lparr>ocr_mgr = new_ocr_manager, trans_mgr = new_manager None, clock = 0\<rparr>)) =
     [Initialized, Ocr, Translation, Inpainting, Rendering, Completed]"
    by code_simp
  show ?thesis
    using e process_stage_trace [of True "\<lambda>k. Ctor_ok True" "\<lambda>k l. Some [mk_text_box ''Hello'' (mk_bbox 0 0 10 10)]"
      Deepl_missing_package "\<lambda>k f t q. Api_ok ''Bonjour''" "\<lambda>img b. Some (img @ [1::nat])" "\<lambda>img b l. Some (img @ [2])"
      "[]" "\<lparr>source_language = Japanese, target_language = English\<rparr>"
      "\<lparr>ocr_mgr = new_ocr_manager, trans_mgr = new_manager None, clock = 0\<rparr>"]
    by simp
qed

theorem process_fails_on_nearby_boxes_witness:
  "fst (process_manga_translation (\<lambda>k. Ctor_ok True)
      (\<lambda>k l. Some [mk_text_box ''Hello'' (mk_bbox 0 0 10 10), mk_text_box ''world'' (mk_bbox 0 12 10 22)])
      Deepl_missing_package (\<lambda>k f t q. Api_ok ''Bonjour'') (\<lambda>img b. Some (img @ [1::nat])) (\<lambda>img b l. Some (img @ [2]))
      True [] \<lparr>source_language = English, target_language = Japanese\<rparr>
      \<lparr>ocr_mgr = new_ocr_manager, trans_mgr = new_manager None, clock = 0\<rparr>) =
   Inl (Text_extraction_failed Attribute_error)"
proof -
  have g: "fst (get_ocr_service (\<lambda>k. Ctor_ok True) new_ocr_manager (language_value English)) = Inr Easy_ocr"
    by code_simp
  have n: "has_nearby_pair 20 [mk_text_box ''Hello'' (mk_bbox 0 0 10 10), mk_text_box ''world'' (mk_bbox 0 12 10 22)]"
    by code_simp
  have eng: "(\<lambda>k l. Some [mk_text_box ''Hello'' (mk_bbox 0 0 10 10), mk_text_box ''world'' (mk_bbox 0 12 10 22)])
      Easy_ocr (language_value (source_language \<lparr>source_language = English, target_language = Japanese\<rparr>)) =
      Some [mk_text_box ''Hello'' (mk_bbox 0 0 10 10), mk_text_box ''world'' (mk_bbox 0 12 10 22)]"
    by simp
  show ?thesis
    using process_fails_on_nearby_boxes [where st = "\<lparr>ocr_mgr = new_ocr_manager, trans_mgr = new_manager None, clock = 0\<rparr>"
        and req = "\<lparr>source_language = English, target_language = Japanese\<rparr>"
        and oenv = "\<lambda>k. Ctor_ok True" and k = Easy_ocr and denv = Deepl_missing_package
        and api = "\<lambda>k f t q. Api_ok ''Bonjour''" and inp = "\<lambda>img b. Some (img @ [1::nat])"
        and rnd = "\<lambda>img b l. Some (img @ [2])" and cb = True and img = "[]", OF _ eng n] g
    by simp
qed

theorem pipeline_outage_keeps_original_witness:
  "fst (process_manga_translation (\<lambda>k. Ctor_ok True) (\<lambda>k l. Some [mk_text_box ''Hello'' (mk_bbox 0 0 10 10)])
      Deepl_missing_package (\<lambda>k f t q. Api_ok ''Bonjour'') (\<lambda>img b. Some (img @ [1::nat])) (\<lambda>img b l. Some (img @ [2]))
      True [] \<lparr>source_language = Japanese, target_language = English\<rparr>
      \<lparr>ocr_mgr = new_ocr_manager,
       trans_mgr = (new_manager None)\<lparr>translators :=
         [(new_translator Google True False)\<lparr>last_request_ts := 20, rate_limited := True\<rparr>],
         service_priority := [''Google''], initialized := True\<rparr>,
       clock = 20\<rparr>) =
   Inr ([1, 2], [(mk_text_box ''Hello'' (mk_bbox 0 0 10 10))\<lparr>translated_text := ''Hello''\<rparr>]) \<and>
   map translated_text [(mk_text_box ''Hello'' (mk_bbox 0 0 10 10))\<lparr>translated_text := ''Hello''\<rparr>] =
   map box_text [(mk_text_box ''Hello'' (mk_bbox 0 0 10 10))\<lparr>translated_text := ''Hello''\<rparr>]"
proof -
  have e: "fst (process_manga_translation (\<lambda>k. Ctor_ok True) (\<lambda>k l. Some [mk_text_box ''Hello'' (mk_bbox 0 0 10 10)])
      Deepl_missing_package (\<lambda>k f t q. Api_ok ''Bonjour'') (\<lambda>img b. Some (img @ [1::nat])) (\<lambda>img b l. Some (img @ [2]))
      True [] \<lparr>source_language = Japanese, target_language = English\<rparr>
      \<lparr>ocr_mgr = new_ocr_manager,
       trans_mgr = (new_manager None)\<lparr>translators :=
         [(new_translator Google True False)\<lparr>last_request_ts := 20, rate_limited := True\<rparr>],
         service_priority := [''Google''], initialized := True\<rparr>,
       clock = 20\<rparr>) =
   Inr ([1, 2], [(mk_text_box ''Hello'' (mk_bbox 0 0 10 10))\<lparr>translated_text := ''Hello''\<rparr>])"
    by code_simp
  have "map translated_text [(mk_text_box ''Hello'' (mk_bbox 0 0 10 10))\<lparr>translated_text := ''Hello''\<rparr>] =
   map box_text [(mk_text_box ''Hello'' (mk_bbox 0 0 10 10))\<lparr>translated_text := ''Hello''\<rparr>]"
    using pipeline_outage_keeps_original [OF _ _ _ _ e]
    by (simp add: new_manager_def new_translator_def mk_text_box_def)
  with e show ?thesis by simp
qed

end
