(* ===== verification/Routes.thy ===== *)
theory Routes
  imports Http_Layer Orchestrator
begin

text \<open>
  \<open>routes/routers/translation.py\<close>: the \<open>/translate\<close> endpoint around the orchestrator, the
  in-memory status store of \<open>/status/{session_id}\<close> with its delayed cleanup, and the upload
  validation it calls (with \<open>ImageUtils.load_image_from_bytes\<close>). Image decoding and PNG
  encoding are oracles; the orchestrator is a parameter, instantiated with
  \<open>process_manga_translation\<close> in the properties.
\<close>

subsection \<open>Upload validation\<close>

definition max_file_size_mb :: int where
  \<comment> \<open>\<open>Settings.max_file_size_mb\<close>\<close>
  "max_file_size_mb = 10"

definition allowed_mime_types :: "string list" where
  "allowed_mime_types = [''image/jpeg'', ''image/jpg'', ''image/png'']"

definition allowed_extensions :: "string list" where
  "allowed_extensions = [''.jpeg'', ''.jpg'', ''.png'']"

definition max_file_size :: int where
  "max_file_size = max_file_size_mb * 1024 * 1024"

text \<open>\<open>validate_image_file\<close>: the declared content type must be allowed; a non-empty file
  name must end in an allowed extension, the text after its last dot, lower-cased.\<close>

definition validate_image_file :: "string option \<Rightarrow> string option \<Rightarrow> api_exc + unit" where
  "validate_image_file content_type filename =
     (if content_type = None \<or> content_type = Some [] \<or> the content_type \<notin> set allowed_mime_types then
        Inl (Http_exception 400 (''Invalid file type. Allowed: '' @ py_join '', '' allowed_mime_types @ ''. Got: '' @
                                 (case content_type of Some c \<Rightarrow> c | None \<Rightarrow> ''None'')))
      else
        (case filename of
           Some f \<Rightarrow>
             if f \<noteq> [] \<and> ''.'' @ py_lower_str (last (py_split_on (CHR ''.'') f)) \<notin> set allowed_extensions
             then Inl (Http_exception 400 (''Invalid file extension. Allowed: '' @ py_join '', '' allowed_extensions))
             else Inr ()
         | None \<Rightarrow> Inr ()))"

text \<open>\<open>ImageUtils.load_image_from_bytes\<close>: PIL's decoder, an oracle, with its exception re-raised
  as \<open>ImageValidationError\<close>, a \<open>ProcessingError\<close>.\<close>

definition load_image_from_bytes :: "(string \<Rightarrow> 'img option) \<Rightarrow> string \<Rightarrow> api_exc + 'img" where
  "load_image_from_bytes decode bs =
     (case decode bs of None \<Rightarrow> Inl (Processing_error ''Failed to load image from bytes'') | Some img \<Rightarrow> Inr img)"

text \<open>\<open>validate_image_content\<close>: the size limit, the decoder, and at least 50 pixels each way;
  an exception other than an \<open>HTTPException\<close> becomes a 400.\<close>

definition validate_image_content ::
  "(string \<Rightarrow> 'img option) \<Rightarrow> ('img \<Rightarrow> nat \<times> nat) \<Rightarrow> string \<Rightarrow> api_exc + 'img" where
  "validate_image_content decode shp contents =
     (if max_file_size < int (length contents) then
        Inl (Http_exception 413 (''File size exceeds '' @ nat_to_str (nat max_file_size_mb) @ ''MB limit''))
      else
        (case load_image_from_bytes decode contents of
           Inl _ \<Rightarrow> Inl (Http_exception 400 ''Invalid image file - could not process image'')
         | Inr img \<Rightarrow>
             (let (h, w) = shp img in
              if w < 50 \<or> h < 50 then Inl (Http_exception 400 ''Image too small - minimum dimensions are 50x50 pixels'')
              else Inr img)))"

subsection \<open>The endpoint (\<open>translate_manga\<close>)\<close>

record upload =
  content_type :: "string option"
  filename :: "string option"
  contents :: string

text \<open>The process-wide state the router keeps: \<open>processing_status\<close> (the stage of each
  session), the orchestrator's own state, and the cleanups scheduled as background tasks.\<close>

record api_state =
  processing_status :: "string \<rightharpoonup> processing_stage"
  orchestrator :: pipeline_state
  pending_cleanups :: "string list"

type_synonym 'img pipeline_run =
  "bool \<Rightarrow> 'img \<Rightarrow> translation_request \<Rightarrow> pipeline_state \<Rightarrow>
   (pipeline_error + 'img \<times> text_box list) \<times> processing_stage list \<times> pipeline_state"

text \<open>The route's own \<open>except\<close> clauses are part of the function: a \<open>ProcessingError\<close> of the
  pipeline becomes a 422 with its message, an \<open>HTTPException\<close> passes, and any other exception
  (among them the validation error of \<open>TranslationRequest\<close> for a language string that
  \<open>Language\<close> does not name) becomes a 500.\<close>

text \<open>The status callback writes each reported stage over the session's entry; the last
  one stays.\<close>

definition record_stages ::
  "string option \<Rightarrow> processing_stage list \<Rightarrow> (string \<rightharpoonup> processing_stage) \<Rightarrow> string \<rightharpoonup> processing_stage" where
  "record_stages sid evs m =
     (case sid of Some s \<Rightarrow> if s \<noteq> [] then fold (\<lambda>e m'. m'(s \<mapsto> e)) evs m else m | None \<Rightarrow> m)"

definition translate_manga ::
  "'img pipeline_run \<Rightarrow> (string \<Rightarrow> 'img option) \<Rightarrow> ('img \<Rightarrow> nat \<times> nat) \<Rightarrow> ('img \<Rightarrow> string option) \<Rightarrow>
   upload \<Rightarrow> string \<Rightarrow> string \<Rightarrow> string option \<Rightarrow> api_state \<Rightarrow> (api_exc + string \<times> nat) \<times> api_state" where
  "translate_manga run decode shp encode up src tgt sid st =
     (case validate_image_file (content_type up) (filename up) of
        Inl e \<Rightarrow> (Inl e, st)
      | Inr _ \<Rightarrow>
          (case validate_image_content decode shp (contents up) of
             Inl e \<Rightarrow> (Inl e, st)
           | Inr img \<Rightarrow>
               if font_mappings src = None then (Inl (Http_exception 400 (''Unsupported source language: '' @ src)), st)
               else if font_mappings tgt = None then (Inl (Http_exception 400 (''Unsupported target language: '' @ tgt)), st)
               else
                 (case (language_of_value src, language_of_value tgt) of
                    (Some ls, Some lt) \<Rightarrow>
                      (let cb = (case sid of Some s \<Rightarrow> s \<noteq> [] | None \<Rightarrow> False);
                           ps0 = record_stages sid [Initialized] (processing_status st);
                           (r, evs, pst) = run cb img \<lparr>source_language = ls, target_language = lt\<rparr> (orchestrator st);
                           st1 = st\<lparr>processing_status := record_stages sid evs ps0, orchestrator := pst\<rparr>
                       in case r of
                            Inl _ \<Rightarrow> (Inl (Http_exception 422 ''Translation process failed: ''), st1)
                          | Inr (img', bs) \<Rightarrow>
                              (case encode img' of
                                 None \<Rightarrow> (Inl (Http_exception 500 ''Failed to process translated image''), st1)
                               | Some png \<Rightarrow>
                                   (Inr (png, length bs),
                                    st1\<lparr>pending_cleanups := pending_cleanups st1 @ (if cb then [the sid] else [])\<rparr>)))
                  | _ \<Rightarrow> (Inl (Http_exception 500 ''Internal server error during translation''), st))))"

subsection \<open>Status and cleanup\<close>

definition get_processing_status :: "api_state \<Rightarrow> string \<Rightarrow> api_exc + processing_stage" where
  "get_processing_status st sid =
     (case processing_status st sid of
        None \<Rightarrow> Inl (Http_exception 404 ''Session not found or expired'')
      | Some s \<Rightarrow> Inr s)"

definition cleanup_status :: "api_state \<Rightarrow> string \<Rightarrow> api_state" where
  \<comment> \<open>after its 300 seconds of sleep\<close>
  "cleanup_status st sid = st\<lparr>processing_status := (processing_status st)(sid := None)\<rparr>"

definition get_supported_languages :: "string list \<times> int \<times> string list" where
  "get_supported_languages =
     ([''english'', ''sim_chinese'', ''trad_chinese'', ''korean'', ''japanese'', ''vietnamese''],
      max_file_size_mb, allowed_mime_types)"


section \<open>Properties\<close>

lemma fold_upd_last: "evs \<noteq> [] \<Longrightarrow> fold (\<lambda>e m'. m'(s \<mapsto> e)) evs m = m(s \<mapsto> last evs)"
  by (induction evs arbitrary: m rule: induct_list012) simp_all

lemma record_stages_last:
  "s \<noteq> [] \<Longrightarrow> evs \<noteq> [] \<Longrightarrow> record_stages (Some s) evs m s = Some (last evs)"
  by (simp add: record_stages_def fold_upd_last)

lemma validate_image_file_code: "validate_image_file c f = Inl e \<Longrightarrow> \<exists>d. e = Http_exception 400 d"
  by (auto simp: validate_image_file_def split: if_splits option.splits)

lemma validate_image_content_code:
  "validate_image_content decode shp bs = Inl e \<Longrightarrow> \<exists>c d. e = Http_exception c d \<and> c \<noteq> 422"
  by (auto simp: validate_image_content_def split: if_splits sum.splits prod.splits)

lemma process_events_last:
  "fst (snd (process_manga_translation oenv eng denv api inp rnd True img req st)) \<noteq> [] \<and>
   last (fst (snd (process_manga_translation oenv eng denv api inp rnd True img req st))) =
   (if isl (fst (process_manga_translation oenv eng denv api inp rnd True img req st)) then Error else Completed)"
  by (simp add: process_events split: sum.split)

lemma process_events_last':
  "process_manga_translation oenv eng denv api inp rnd True img req st = (r0, evs, pst) \<Longrightarrow>
   evs \<noteq> [] \<and> last evs = (if isl r0 then Error else Completed)"
  using process_events_last [of oenv eng denv api inp rnd img req st] by simp

text \<open>
  C6. With the orchestrator behind the endpoint and a session id, the status store answers
  \<open>completed\<close> for the session after every request that returns an image, and \<open>error\<close>
  after every request the pipeline fails (answered 422).\<close>

theorem translate_manga_status:
  assumes "translate_manga (process_manga_translation oenv eng denv api inp rnd) decode shp encode up src tgt (Some sid) st
           = (r, st')"
    and "sid \<noteq> []"
  shows "(\<not> isl r \<longrightarrow> get_processing_status st' sid = Inr Completed) \<and>
         (r = Inl (Http_exception 422 ''Translation process failed: '') \<longrightarrow> get_processing_status st' sid = Inr Error)"
  using assms
  by (auto simp: translate_manga_def get_processing_status_def record_stages_def fold_upd_last Let_def
      split: sum.splits if_splits option.splits prod.splits
      dest: validate_image_file_code validate_image_content_code process_events_last')

text \<open>
  C22. The language check of the endpoint accepts \<open>default\<close>, a key of \<open>font_mappings\<close> but not
  a \<open>Language\<close>: a valid upload with target language \<open>default\<close> fails with a 500 instead of the
  400 the check gives for other unknown languages.\<close>

theorem translate_manga_default_language:
  assumes "validate_image_file (content_type up) (filename up) = Inr ()"
    and "validate_image_content decode shp (contents up) = Inr img"
    and "font_mappings src \<noteq> None"
  shows "fst (translate_manga run decode shp encode up src ''default'' sid st) =
         Inl (Http_exception 500 ''Internal server error during translation'')"
  using assms
  by (simp add: translate_manga_def font_mappings_def font_mapping_list_def language_of_value_def all_languages_def
      split: option.split)

subsection \<open>Witnesses\<close>

theorem translate_manga_status_witness:
  "get_processing_status (snd (translate_manga (process_manga_translation (\<lambda>k. Ctor_ok True) (\<lambda>k l. Some [mk_text_box ''Hello'' (mk_bbox 0 0 10 10)])
      Deepl_missing_package (\<lambda>k f t q. Api_ok ''Bonjour'') (\<lambda>img b. Some (img @ [1::nat])) (\<lambda>img b l. Some (img @ [2]))) (\<lambda>_. Some []) (\<lambda>_. (100, 100)) (\<lambda>_. Some ''png'')
      \<lparr>content_type = Some ''image/png'', filename = Some ''page.png'', contents = ''xx''\<rparr> ''english'' ''japanese'' (Some ''s1'') \<lparr>processing_status = Map.empty, orchestrator = \<lparr>ocr_mgr = new_ocr_manager, trans_mgr = new_manager None, clock = 0\<rparr>,
      pending_cleanups = []\<rparr>)) ''s1'' = Inr Completed"
proof -
  have r: "translate_manga (process_manga_translation (\<lambda>k. Ctor_ok True) (\<lambda>k l. Some [mk_text_box ''Hello'' (mk_bbox 0 0 10 10)])
      Deepl_missing_package (\<lambda>k f t q. Api_ok ''Bonjour'') (\<lambda>img b. Some (img @ [1::nat])) (\<lambda>img b l. Some (img @ [2]))) (\<lambda>_. Some []) (\<lambda>_. (100, 100)) (\<lambda>_. Some ''png'')
      \<lparr>content_type = Some ''image/png'', filename = Some ''page.png'', contents = ''xx''\<rparr> ''english'' ''japanese'' (Some ''s1'') \<lparr>processing_status = Map.empty, orchestrator = \<lparr>ocr_mgr = new_ocr_manager, trans_mgr = new_manager None, clock = 0\<rparr>,
      pending_cleanups = []\<rparr> =
    (fst (translate_manga (process_manga_translation (\<lambda>k. Ctor_ok True) (\<lambda>k l. Some [mk_text_box ''Hello'' (mk_bbox 0 0 10 10)])
      Deepl_missing_package (\<lambda>k f t q. Api_ok ''Bonjour'') (\<lambda>img b. Some (img @ [1::nat])) (\<lambda>img b l. Some (img @ [2]))) (\<lambda>_. Some []) (\<lambda>_. (100, 100)) (\<lambda>_. Some ''png'')
      \<lparr>content_type = Some ''image/png'', filename = Some ''page.png'', contents = ''xx''\<rparr> ''english'' ''japanese'' (Some ''s1'') \<lparr>processing_status = Map.empty, orchestrator = \<lparr>ocr_mgr = new_ocr_manager, trans_mgr = new_manager None, clock = 0\<rparr>,
      pending_cleanups = []\<rparr>),
     snd (translate_manga (process_manga_translation (\<lambda>k. Ctor_ok True) (\<lambda>k l. Some [mk_text_box ''Hello'' (mk_bbox 0 0 10 10)])
      Deepl_missing_package (\<lambda>k f t q. Api_ok ''Bonjour'') (\<lambda>img b. Some (img @ [1::nat])) (\<lambda>img b l. Some (img @ [2]))) (\<lambda>_. Some []) (\<lambda>_. (100, 100)) (\<lambda>_. Some ''png'')
      \<lparr>content_type = Some ''image/png'', filename = Some ''page.png'', contents = ''xx''\<rparr> ''english'' ''japanese'' (Some ''s1'') \<lparr>processing_status = Map.empty, orchestrator = \<lparr>ocr_mgr = new_ocr_manager, trans_mgr = new_manager None, clock = 0\<rparr>,
      pending_cleanups = []\<rparr>))" by simp
  have ok: "\<not> isl (fst (translate_manga (process_manga_translation (\<lambda>k. Ctor_ok True) (\<lambda>k l. Some [mk_text_box ''Hello'' (mk_bbox 0 0 10 10)])
      Deepl_missing_package (\<lambda>k f t q. Api_ok ''Bonjour'') (\<lambda>img b. Some (img @ [1::nat])) (\<lambda>img b l. Some (img @ [2]))) (\<lambda>_. Some []) (\<lambda>_. (100, 100)) (\<lambda>_. Some ''png'')
      \<lparr>content_type = Some ''image/png'', filename = Some ''page.png'', contents = ''xx''\<rparr> ''english'' ''japanese'' (Some ''s1'') \<lparr>processing_status = Map.empty, orchestrator = \<lparr>ocr_mgr = new_ocr_manager, trans_mgr = new_manager None, clock = 0\<rparr>,
      pending_cleanups = []\<rparr>))" by code_simp
  show ?thesis using translate_manga_status [OF r] ok by simp
qed

theorem translate_manga_default_language_witness:
  "fst (translate_manga (process_manga_translation (\<lambda>k. Ctor_ok True) (\<lambda>k l. Some [mk_text_box ''Hello'' (mk_bbox 0 0 10 10)])
      Deepl_missing_package (\<lambda>k f t q. Api_ok ''Bonjour'') (\<lambda>img b. Some (img @ [1::nat])) (\<lambda>img b l. Some (img @ [2]))) (\<lambda>_. Some []) (\<lambda>_. (100, 100)) (\<lambda>_. Some ''png'')
      \<lparr>content_type = Some ''image/png'', filename = Some ''page.png'', contents = ''xx''\<rparr> ''english'' ''default'' (Some ''s1'') \<lparr>processing_status = Map.empty, orchestrator = \<lparr>ocr_mgr = new_ocr_manager, trans_mgr = new_manager None, clock = 0\<rparr>,
      pending_cleanups = []\<rparr>) =
   Inl (Http_exception 500 ''Internal server error during translation'')"
proof -
  have "validate_image_file (content_type \<lparr>content_type = Some ''image/png'', filename = Some ''page.png'', contents = ''xx''\<rparr>) (filename \<lparr>content_type = Some ''image/png'', filename = Some ''page.png'', contents = ''xx''\<rparr>) = Inr ()"
    "validate_image_content (\<lambda>_. Some ([] :: nat list)) (\<lambda>_. (100, 100)) (contents \<lparr>content_type = Some ''image/png'', filename = Some ''page.png'', contents = ''xx''\<rparr>) = Inr []"
    "font_mappings ''english'' \<noteq> None" by code_simp+
  then show ?thesis by (rule translate_manga_default_language)
qed

end
