(* ===== verification/Layout.thy ===== *)
theory Layout
  imports Schemas
begin

text \<open>
  The font and layout engine: \<open>services/render/font_manager.py\<close> (measuring, the CJK and
  Latin wraps, the hyphenating word breaker, the binary search for the font size),
  \<open>services/render/layout_calculator.py\<close> (font size for a box, line positions, vertical
  columns, overlap resolution) and the column layout of \<open>services/render/text_renderer.py\<close>.
  Glyph metrics come from the font files through PIL; they are an oracle \<open>font_metrics\<close>
  indexed by language and size, which is what \<open>get_font(language, size)\<close> selects.
\<close>

subsection \<open>Metrics and measuring\<close>

text \<open>A font object of \<open>get_font(language, size)\<close>: the language it was loaded for and its size.\<close>

type_synonym font = "string \<times> int"

record font_metrics =
  text_bbox :: "font \<Rightarrow> string \<Rightarrow> int \<times> int"  \<comment> \<open>\<open>font.getbbox(text)\<close>: width and height\<close>
  cjk_line_height :: "font \<Rightarrow> int"             \<comment> \<open>\<open>ascent + descent\<close> of \<open>font.getmetrics()\<close>\<close>

definition is_cjk_language :: "string \<Rightarrow> bool" where
  "is_cjk_language l \<longleftrightarrow> py_lower_str l \<in> set [''japanese'', ''sim_chinese'', ''trad_chinese'', ''korean'']"

text \<open>The probe string, the CJK character U+6D4B, that the font manager and the layout calculator
  measure for the height of a CJK line: one CJK character, which the model's 8-bit alphabet
  writes as a code from 192 up (a non-ASCII letter). The renderer measures the three
  characters U+00E6 U+00B5 U+2039 instead, the UTF-8 bytes of that character read as
  Windows-1252; the model writes them as the bytes E6, B5, 8B.\<close>

definition cjk_probe :: string where
  "cjk_probe = [CHR 0xF0]"

definition mojibake_probe :: string where
  "mojibake_probe = [CHR 0xE6, CHR 0xB5, CHR 0x8B]"

text \<open>\<open>FontManager.measure_text(text, font, language)\<close>: the language only decides whether
  the height is the full line height of the font.\<close>

definition measure_text :: "font_metrics \<Rightarrow> font \<Rightarrow> string \<Rightarrow> string \<Rightarrow> int \<times> int" where
  "measure_text fm fnt l s =
     (let (w, h) = text_bbox fm fnt s in
      if is_cjk_language l then (w, cjk_line_height fm fnt) else (w, h))"

definition text_width :: "font_metrics \<Rightarrow> font \<Rightarrow> string \<Rightarrow> string \<Rightarrow> int" where
  "text_width fm fnt l s = fst (measure_text fm fnt l s)"

subsection \<open>Wrapping (\<open>FontManager.wrap_text_for_size\<close>)\<close>

text \<open>\<open>_wrap_cjk_text\<close>: characters are added to the current line while it measures at most
  the target width.\<close>

fun wrap_cjk_loop :: "font_metrics \<Rightarrow> font \<Rightarrow> string \<Rightarrow> int \<Rightarrow> string \<Rightarrow> string \<Rightarrow> string list" where
  "wrap_cjk_loop fm fnt l tw cur [] = (if cur = [] then [] else [cur])"
| "wrap_cjk_loop fm fnt l tw cur (c # cs) =
     (let t = cur @ [c] in
      if text_width fm fnt l t \<le> tw then wrap_cjk_loop fm fnt l tw t cs
      else (if cur = [] then [] else [cur]) @ wrap_cjk_loop fm fnt l tw [c] cs)"

definition wrap_cjk_text :: "font_metrics \<Rightarrow> font \<Rightarrow> string \<Rightarrow> int \<Rightarrow> string \<Rightarrow> string list" where
  "wrap_cjk_text fm fnt l tw s = wrap_cjk_loop fm fnt l tw [] s"

text \<open>\<open>_break_long_word_with_hyphen\<close>: every part but the last carries a hyphen, measured with it.\<close>

fun break_loop :: "font_metrics \<Rightarrow> font \<Rightarrow> string \<Rightarrow> int \<Rightarrow> string \<Rightarrow> string \<Rightarrow> string list" where
  "break_loop fm fnt l mw cur [] = (if cur = [] then [] else [cur])"
| "break_loop fm fnt l mw cur (c # cs) =
     (let t = cur @ [c] in
      if text_width fm fnt l (t @ ''-'') \<le> mw then break_loop fm fnt l mw t cs
      else (if cur = [] then [] else [cur @ ''-'']) @ break_loop fm fnt l mw [c] cs)"

definition break_long_word_with_hyphen :: "font_metrics \<Rightarrow> font \<Rightarrow> string \<Rightarrow> int \<Rightarrow> string \<Rightarrow> string list" where
  "break_long_word_with_hyphen fm fnt l mw w =
     (let parts = break_loop fm fnt l mw [] w in if parts = [] then [w] else parts)"

text \<open>The word loop of \<open>_wrap_latin_text\<close>: the finished lines and the current line.\<close>

fun latin_loop ::
  "font_metrics \<Rightarrow> font \<Rightarrow> string \<Rightarrow> int \<Rightarrow> string list \<Rightarrow> string \<Rightarrow> string list \<Rightarrow> string list \<times> string" where
  "latin_loop fm fnt l tw lines cur [] = (lines, cur)"
| "latin_loop fm fnt l tw lines cur (w # ws) =
     (let t = py_strip (cur @ '' '' @ w) in
      if text_width fm fnt l t \<le> tw then latin_loop fm fnt l tw lines t ws
      else
        (let lines1 = (if cur = [] then lines else lines @ [cur]) in
         if tw < text_width fm fnt l w then
           (let broken = break_long_word_with_hyphen fm fnt l tw w in
            latin_loop fm fnt l tw (lines1 @ butlast broken) (last broken) ws)
         else latin_loop fm fnt l tw lines1 w ws))"

text \<open>The bottom-line rule: a short last word of a multi-word last line moves to a line of its
  own, and an emptied line before it is dropped.\<close>

definition bottom_line_rule :: "string list \<Rightarrow> string list" where
  "bottom_line_rule lines =
     (if 1 < length lines then
        (let last_line = last lines; ws = py_split last_line; last_word = last ws in
         if length last_word \<le> 10 \<and> CHR '' '' \<in> set last_line then
           (let lines' = butlast lines @ [py_join '' '' (butlast ws), last_word] in
            if py_blank (lines' ! (length lines' - 2))
            then take (length lines' - 2) lines' @ [last lines']
            else lines')
         else lines)
      else lines)"

definition wrap_latin_text :: "font_metrics \<Rightarrow> font \<Rightarrow> string \<Rightarrow> int \<Rightarrow> string \<Rightarrow> string list" where
  "wrap_latin_text fm fnt l tw s =
     (let (lines, cur) = latin_loop fm fnt l tw [] [] (py_split s);
          lines' = (if cur = [] then lines else lines @ [cur])
      in bottom_line_rule lines')"

definition wrap_text_for_size :: "font_metrics \<Rightarrow> font \<Rightarrow> string \<Rightarrow> int \<Rightarrow> string \<Rightarrow> string list" where
  "wrap_text_for_size fm fnt l tw s =
     (if py_blank s then []
      else if is_cjk_language l then wrap_cjk_text fm fnt l tw s
      else wrap_latin_text fm fnt l tw s)"


subsection \<open>The font-size search (\<open>find_optimal_font_size_multiline\<close>)\<close>

definition font_size_min :: int where "font_size_min = 6"
definition font_size_max :: int where "font_size_max = 30"

text \<open>\<open>int(x * 0.4)\<close>, \<open>int(x * 0.3)\<close> and \<open>int(x * 1.0 * 1.1)\<close> as the floor of the exact
  fraction \<open>2/5\<close>, \<open>3/10\<close>, \<open>11/10\<close> of \<open>x\<close> (truncation toward zero for a negative \<open>x\<close>).
  The double literals 0.4 and 1.1 lie just above the fractions, so for \<open>x \<ge> 0\<close> the rounded
  product is never below an integer the exact fraction reaches and the truncation is the floor;
  0.3 lies just below \<open>3/10\<close>, and the products round back to the fraction for every
  \<open>0 \<le> x < 100000\<close> (checked exhaustively), which covers every glyph height.\<close>

definition frac_floor :: "int \<Rightarrow> int \<Rightarrow> int \<Rightarrow> int" where
  "frac_floor n d h = (if 0 \<le> h then (n * h) div d else - ((n * (- h)) div d))"

definition line_spacing_search :: "string \<Rightarrow> int \<Rightarrow> int" where
  "line_spacing_search l lh = (if is_cjk_language l then max 8 (frac_floor 2 5 lh) else max 5 (frac_floor 2 5 lh))"

definition block_height :: "nat \<Rightarrow> int \<Rightarrow> int \<Rightarrow> int" where
  \<comment> \<open>\<open>len(lines) * line_height + (len(lines) - 1) * line_spacing\<close>\<close>
  "block_height n lh ls = int n * lh + (int n - 1) * ls"

text \<open>Whether the text fits the box at a size: not more lines than \<open>max_lines\<close> (when it is
  given and non-zero) and a block no higher than the target height.\<close>

definition fits_at :: "font_metrics \<Rightarrow> string \<Rightarrow> int \<Rightarrow> int \<Rightarrow> string \<Rightarrow> nat option \<Rightarrow> int \<Rightarrow> bool" where
  "fits_at fm s tw th l max_lines sz =
     (let fnt = (l, sz); lines = wrap_text_for_size fm fnt l tw s in
      if (case max_lines of Some n \<Rightarrow> 0 < n \<and> n < length lines | None \<Rightarrow> False) then False
      else
        (let lh = snd (measure_text fm fnt l (if is_cjk_language l then cjk_probe else ''A''));
             ls = line_spacing_search l lh
         in block_height (length lines) lh ls \<le> th))"

text \<open>The loop \<open>while left <= right\<close>; it runs at most \<open>right - left + 1\<close> times.\<close>

function bsearch :: "(int \<Rightarrow> bool) \<Rightarrow> int \<Rightarrow> int \<Rightarrow> int \<Rightarrow> int" where
  "bsearch fits left right best =
     (if left \<le> right then
        (let mid = (left + right) div 2 in
         if fits mid then bsearch fits (mid + 1) right mid else bsearch fits left (mid - 1) best)
      else best)"
  by pat_completeness auto
termination
  by (relation "measure (\<lambda>(f, l, r, b). nat (r - l + 1))") auto

text \<open>The lower end of the search: \<open>min_size = max(min_size, 12)\<close> for CJK languages. The
  default \<open>best_size\<close> is set to the configured minimum before this adjustment.\<close>

definition search_floor :: "string \<Rightarrow> int" where
  "search_floor l = (if is_cjk_language l then max font_size_min 12 else font_size_min)"

definition find_optimal_font_size_multiline ::
  "font_metrics \<Rightarrow> string \<Rightarrow> int \<Rightarrow> int \<Rightarrow> string \<Rightarrow> nat option \<Rightarrow> int" where
  "find_optimal_font_size_multiline fm s tw th l max_lines =
     (let best = font_size_min; left = search_floor l
      in bsearch (fits_at fm s tw th l max_lines) left font_size_max best)"


subsection \<open>The font size of a box (\<open>LayoutCalculator.calculate_optimal_font_size\<close>)\<close>

datatype layout_error =
    Layout_attribute_error   \<comment> \<open>\<open>settings.default_font_size\<close>, which \<open>Settings\<close> does not define\<close>
  | Zero_division          \<comment> \<open>\<open>available_height // char_height\<close> with a zero glyph height\<close>
  | Layout_value_error     \<comment> \<open>\<open>TextDirection(direction)\<close> of a direction string that names none\<close>

text \<open>\<open>int(optimal_size * settings.font_size_multiplier * 1.1)\<close> with the multiplier at its
  setting 1.0: the floor of \<open>11/10\<close> of a non-negative size, as for the spacing factors.\<close>

definition calculate_optimal_font_size ::
  "font_metrics \<Rightarrow> string \<Rightarrow> bounding_box \<Rightarrow> string \<Rightarrow> text_direction option \<Rightarrow> layout_error + int" where
  "calculate_optimal_font_size fm s b l dir =
     (let d = (case dir of
                 Some d \<Rightarrow> d
               | None \<Rightarrow> (case language_of_value l of
                            Some lang \<Rightarrow> (case get_text_direction_for_language lang of Inr d \<Rightarrow> d | Inl _ \<Rightarrow> LTR)
                          | None \<Rightarrow> LTR))
      in if py_blank s then Inl Layout_attribute_error
         else
           (let tw = bb_width b - 4; th = bb_height b - 4;
                (tw, th) = (if d = TTB \<and> is_cjk_language l then (tw, th)
                            else if d = TTB then (th, tw) else (tw, th));
                opt = find_optimal_font_size_multiline fm s tw th l None;
                opt' = (if is_cjk_language l then frac_floor 11 10 opt else opt)
            in Inr (max font_size_min (min opt' font_size_max))))"

subsection \<open>Line positions (\<open>calculate_multiline_position\<close>)\<close>

definition calculate_multiline_position ::
  "font_metrics \<Rightarrow> string list \<Rightarrow> bounding_box \<Rightarrow> font \<Rightarrow> text_direction \<Rightarrow> string \<Rightarrow> (int \<times> int) list" where
  "calculate_multiline_position fm lines b fnt d l =
     (if lines = [] then []
      else if d = TTB \<and> is_cjk_language l then [(x2 b - 4, y1 b + 4)]
      else
        (let lh = snd (measure_text fm fnt l ''A'');
             ls = (if is_cjk_language l then max 8 (frac_floor 2 5 lh) else max 5 (frac_floor 2 5 lh));
             total = block_height (length lines) lh ls;
             start_y = y1 b + (bb_height b - total) div 2
         in map (\<lambda>(i, line). (x1 b + (bb_width b - text_width fm fnt l line) div 2, start_y + int i * (lh + ls)))
              (enumerate 0 lines)))"

text \<open>\<open>LayoutCalculator.calculate_text_position\<close>: the anchor of a single line for an
  alignment, horizontally or vertically.\<close>

definition calculate_text_position ::
  "font_metrics \<Rightarrow> string \<Rightarrow> bounding_box \<Rightarrow> font \<Rightarrow> text_direction \<Rightarrow> string \<Rightarrow> string \<Rightarrow> int \<times> int" where
  "calculate_text_position fm s b fnt d alignment l =
     (let (tw, th) = measure_text fm fnt l s;
          ycase = (\<lambda>centre. if alignment = ''top'' then y1 b + 2
                            else if alignment = ''bottom'' then y2 b - th - 2 else centre)
      in case d of
           LTR \<Rightarrow>
             (if alignment = ''left'' then x1 b + 2
              else if alignment = ''right'' then x2 b - tw - 2
              else x1 b + (bb_width b - tw) div 2,
              y1 b + (bb_height b - th) div 2)
         | TTB \<Rightarrow>
             (if is_cjk_language l then (x2 b - tw - 2, ycase (y1 b + 2))
              else (x1 b + (bb_width b - tw) div 2, ycase (y1 b + (bb_height b - th) div 2))))"

text \<open>\<open>LayoutCalculator.wrap_text_to_fit\<close>: vertical CJK text is one unwrapped line.\<close>

definition wrap_text_to_fit ::
  "font_metrics \<Rightarrow> string \<Rightarrow> bounding_box \<Rightarrow> font \<Rightarrow> text_direction \<Rightarrow> string \<Rightarrow> string list" where
  "wrap_text_to_fit fm s b fnt d l =
     (if py_blank s then []
      else if d = TTB \<and> is_cjk_language l then [s]
      else wrap_text_for_size fm fnt l (bb_width b - 4) s)"

text \<open>\<open>FontManager.get_text_layout_info\<close>: the size the search finds, the lines at that size
  and their height, with a line spacing of its own (0.3 of the line height, at least 4, except
  for Japanese and Chinese).\<close>

definition get_text_layout_info ::
  "font_metrics \<Rightarrow> string \<Rightarrow> int \<Rightarrow> int \<Rightarrow> string \<Rightarrow> int \<times> string list \<times> int" where
  "get_text_layout_info fm s tw th l =
     (let sz = find_optimal_font_size_multiline fm s tw th l None;
          fnt = (l, sz);
          lines = wrap_text_for_size fm fnt l tw s;
          lh = snd (measure_text fm fnt l (if is_cjk_language l then cjk_probe else ''A''));
          ls = (if py_lower_str l = ''korean'' then max 4 (frac_floor 3 10 lh)
                else if py_lower_str l \<in> set [''japanese'', ''sim_chinese'', ''trad_chinese''] then max 8 (frac_floor 2 5 lh)
                else max 4 (frac_floor 3 10 lh))
      in (sz, lines, block_height (length lines) lh ls))"

subsection \<open>Vertical columns\<close>

text \<open>\<open>[text[i:i + k] for i in range(0, len(text), k)]\<close> for a positive \<open>k\<close>.\<close>

definition chunks :: "nat \<Rightarrow> string \<Rightarrow> string list" where
  "chunks k s = map (\<lambda>j. take k (drop (j * k) s)) [0..<(length s + k - 1) div k]"

text \<open>\<open>LayoutCalculator.calculate_vertical_text_layout\<close>: columns of \<open>chars_per_column\<close>
  characters from the right edge leftwards; columns left of the box are dropped.\<close>

definition calculate_vertical_text_layout ::
  "font_metrics \<Rightarrow> string \<Rightarrow> bounding_box \<Rightarrow> font \<Rightarrow> string \<Rightarrow> layout_error + (string \<times> int \<times> int) list" where
  "calculate_vertical_text_layout fm s b fnt l =
     (if \<not> is_cjk_language l then Inr [(s, x1 b, y1 b)]
      else
        (let (cw, ch) = measure_text fm fnt l cjk_probe in
         if ch = 0 then Inl Zero_division
         else
           (let cpc = max 1 ((bb_height b - 8) div ch);
                columns = chunks (nat cpc) s;
                aw = bb_width b - 8;
                spacing = (if 1 < length columns then min (cw + 10) (aw div int (length columns)) else cw);
                start_x = x2 b - 4 - cw
            in Inr (filter (\<lambda>(c, x, y). x1 b \<le> x)
                   (map (\<lambda>(i, c). (c, start_x - int i * spacing, y1 b + 4)) (enumerate 0 columns))))))"


subsection \<open>Drawing (\<open>TextRenderer\<close>)\<close>

text \<open>What the renderer draws, in order: a character or a line of text at a position (the
  outline and the text itself are drawn at the same anchor).\<close>

datatype draw_op = Draw_char char int int | Draw_line string int int

definition column_gap :: "string \<Rightarrow> int" where
  "column_gap l =
     (if py_lower_str l = ''japanese'' then 20
      else if py_lower_str l \<in> set [''sim_chinese'', ''trad_chinese''] then 14 else 10)"

text \<open>One column of \<open>_render_vertical_text\<close>: whitespace is skipped but advances, and the column
  stops once the next character would pass the bottom of the box.\<close>

fun place_column :: "int \<Rightarrow> int \<Rightarrow> int \<Rightarrow> int \<Rightarrow> int \<Rightarrow> string \<Rightarrow> draw_op list" where
  "place_column x y ybot ch sp [] = []"
| "place_column x y ybot ch sp (c # cs) =
     (if py_isspace c then [] else [Draw_char c x y]) @
     (if ybot < y + sp + ch then [] else place_column x (y + sp) ybot ch sp cs)"

text \<open>The column loop: column \<open>i\<close> is drawn at \<open>start_x - i * spacing\<close>; the first column
  left of the box ends the loop.\<close>

fun place_columns :: "int \<Rightarrow> int \<Rightarrow> int \<Rightarrow> int \<Rightarrow> int \<Rightarrow> int \<Rightarrow> int \<Rightarrow> nat \<Rightarrow> string list \<Rightarrow> draw_op list" where
  "place_columns left sx spacing ytop ybot ch sp i [] = []"
| "place_columns left sx spacing ytop ybot ch sp i (col # cols) =
     (let x = sx - int i * spacing in
      if x < left then []
      else place_column x ytop ybot ch sp col @ place_columns left sx spacing ytop ybot ch sp (Suc i) cols)"

definition render_vertical_text :: "font_metrics \<Rightarrow> text_box \<Rightarrow> font \<Rightarrow> string \<Rightarrow> layout_error + draw_op list" where
  "render_vertical_text fm tb fnt l =
     (let s = translated_text tb; b = bbox tb; (cw, ch) = measure_text fm fnt l mojibake_probe in
      if ch = 0 then Inl Zero_division
      else
        (let cpc = max 1 ((bb_height b - 8) div ch);
             columns = chunks (nat cpc) s;
             aw = bb_width b - 8;
             base = cw + column_gap l;
             spacing = (if 1 < length columns then min base (aw div int (length columns)) else base);
             block_w = int (length columns) * spacing;
             start_x = x1 b + bb_width b - (bb_width b - block_w) div 2 - cw;
             sp = (if py_lower_str l = ''japanese'' then ch + 2 else ch - 1)
         in Inr (place_columns (x1 b) start_x spacing (y1 b + 4) (y2 b) ch sp 0 columns)))"

definition render_horizontal_text :: "font_metrics \<Rightarrow> text_box \<Rightarrow> font \<Rightarrow> string \<Rightarrow> draw_op list" where
  "render_horizontal_text fm tb fnt l =
     (let lines = wrap_text_for_size fm fnt l (bb_width (bbox tb) - 4) (translated_text tb);
          positions = calculate_multiline_position fm lines (bbox tb) fnt LTR ''english''
      in map (\<lambda>(line, (x, y)). Draw_line line x y) (zip lines positions))"

definition render_text :: "font_metrics \<Rightarrow> text_box \<Rightarrow> language \<Rightarrow> layout_error + draw_op list" where
  "render_text fm tb lang =
     (let l = language_value lang in
      case get_text_direction_for_language lang of
        Inl _ \<Rightarrow> Inl Layout_value_error
      | Inr d \<Rightarrow>
          (case calculate_optimal_font_size fm (translated_text tb) (bbox tb) l (Some d) of
             Inl e \<Rightarrow> Inl e
           | Inr sz \<Rightarrow>
               (if d = TTB \<and> is_cjk_language l then render_vertical_text fm tb (l, sz) l
                else Inr (render_horizontal_text fm tb (l, sz) l))))"

subsection \<open>Overlap resolution (\<open>optimize_text_layout\<close>)\<close>

definition boxes_overlap :: "bounding_box \<Rightarrow> bounding_box \<Rightarrow> bool" where
  "boxes_overlap b1 b2 \<longleftrightarrow> \<not> (x2 b1 < x1 b2 \<or> x2 b2 < x1 b1 \<or> y2 b1 < y1 b2 \<or> y2 b2 < y1 b1)"

definition shift_box :: "bounding_box \<Rightarrow> int \<times> int \<Rightarrow> bounding_box" where
  "shift_box b m = mk_bbox (x1 b + fst m) (y1 b + snd m) (x2 b + fst m) (y2 b + snd m)"

definition inside_image :: "int \<Rightarrow> int \<Rightarrow> bounding_box \<Rightarrow> bool" where
  "inside_image w h b \<longleftrightarrow> 0 \<le> x1 b \<and> x2 b \<le> w \<and> 0 \<le> y1 b \<and> y2 b \<le> h"

definition resolve_overlap :: "bounding_box \<Rightarrow> bounding_box \<Rightarrow> int \<Rightarrow> int \<Rightarrow> bounding_box" where
  "resolve_overlap b1 b2 w h =
     (let movements = [(0, y2 b2 - y1 b1 + 5), (0, y1 b2 - y2 b1 - 5),
                       (x2 b2 - x1 b1 + 5, 0), (x1 b2 - x2 b1 - 5, 0)]
      in case find (\<lambda>m. inside_image w h (shift_box b1 m)) movements of
           Some m \<Rightarrow> shift_box b1 m
         | None \<Rightarrow> b1)"

definition adjust_against :: "int \<Rightarrow> int \<Rightarrow> text_box list \<Rightarrow> text_box \<Rightarrow> text_box" where
  \<comment> \<open>\<open>for existing_box in optimized_boxes\<close>: each placed box, in order, may move the new one\<close>
  "adjust_against w h placed tb =
     fold (\<lambda>e a. if boxes_overlap (bbox a) (bbox e) then a\<lparr>bbox := resolve_overlap (bbox a) (bbox e) w h\<rparr> else a)
          placed tb"

fun optimize_loop :: "int \<Rightarrow> int \<Rightarrow> text_box list \<Rightarrow> text_box list \<Rightarrow> text_box list" where
  "optimize_loop w h placed [] = placed"
| "optimize_loop w h placed (tb # tbs) = optimize_loop w h (placed @ [adjust_against w h placed tb]) tbs"

definition optimize_text_layout :: "text_box list \<Rightarrow> int \<Rightarrow> int \<Rightarrow> text_box list" where
  "optimize_text_layout tbs w h = (if length tbs \<le> 1 then tbs else optimize_loop w h [] tbs)"


subsection \<open>Reference specifications\<close>

text \<open>The size the search is meant to find: the largest size of \<open>[lo, hi]\<close> that fits, found by
  trying the sizes from the top down, or the default when none fits.\<close>

definition largest_fit :: "(int \<Rightarrow> bool) \<Rightarrow> int \<Rightarrow> int \<Rightarrow> int \<Rightarrow> int" where
  "largest_fit fits lo hi dflt = (case find fits (rev [lo..hi]) of Some s \<Rightarrow> s | None \<Rightarrow> dflt)"

text \<open>Fitting is downward closed on \<open>[lo, hi]\<close>: whenever a size fits, the next smaller one fits.\<close>

definition downward_closed_on :: "(int \<Rightarrow> bool) \<Rightarrow> int \<Rightarrow> int \<Rightarrow> bool" where
  "downward_closed_on fits lo hi \<longleftrightarrow> (\<forall>a \<in> set [lo..hi - 1]. fits (a + 1) \<longrightarrow> fits a)"

subsection \<open>Analysis devices\<close>

text \<open>The search loop with an iteration budget: \<open>None\<close> when the budget runs out before
  \<open>left > right\<close>.\<close>

fun bsearch_fuel :: "nat \<Rightarrow> (int \<Rightarrow> bool) \<Rightarrow> int \<Rightarrow> int \<Rightarrow> int \<Rightarrow> int option" where
  "bsearch_fuel 0 fits left right best = (if left \<le> right then None else Some best)"
| "bsearch_fuel (Suc n) fits left right best =
     (if left \<le> right then
        (let mid = (left + right) div 2 in
         if fits mid then bsearch_fuel n fits (mid + 1) right mid else bsearch_fuel n fits left (mid - 1) best)
      else Some best)"

text \<open>The word-preservation invariant of the Latin wrap: no finished line is blank, and
  neither is the current line once it is non-empty.\<close>

definition split_ok :: "string list \<Rightarrow> string \<Rightarrow> bool" where
  "split_ok lines cur \<longleftrightarrow> (\<forall>x \<in> set lines. py_split x \<noteq> []) \<and> (cur \<noteq> [] \<longrightarrow> py_split cur \<noteq> [])"



section \<open>Properties\<close>

declare bsearch.simps [simp del]

lemma wrap_cjk_loop_concat:
  "concat (wrap_cjk_loop fm fnt l tw cur cs) = cur @ cs \<and> [] \<notin> set (wrap_cjk_loop fm fnt l tw cur cs)"
  by (induction cs arbitrary: cur) (auto simp: Let_def)


lemma downward_closed_onD:
  assumes dc: "downward_closed_on fits lo hi" and "lo \<le> a"
  shows "a \<le> b \<Longrightarrow> b \<le> hi \<Longrightarrow> fits b \<Longrightarrow> fits a"
proof (induction "nat (b - a)" arbitrary: b)
  case 0
  then have "a = b" by simp
  then show ?case using "0.prems"(3) by simp
next
  case (Suc k)
  have b1: "b - 1 \<in> set [lo..hi - 1]" using Suc.hyps(2) Suc.prems(2) \<open>lo \<le> a\<close> by simp
  have "fits (b - 1 + 1) \<longrightarrow> fits (b - 1)" using dc b1 unfolding downward_closed_on_def by blast
  then have f: "fits (b - 1)" using Suc.prems(3) by simp
  have "k = nat (b - 1 - a)" using Suc.hyps(2) by simp
  then show ?case using Suc.hyps(1) [of "b - 1"] Suc.hyps(2) Suc.prems(2) f by simp
qed

lemma find_append_conv: "find P (xs @ ys) = (case find P xs of None \<Rightarrow> find P ys | Some x \<Rightarrow> Some x)"
  by (induction xs) auto

lemma find_rev_upto_Some:
  assumes "lo \<le> r" "r \<le> hi" "fits r" "\<forall>s. r < s \<and> s \<le> hi \<longrightarrow> \<not> fits s"
  shows "find fits (rev [lo..hi]) = Some r"
proof -
  have split: "[lo..hi] = [lo..r] @ [r + 1..hi]" using assms(1,2) by (rule upto_split2)
  have "find fits (rev [r + 1..hi]) = None" using assms(4) by (auto simp: find_None_iff)
  moreover have "rev [lo..r] = r # rev [lo..r - 1]" using assms(1) by (simp add: upto_rec2)
  ultimately show ?thesis using assms(3) by (simp add: split find_append_conv)
qed

lemma find_rev_upto_None:
  "\<forall>s. lo \<le> s \<and> s \<le> hi \<longrightarrow> \<not> fits s \<Longrightarrow> find fits (rev [lo..hi]) = None"
  by (auto simp: find_None_iff)



lemma bsearch_invariant:
  shows "\<forall>a b. lo \<le> a \<longrightarrow> a \<le> b \<longrightarrow> b \<le> hi \<longrightarrow> fits b \<longrightarrow> fits a \<Longrightarrow> lo \<le> left \<Longrightarrow> right \<le> hi \<Longrightarrow> left \<le> right + 1 \<Longrightarrow>
    \<forall>s. lo \<le> s \<and> s < left \<longrightarrow> fits s \<Longrightarrow> \<forall>s. right < s \<and> s \<le> hi \<longrightarrow> \<not> fits s \<Longrightarrow>
    best = (if lo < left then left - 1 else dflt) \<Longrightarrow>
    bsearch fits left right best = largest_fit fits lo hi dflt"
proof (induction fits left right best rule: bsearch.induct)
  case (1 fits left right best)
  show ?case
  proof (cases "left \<le> right")
    case False
    then have lr: "left = right + 1" using "1.prems"(4) by simp
    show ?thesis
    proof (cases "lo < left")
      case True
      then have "find fits (rev [lo..hi]) = Some right"
        using "1.prems" lr by (intro find_rev_upto_Some) auto
      then show ?thesis using False True lr "1.prems"(7) by (simp add: bsearch.simps largest_fit_def)
    next
      case False
      then have "find fits (rev [lo..hi]) = None"
        using "1.prems" lr by (intro find_rev_upto_None) auto
      then show ?thesis using \<open>\<not> left \<le> right\<close> False "1.prems"(7) by (simp add: bsearch.simps largest_fit_def)
    qed
  next
    case True
    define mid where "mid = (left + right) div 2"
    have m: "left \<le> mid" "mid \<le> right" using True by (auto simp: mid_def)
    show ?thesis
    proof (cases "fits mid")
      case fm: True
      have "fits s" if "lo \<le> s" "s < mid + 1" for s
      proof (cases "s < left")
        case True
        then show ?thesis using "1.prems"(5) that by simp
      next
        case False
        then show ?thesis using "1.prems"(1) [rule_format, of s mid] fm m "1.prems"(3) that by simp
      qed
      then have "\<forall>s. lo \<le> s \<and> s < mid + 1 \<longrightarrow> fits s" by blast
      then have "bsearch fits (mid + 1) right mid = largest_fit fits lo hi dflt"
        using "1.IH"(1) [OF True mid_def fm] "1.prems" m by auto
      then show ?thesis using True fm by (simp add: bsearch.simps [of fits left right] mid_def Let_def)
    next
      case fm: False
      have "\<not> fits s" if "mid - 1 < s" "s \<le> hi" for s
      proof (cases "right < s")
        case True
        then show ?thesis using "1.prems"(6) that by simp
      next
        case False
        then show ?thesis using "1.prems"(1) [rule_format, of mid s] fm m "1.prems"(2) that by auto
      qed
      then have "\<forall>s. mid - 1 < s \<and> s \<le> hi \<longrightarrow> \<not> fits s" by blast
      then have "bsearch fits left (mid - 1) best = largest_fit fits lo hi dflt"
        using "1.IH"(2) [OF True mid_def fm] "1.prems" m by auto
      then show ?thesis using True fm by (simp add: bsearch.simps [of fits left right] mid_def Let_def)
    qed
  qed
qed

lemma bsearch_none_fit:
  "\<forall>s. left \<le> s \<and> s \<le> right \<longrightarrow> \<not> fits s \<Longrightarrow> bsearch fits left right best = best"
proof (induction fits left right best rule: bsearch.induct)
  case (1 fits left right best)
  show ?case
  proof (cases "left \<le> right")
    case True
    define mid where "mid = (left + right) div 2"
    have m: "left \<le> mid" "mid \<le> right" using True by (auto simp: mid_def)
    then have "\<not> fits mid" using "1.prems" by simp
    moreover have "bsearch fits left (mid - 1) best = best"
      using "1.IH"(2) [OF True mid_def] "1.prems" m \<open>\<not> fits mid\<close> by auto
    ultimately show ?thesis using True by (simp add: bsearch.simps [of fits left right] mid_def Let_def)
  next
    case False
    then show ?thesis by (simp add: bsearch.simps)
  qed
qed

lemma bsearch_largest_fit:
  assumes "downward_closed_on fits lo hi" "lo \<le> hi + 1"
  shows "bsearch fits lo hi dflt = largest_fit fits lo hi dflt"
proof -
  have "\<forall>s. hi < s \<and> s \<le> hi \<longrightarrow> \<not> fits s" by auto
  moreover have "\<forall>a b. lo \<le> a \<longrightarrow> a \<le> b \<longrightarrow> b \<le> hi \<longrightarrow> fits b \<longrightarrow> fits a"
    using downward_closed_onD [OF assms(1)] by blast
  ultimately show ?thesis using bsearch_invariant [of lo hi fits lo hi dflt dflt] assms(2) by simp
qed

lemma largest_fit_Max:
  "largest_fit f lo hi d =
   (if \<exists>s. lo \<le> s \<and> s \<le> hi \<and> f s then Max {s. lo \<le> s \<and> s \<le> hi \<and> f s} else d)"
proof (cases "\<exists>s. lo \<le> s \<and> s \<le> hi \<and> f s")
  case True
  let ?S = "{s. lo \<le> s \<and> s \<le> hi \<and> f s}"
  have sub: "?S \<subseteq> {lo..hi}" by (simp add: subset_eq)
  have fin: "finite ?S" using finite_subset [OF sub] by simp
  have ne: "?S \<noteq> {}" using True by blast
  have "Max ?S \<in> ?S" using Max_in [OF fin ne] .
  moreover have "\<not> f s" if "Max ?S < s" "s \<le> hi" for s
  proof
    assume "f s"
    moreover have "lo \<le> s" using \<open>Max ?S \<in> ?S\<close> that(1) by simp
    ultimately have "s \<le> Max ?S" using Max_ge [OF fin] that(2) by blast
    then show False using that(1) by simp
  qed
  ultimately have "find f (rev [lo..hi]) = Some (Max ?S)"
    using find_rev_upto_Some [of lo "Max ?S" hi f] by blast
  then show ?thesis unfolding if_P [OF True] by (simp add: largest_fit_def)
next
  case False
  then have "find f (rev [lo..hi]) = None" by (intro find_rev_upto_None) blast
  then show ?thesis unfolding if_not_P [OF False] by (simp add: largest_fit_def)
qed

lemma largest_fit_mono:
  assumes "\<forall>s. f s \<longrightarrow> g s" "d \<le> lo"
  shows "largest_fit f lo hi d \<le> largest_fit g lo hi d"
proof -
  let ?F = "{s. lo \<le> s \<and> s \<le> hi \<and> f s}" and ?G = "{s. lo \<le> s \<and> s \<le> hi \<and> g s}"
  have subG: "?G \<subseteq> {lo..hi}" by (simp add: subset_eq)
  have finG: "finite ?G" using finite_subset [OF subG] by simp
  show ?thesis
  proof (cases "\<exists>s. lo \<le> s \<and> s \<le> hi \<and> f s")
    case True
    then have gG: "\<exists>s. lo \<le> s \<and> s \<le> hi \<and> g s" using assms(1) by blast
    have "?F \<subseteq> ?G" "?F \<noteq> {}" using assms(1) True by auto
    then have "Max ?F \<le> Max ?G" by (rule Max_mono [OF _ _ finG])
    moreover have "largest_fit f lo hi d = Max ?F" by (subst largest_fit_Max) (rule if_P [OF True])
    moreover have "largest_fit g lo hi d = Max ?G" by (subst largest_fit_Max) (rule if_P [OF gG])
    ultimately show ?thesis by simp
  next
    case False
    show ?thesis
    proof (cases "\<exists>s. lo \<le> s \<and> s \<le> hi \<and> g s")
      case True
      then have "Max ?G \<in> ?G" using Max_in finG by blast
      moreover have "largest_fit f lo hi d = d" by (subst largest_fit_Max) (rule if_not_P [OF False])
      moreover have "largest_fit g lo hi d = Max ?G" by (subst largest_fit_Max) (rule if_P [OF True])
      ultimately show ?thesis using assms(2) by simp
    next
      case gF: False
      have "largest_fit f lo hi d = d" by (subst largest_fit_Max) (rule if_not_P [OF False])
      moreover have "largest_fit g lo hi d = d" by (subst largest_fit_Max) (rule if_not_P [OF gF])
      ultimately show ?thesis by simp
    qed
  qed
qed



lemma if_le_mono: "th \<le> th' \<Longrightarrow> (if c then False else (x::int) \<le> th) \<Longrightarrow> (if c then False else x \<le> th')"
  by auto

lemma fits_at_height_mono: "th \<le> th' \<Longrightarrow> fits_at fm s tw th l ml sz \<Longrightarrow> fits_at fm s tw th' l ml sz"
  unfolding fits_at_def Let_def by (rule if_le_mono)

lemma search_floor_bounds: "font_size_min \<le> search_floor l" "search_floor l \<le> font_size_max + 1"
  by (simp_all add: search_floor_def font_size_min_def font_size_max_def)

text \<open>
  C4. When fitting is downward closed on the searched range, the binary search of
  \<open>find_optimal_font_size_multiline\<close> returns exactly the largest fitting size of
  \<open>[min_size, max_size]\<close> (with the CJK floor), or \<open>font_size_min\<close> when none fits.\<close>

theorem find_optimal_font_size_largest_fit:
  "downward_closed_on (fits_at fm s tw th l ml) (search_floor l) font_size_max \<Longrightarrow>
   find_optimal_font_size_multiline fm s tw th l ml =
   largest_fit (fits_at fm s tw th l ml) (search_floor l) font_size_max font_size_min"
  unfolding find_optimal_font_size_multiline_def Let_def
  by (rule bsearch_largest_fit [OF _ search_floor_bounds(2)])

text \<open>
  C23. A taller target never gives a smaller font size, when fitting is downward closed
  at both heights.\<close>

theorem font_size_monotone_in_height:
  assumes "th \<le> th'"
    and "downward_closed_on (fits_at fm s tw th l ml) (search_floor l) font_size_max"
    and "downward_closed_on (fits_at fm s tw th' l ml) (search_floor l) font_size_max"
  shows "find_optimal_font_size_multiline fm s tw th l ml \<le> find_optimal_font_size_multiline fm s tw th' l ml"
proof -
  have "largest_fit (fits_at fm s tw th l ml) (search_floor l) font_size_max font_size_min \<le>
        largest_fit (fits_at fm s tw th' l ml) (search_floor l) font_size_max font_size_min"
    using fits_at_height_mono [OF assms(1)] search_floor_bounds(1) by (intro largest_fit_mono) auto
  then show ?thesis
    unfolding find_optimal_font_size_multiline_def Let_def
    using bsearch_largest_fit [OF assms(2) search_floor_bounds(2)] bsearch_largest_fit [OF assms(3) search_floor_bounds(2)]
    by simp
qed

text \<open>
  C26. For a CJK language, when no size from 12 to 30 fits, the font size of a box is 6:
  the default \<open>best_size\<close> is taken before the CJK floor of 12 is applied, so the result lies
  below that floor.\<close>

theorem calculate_optimal_font_size_cjk_floor:
  assumes "is_cjk_language l" "\<not> py_blank s"
    and "\<forall>sz \<in> set [12..30]. \<not> fits_at fm s (bb_width b - 4) (bb_height b - 4) l None sz"
  shows "calculate_optimal_font_size fm s b l dir = Inr 6"
proof -
  have "\<forall>sz. 12 \<le> sz \<and> sz \<le> 30 \<longrightarrow> \<not> fits_at fm s (bb_width b - 4) (bb_height b - 4) l None sz"
    using assms(3) unfolding set_upto by simp
  then have "bsearch (fits_at fm s (bb_width b - 4) (bb_height b - 4) l None) 12 30 6 = 6"
    by (rule bsearch_none_fit)
  then have "find_optimal_font_size_multiline fm s (bb_width b - 4) (bb_height b - 4) l None = 6"
    using assms(1) by (simp add: find_optimal_font_size_multiline_def search_floor_def font_size_min_def
        font_size_max_def)
  then show ?thesis
    using assms(1,2) by (simp add: calculate_optimal_font_size_def Let_def frac_floor_def font_size_min_def
        font_size_max_def)
qed

lemma latin_loop_words:
  "\<forall>w \<in> set ws. py_split w = [w] \<and> text_width fm fnt l w \<le> tw \<Longrightarrow> split_ok lines cur \<Longrightarrow>
   latin_loop fm fnt l tw lines cur ws = (lines', cur') \<Longrightarrow>
   concat (map py_split lines') @ py_split cur' = concat (map py_split lines) @ py_split cur @ ws
   \<and> split_ok lines' cur'"
proof (induction ws arbitrary: lines cur)
  case Nil
  then show ?case by simp
next
  case (Cons w ws)
  have w: "py_split w = [w]" "text_width fm fnt l w \<le> tw" using Cons.prems(1) by simp_all
  let ?t = "py_strip (cur @ '' '' @ w)"
  have t: "py_split ?t = py_split cur @ [w]" by (simp only: py_split_strip py_split_space_append w(1))
  show ?case
  proof (cases "text_width fm fnt l ?t \<le> tw")
    case True
    then have "latin_loop fm fnt l tw lines ?t ws = (lines', cur')" using Cons.prems(3) by (simp add: Let_def)
    moreover have "split_ok lines ?t" using Cons.prems(2) t by (simp add: split_ok_def)
    ultimately show ?thesis using Cons.IH [of lines ?t] Cons.prems(1) t by simp
  next
    case False
    let ?l1 = "if cur = [] then lines else lines @ [cur]"
    have "latin_loop fm fnt l tw ?l1 w ws = (lines', cur')"
      using Cons.prems(3) False w(2) by (simp add: Let_def)
    moreover have "split_ok ?l1 w" using Cons.prems(2) w(1) by (simp add: split_ok_def)
    moreover have "concat (map py_split ?l1) = concat (map py_split lines) @ py_split cur"
      by (simp add: py_split_def)
    ultimately show ?thesis using Cons.IH [of ?l1 w] Cons.prems(1) w(1) by simp
  qed
qed

lemma concat_map_py_split_words:
  "\<forall>w \<in> set xs. py_split w = [w] \<Longrightarrow> concat (map py_split xs) = xs"
  by (induction xs) simp_all

lemma bottom_line_rule_words:
  assumes ne: "\<forall>x \<in> set lines. py_split x \<noteq> []"
  shows "concat (map py_split (bottom_line_rule lines)) = concat (map py_split lines)"
proof (cases "1 < length lines")
  case True
  let ?ws = "py_split (last lines)"
  have nn: "lines \<noteq> []" using True by auto
  have lines: "lines = butlast lines @ [last lines]" using nn by simp
  have "last lines \<in> set lines" using nn by simp
  then have ws: "?ws \<noteq> []" using ne by blast
  have words: "\<forall>w \<in> set (butlast ?ws). py_split w = [w]"
    by (auto dest: in_set_butlastD py_split_of_split)
  have lw: "py_split (last ?ws) = [last ?ws]" using ws by (rule py_split_of_split [OF last_in_set])
  have bl: "py_split (py_join '' '' (butlast ?ws)) = butlast ?ws"
    by (simp add: py_split_join_space concat_map_py_split_words [OF words])
  have whole: "concat (map py_split lines) = concat (map py_split (butlast lines)) @ butlast ?ws @ [last ?ws]"
    using ws by (subst lines) simp
  let ?l' = "butlast lines @ [py_join '' '' (butlast ?ws), last ?ws]"
  have idx: "?l' ! (length ?l' - 2) = py_join '' '' (butlast ?ws)" by (simp add: nth_append)
  have tk: "take (length ?l' - 2) ?l' @ [last ?l'] = butlast lines @ [last ?ws]" by simp
  show ?thesis
  proof (cases "length (last ?ws) \<le> 10 \<and> CHR '' '' \<in> set (last lines)")
    case c: True
    show ?thesis
    proof (cases "py_blank (py_join '' '' (butlast ?ws))")
      case b: True
      then have "butlast ?ws = []" using bl by (simp add: py_split_blank)
      then show ?thesis using True c b idx tk whole lw
        unfolding bottom_line_rule_def Let_def by simp
    next
      case b: False
      then show ?thesis using True c idx whole lw bl
        unfolding bottom_line_rule_def Let_def by simp
    qed
  next
    case False
    then show ?thesis unfolding bottom_line_rule_def Let_def if_P [OF True] if_not_P [OF False] by simp
  qed
next
  case False
  then show ?thesis by (simp add: bottom_line_rule_def)
qed

lemma wrap_latin_text_words:
  assumes fit: "\<forall>w \<in> set (py_split s). text_width fm fnt l w \<le> tw"
  shows "concat (map py_split (wrap_latin_text fm fnt l tw s)) = py_split s"
proof -
  obtain lines cur where lc: "latin_loop fm fnt l tw [] [] (py_split s) = (lines, cur)"
    by (cases "latin_loop fm fnt l tw [] [] (py_split s)")
  have "\<forall>w \<in> set (py_split s). py_split w = [w] \<and> text_width fm fnt l w \<le> tw"
    using fit by (simp add: py_split_of_split)
  then have inv: "concat (map py_split lines) @ py_split cur = py_split s \<and> split_ok lines cur"
    using latin_loop_words [OF _ _ lc] by (simp add: split_ok_def py_split_def)
  let ?l' = "if cur = [] then lines else lines @ [cur]"
  have ne: "\<forall>x \<in> set ?l'. py_split x \<noteq> []" using inv by (simp add: split_ok_def)
  have "concat (map py_split ?l') = py_split s" using inv by (cases "cur = []") (simp_all add: py_split_def)
  then show ?thesis using bottom_line_rule_words [OF ne] lc by (simp add: wrap_latin_text_def)
qed

text \<open>
  C7. For a non-CJK language, when every word of the text fits the target width,
  \<open>wrap_text_for_size\<close> keeps the words: joining its lines with spaces and splitting again gives
  the words of the input, in order.\<close>

theorem wrap_text_for_size_words:
  "\<not> is_cjk_language l \<Longrightarrow> \<forall>w \<in> set (py_split s). text_width fm fnt l w \<le> tw \<Longrightarrow>
   py_split (py_join '' '' (wrap_text_for_size fm fnt l tw s)) = py_split s"
  by (auto simp: wrap_text_for_size_def py_split_join_space wrap_latin_text_words py_split_blank)

text \<open>
  C19. For a CJK language and a non-blank text, the lines of \<open>wrap_text_for_size\<close>
  concatenate back to the text, whitespace included, and none of them is empty.\<close>

theorem wrap_text_for_size_cjk:
  "is_cjk_language l \<Longrightarrow> \<not> py_blank s \<Longrightarrow>
   concat (wrap_text_for_size fm fnt l tw s) = s \<and> [] \<notin> set (wrap_text_for_size fm fnt l tw s)"
  by (simp add: wrap_text_for_size_def wrap_cjk_text_def wrap_cjk_loop_concat)

lemma place_column_x: "Draw_char c x' y' \<in> set (place_column x y ybot ch sp cs) \<Longrightarrow> x' = x"
  by (induction cs arbitrary: y) (auto split: if_splits)

lemma place_columns_left: "Draw_char c x y \<in> set (place_columns left sx spacing ytop ybot ch sp i cols) \<Longrightarrow> left \<le> x"
proof (induction cols arbitrary: i)
  case Nil
  then show ?case by simp
next
  case (Cons col cols)
  then show ?case by (auto simp: Let_def split: if_splits dest: place_column_x)
qed

lemma render_horizontal_no_char: "Draw_char c x y \<notin> set (render_horizontal_text fm tb fnt l)"
  by (auto simp: render_horizontal_text_def Let_def)

text \<open>
  C8. Every character that \<open>TextRenderer.render_text\<close> draws (the vertical CJK layout)
  is drawn at an x position at or right of the left edge of the box.\<close>

theorem render_text_char_inside:
  "render_text fm tb lang = Inr ops \<Longrightarrow> Draw_char c x y \<in> set ops \<Longrightarrow> x1 (bbox tb) \<le> x"
  unfolding render_text_def render_vertical_text_def Let_def
  by (auto split: sum.splits if_splits prod.splits dest: place_columns_left simp: render_horizontal_no_char)

lemma get_text_direction_total: "\<exists>d. get_text_direction_for_language lang = Inr d"
  by (cases lang) (simp_all add: get_text_direction_for_language_def text_directions_def)

lemma render_text_total:
  assumes "\<not> py_blank (translated_text tb)" and "\<forall>f. 0 < cjk_line_height fm f"
  shows "\<exists>ops. render_text fm tb lang = Inr ops"
proof -
  obtain d where d: "get_text_direction_for_language lang = Inr d" using get_text_direction_total by blast
  have "\<exists>sz. calculate_optimal_font_size fm (translated_text tb) (bbox tb) (language_value lang) (Some d) = Inr sz"
    using assms(1) by (simp add: calculate_optimal_font_size_def Let_def split: prod.split)
  then obtain sz where sz: "calculate_optimal_font_size fm (translated_text tb) (bbox tb) (language_value lang) (Some d) = Inr sz" ..
  have "\<exists>ops. render_vertical_text fm tb (language_value lang, sz) (language_value lang) = Inr ops"
    if "is_cjk_language (language_value lang)"
    using that spec [OF assms(2), of "(language_value lang, sz)"] by (simp add: render_vertical_text_def measure_text_def Let_def split: prod.split)
  then show ?thesis by (auto simp: render_text_def d sz Let_def)
qed

lemma calculate_multiline_position_length:
  "\<not> (d = TTB \<and> is_cjk_language l) \<Longrightarrow> length (calculate_multiline_position fm lines b fnt d l) = length lines"
  by (auto simp: calculate_multiline_position_def Let_def)

text \<open>
  In the horizontal layout each line is centred in its box: a line no wider than
  the box starts at or right of the left edge and ends at or left of the right edge.\<close>

theorem calculate_multiline_position_centred:
  assumes "\<not> (d = TTB \<and> is_cjk_language l)" and "i < length lines"
    and "0 \<le> text_width fm fnt l (lines ! i)" and "text_width fm fnt l (lines ! i) \<le> bb_width b"
  shows "x1 b \<le> fst (calculate_multiline_position fm lines b fnt d l ! i)
    \<and> fst (calculate_multiline_position fm lines b fnt d l ! i) + text_width fm fnt l (lines ! i) \<le> x2 b"
proof -
  let ?w = "text_width fm fnt l (lines ! i)"
  have "fst (calculate_multiline_position fm lines b fnt d l ! i) = x1 b + (bb_width b - ?w) div 2"
    using assms(1,2) by (auto simp: calculate_multiline_position_def Let_def enumerate_eq_zip)
  moreover have "0 \<le> (bb_width b - ?w) div 2" "(bb_width b - ?w) div 2 \<le> bb_width b - ?w"
    using assms(4) by simp_all
  ultimately show ?thesis by (simp add: bb_width_def)
qed

lemma shift_box_dims [simp]:
  "bb_width (shift_box b m) = bb_width b" "bb_height (shift_box b m) = bb_height b"
  by (simp_all add: shift_box_def mk_bbox_def bb_width_def bb_height_def)

text \<open>
  C34. \<open>_resolve_overlap\<close> either leaves the box where it is or moves it, at the same
  size, to a position inside the image that no longer overlaps the other box.\<close>

theorem resolve_overlap_sound:
  "resolve_overlap b1 b2 w h = b1
   \<or> (inside_image w h (resolve_overlap b1 b2 w h) \<and> \<not> boxes_overlap (resolve_overlap b1 b2 w h) b2
      \<and> bb_width (resolve_overlap b1 b2 w h) = bb_width b1 \<and> bb_height (resolve_overlap b1 b2 w h) = bb_height b1)"
proof -
  let ?movs = "[(0, y2 b2 - y1 b1 + 5), (0, y1 b2 - y2 b1 - 5), (x2 b2 - x1 b1 + 5, 0), (x1 b2 - x2 b1 - 5, 0)]"
  have sep: "\<not> boxes_overlap (shift_box b1 m) b2" if "m \<in> set ?movs" for m
    using that by (auto simp: boxes_overlap_def shift_box_def mk_bbox_def)
  show ?thesis
  proof (cases "find (\<lambda>m. inside_image w h (shift_box b1 m)) ?movs")
    case None
    then show ?thesis by (simp add: resolve_overlap_def)
  next
    case (Some m)
    then have "m \<in> set ?movs \<and> inside_image w h (shift_box b1 m)" by (rule find_SomeD')
    then show ?thesis using Some sep by (simp add: resolve_overlap_def)
  qed
qed

lemma adjust_against_frame:
  "box_text (adjust_against w h placed tb) = box_text tb \<and> translated_text (adjust_against w h placed tb) = translated_text tb"
  unfolding adjust_against_def by (induction placed arbitrary: tb) auto

lemma optimize_loop_frame:
  "map box_text (optimize_loop w h placed tbs) = map box_text placed @ map box_text tbs
   \<and> map translated_text (optimize_loop w h placed tbs) = map translated_text placed @ map translated_text tbs"
  by (induction w h placed tbs rule: optimize_loop.induct) (simp_all add: adjust_against_frame)

lemma optimize_text_layout_frame:
  "map box_text (optimize_text_layout tbs w h) = map box_text tbs
   \<and> map translated_text (optimize_text_layout tbs w h) = map translated_text tbs"
  by (simp add: optimize_text_layout_def optimize_loop_frame)

lemma resolve_overlap_dims:
  "bb_width (resolve_overlap b1 b2 w h) = bb_width b1 \<and> bb_height (resolve_overlap b1 b2 w h) = bb_height b1"
  by (simp add: resolve_overlap_def Let_def split: option.split)

lemma adjust_against_wf: "bbox_wf (bbox tb) \<Longrightarrow> bbox_wf (bbox (adjust_against w h placed tb))"
  unfolding adjust_against_def
  by (induction placed arbitrary: tb) (simp_all add: bbox_wf_dims resolve_overlap_dims)

lemma optimize_loop_wf:
  "\<forall>b \<in> set placed. bbox_wf (bbox b) \<Longrightarrow> \<forall>b \<in> set tbs. bbox_wf (bbox b) \<Longrightarrow>
   \<forall>b \<in> set (optimize_loop w h placed tbs). bbox_wf (bbox b)"
  by (induction w h placed tbs rule: optimize_loop.induct) (simp_all add: adjust_against_wf)

text \<open>
  C35. \<open>optimize_text_layout\<close> keeps every box well formed: when every input box has
  \<open>x1 < x2\<close> and \<open>y1 < y2\<close>, so has every box it returns (a moved box keeps its size).\<close>

theorem optimize_text_layout_wf:
  "\<forall>b \<in> set tbs. bbox_wf (bbox b) \<Longrightarrow> \<forall>b \<in> set (optimize_text_layout tbs w h). bbox_wf (bbox b)"
  using optimize_loop_wf [of "[]" tbs w h] by (simp add: optimize_text_layout_def)

text \<open>\<open>optimize_text_layout\<close> does not remove every overlap: a box moved away from
  one earlier box is not checked again against the earlier boxes, so three boxes where the
  first and third are apart end with the third overlapping the first.\<close>

theorem optimize_text_layout_leaves_overlap:
  "\<not> boxes_overlap (mk_bbox 0 10 20 25) (mk_bbox 0 30 20 50)
   \<and> boxes_overlap (bbox (optimize_text_layout [mk_text_box [] (mk_bbox 0 30 20 50), mk_text_box [] (mk_bbox 0 0 20 20),
        mk_text_box [] (mk_bbox 0 10 20 25)] 100 100 ! 2))
      (bbox (optimize_text_layout [mk_text_box [] (mk_bbox 0 30 20 50), mk_text_box [] (mk_bbox 0 0 20 20),
        mk_text_box [] (mk_bbox 0 10 20 25)] 100 100 ! 0))"
  by code_simp

text \<open>The vertical renderer drops text: the loop stops at the first column that starts
  left of the box, so here the sixth character of a six-character text is not drawn.\<close>

theorem render_vertical_drops_column:
  "render_text \<lparr>text_bbox = (\<lambda>(l, sz) t. (sz * int (length t), sz)), cjk_line_height = (\<lambda>(l, sz). sz)\<rparr>
     \<lparr>box_text = [], bbox = mk_bbox 0 0 300 60, translated_text = [CHR 0xC0, CHR 0xC1, CHR 0xC2, CHR 0xC3, CHR 0xC4, CHR 0xC5]\<rparr>
     Japanese
   = Inr [Draw_char (CHR 0xC0) 204 4, Draw_char (CHR 0xC1) 156 4, Draw_char (CHR 0xC2) 108 4,
          Draw_char (CHR 0xC3) 60 4, Draw_char (CHR 0xC4) 12 4]"
  by code_simp

theorem render_text_char_inside_witness:
  "render_text \<lparr>text_bbox = (\<lambda>(l, sz) t. (sz * int (length t), sz)), cjk_line_height = (\<lambda>(l, sz). sz)\<rparr>
     \<lparr>box_text = [], bbox = mk_bbox 0 0 200 100, translated_text = [CHR 0xC0, CHR 0xC1, CHR 0xC2]\<rparr> Japanese
   = Inr [Draw_char (CHR 0xC0) 65 4, Draw_char (CHR 0xC1) 65 36, Draw_char (CHR 0xC2) 65 68]
   \<and> 0 \<le> (65::int)"
proof -
  have r: "render_text \<lparr>text_bbox = (\<lambda>(l, sz) t. (sz * int (length t), sz)), cjk_line_height = (\<lambda>(l, sz). sz)\<rparr>
     \<lparr>box_text = [], bbox = mk_bbox 0 0 200 100, translated_text = [CHR 0xC0, CHR 0xC1, CHR 0xC2]\<rparr> Japanese
   = Inr [Draw_char (CHR 0xC0) 65 4, Draw_char (CHR 0xC1) 65 36, Draw_char (CHR 0xC2) 65 68]"
    by code_simp
  have "x1 (mk_bbox 0 0 200 100) \<le> 65"
    using render_text_char_inside [OF r, of "CHR 0xC0" 65 4] by simp
  then show ?thesis using r by (simp add: mk_bbox_def)
qed

theorem wrap_text_for_size_words_witness:
  "py_split (py_join '' '' (wrap_text_for_size \<lparr>text_bbox = (\<lambda>(l, sz) t. (sz * int (length t), sz)), cjk_line_height = (\<lambda>(l, sz). sz)\<rparr>
     (''english'', 10) ''english'' 60 ''Hello big world''))
   = [''Hello'', ''big'', ''world'']"
proof -
  have "py_split (py_join '' '' (wrap_text_for_size \<lparr>text_bbox = (\<lambda>(l, sz) t. (sz * int (length t), sz)), cjk_line_height = (\<lambda>(l, sz). sz)\<rparr>
     (''english'', 10) ''english'' 60 ''Hello big world'')) = py_split ''Hello big world''"
    by (rule wrap_text_for_size_words) code_simp+
  then show ?thesis by code_simp
qed

lemma halve_interval:
  fixes l r :: int
  assumes "r - l + 1 < 2 * p"
  shows "r - ((l + r) div 2 + 1) + 1 < p" "((l + r) div 2 - 1) - l + 1 < p"
proof -
  have "l + r - 1 \<le> 2 * ((l + r) div 2)" "2 * ((l + r) div 2) \<le> l + r" by linarith+
  then show "r - ((l + r) div 2 + 1) + 1 < p" "((l + r) div 2 - 1) - l + 1 < p" using assms by linarith+
qed

lemma bsearch_fuel_enough:
  "r - l + 1 < 2 ^ n \<Longrightarrow> bsearch_fuel n fits l r b = Some (bsearch fits l r b)"
proof (induction n arbitrary: l r b)
  case 0
  then show ?case by (simp add: bsearch.simps)
next
  case (Suc n)
  show ?case
  proof (cases "l \<le> r")
    case True
    have "r - l + 1 < 2 * 2 ^ n" using Suc.prems by simp
    note h = halve_interval [OF this]
    show ?thesis
      using True Suc.IH [OF h(1)] Suc.IH [OF h(2)] by (simp add: Let_def bsearch.simps [of fits l r])
  next
    case False
    then show ?thesis by (simp add: bsearch.simps)
  qed
qed

text \<open>
  C24. The search loop of \<open>find_optimal_font_size_multiline\<close> leaves the loop within five
  iterations on every input: with five iterations of budget it returns the search's result.\<close>

theorem find_optimal_font_size_iterations:
  "bsearch_fuel 5 (fits_at fm s tw th l ml) (search_floor l) font_size_max font_size_min =
   Some (find_optimal_font_size_multiline fm s tw th l ml)"
  unfolding find_optimal_font_size_multiline_def Let_def
  by (rule bsearch_fuel_enough) (simp add: search_floor_def font_size_min_def font_size_max_def)

subsection \<open>Witnesses\<close>

theorem find_optimal_font_size_largest_fit_witness:
  "downward_closed_on (fits_at \<lparr>text_bbox = (\<lambda>(l, sz) t. (sz * int (length t), sz)), cjk_line_height = (\<lambda>(l, sz). sz)\<rparr> ''Hello world'' 100 40 ''english'' None) (search_floor ''english'') font_size_max
   \<and> find_optimal_font_size_multiline \<lparr>text_bbox = (\<lambda>(l, sz) t. (sz * int (length t), sz)), cjk_line_height = (\<lambda>(l, sz). sz)\<rparr> ''Hello world'' 100 40 ''english'' None = 17"
proof -
  have dc: "downward_closed_on (fits_at \<lparr>text_bbox = (\<lambda>(l, sz) t. (sz * int (length t), sz)), cjk_line_height = (\<lambda>(l, sz). sz)\<rparr> ''Hello world'' 100 40 ''english'' None) (search_floor ''english'') font_size_max"
    by code_simp
  have "find_optimal_font_size_multiline \<lparr>text_bbox = (\<lambda>(l, sz) t. (sz * int (length t), sz)), cjk_line_height = (\<lambda>(l, sz). sz)\<rparr> ''Hello world'' 100 40 ''english'' None =
    largest_fit (fits_at \<lparr>text_bbox = (\<lambda>(l, sz) t. (sz * int (length t), sz)), cjk_line_height = (\<lambda>(l, sz). sz)\<rparr> ''Hello world'' 100 40 ''english'' None) (search_floor ''english'') font_size_max font_size_min"
    by (rule find_optimal_font_size_largest_fit [OF dc])
  moreover have "largest_fit (fits_at \<lparr>text_bbox = (\<lambda>(l, sz) t. (sz * int (length t), sz)), cjk_line_height = (\<lambda>(l, sz). sz)\<rparr> ''Hello world'' 100 40 ''english'' None) (search_floor ''english'') font_size_max font_size_min = 17"
    by code_simp
  ultimately show ?thesis using dc by simp
qed

theorem wrap_text_for_size_cjk_witness:
  "concat (wrap_text_for_size \<lparr>text_bbox = (\<lambda>(l, sz) t. (sz * int (length t), sz)), cjk_line_height = (\<lambda>(l, sz). sz)\<rparr> (''japanese'', 10) ''japanese'' 20 [CHR 0xC0, CHR 0xC1, CHR 0xC2]) = [CHR 0xC0, CHR 0xC1, CHR 0xC2]"
proof -
  have "is_cjk_language ''japanese''" "\<not> py_blank [CHR 0xC0, CHR 0xC1, CHR 0xC2]" by code_simp+
  then show ?thesis using wrap_text_for_size_cjk by blast
qed

theorem calculate_optimal_font_size_cjk_floor_witness:
  "calculate_optimal_font_size \<lparr>text_bbox = (\<lambda>(l, sz) t. (sz * int (length t), sz)), cjk_line_height = (\<lambda>(l, sz). sz)\<rparr> [CHR 0xC0, CHR 0xC1] (mk_bbox 0 0 10 10) ''japanese'' (Some TTB) = Inr 6"
proof -
  have "is_cjk_language ''japanese''" "\<not> py_blank [CHR 0xC0, CHR 0xC1]"
    "\<forall>sz \<in> set [12..30]. \<not> fits_at \<lparr>text_bbox = (\<lambda>(l, sz) t. (sz * int (length t), sz)), cjk_line_height = (\<lambda>(l, sz). sz)\<rparr> [CHR 0xC0, CHR 0xC1] (bb_width (mk_bbox 0 0 10 10) - 4)
       (bb_height (mk_bbox 0 0 10 10) - 4) ''japanese'' None sz"
    by code_simp+
  then show ?thesis by (rule calculate_optimal_font_size_cjk_floor)
qed

theorem font_size_monotone_in_height_witness:
  "find_optimal_font_size_multiline \<lparr>text_bbox = (\<lambda>(l, sz) t. (sz * int (length t), sz)), cjk_line_height = (\<lambda>(l, sz). sz)\<rparr> ''Hello world'' 100 40 ''english'' None
   \<le> find_optimal_font_size_multiline \<lparr>text_bbox = (\<lambda>(l, sz) t. (sz * int (length t), sz)), cjk_line_height = (\<lambda>(l, sz). sz)\<rparr> ''Hello world'' 100 80 ''english'' None"
proof -
  have "downward_closed_on (fits_at \<lparr>text_bbox = (\<lambda>(l, sz) t. (sz * int (length t), sz)), cjk_line_height = (\<lambda>(l, sz). sz)\<rparr> ''Hello world'' 100 40 ''english'' None) (search_floor ''english'') font_size_max"
    "downward_closed_on (fits_at \<lparr>text_bbox = (\<lambda>(l, sz) t. (sz * int (length t), sz)), cjk_line_height = (\<lambda>(l, sz). sz)\<rparr> ''Hello world'' 100 80 ''english'' None) (search_floor ''english'') font_size_max"
    by code_simp+
  then show ?thesis by (intro font_size_monotone_in_height) simp_all
qed

theorem calculate_multiline_position_centred_witness:
  "0 \<le> fst (calculate_multiline_position \<lparr>text_bbox = (\<lambda>(l, sz) t. (sz * int (length t), sz)), cjk_line_height = (\<lambda>(l, sz). sz)\<rparr> [''ab'', ''abc''] (mk_bbox 0 0 100 40) (''english'', 10) LTR ''english'' ! 1)
   \<and> fst (calculate_multiline_position \<lparr>text_bbox = (\<lambda>(l, sz) t. (sz * int (length t), sz)), cjk_line_height = (\<lambda>(l, sz). sz)\<rparr> [''ab'', ''abc''] (mk_bbox 0 0 100 40) (''english'', 10) LTR ''english'' ! 1) + 30 \<le> 100"
proof -
  have w: "text_width \<lparr>text_bbox = (\<lambda>(l, sz) t. (sz * int (length t), sz)), cjk_line_height = (\<lambda>(l, sz). sz)\<rparr> (''english'', 10) ''english'' ''abc'' = 30" by code_simp
  have "x1 (mk_bbox 0 0 100 40) \<le> fst (calculate_multiline_position \<lparr>text_bbox = (\<lambda>(l, sz) t. (sz * int (length t), sz)), cjk_line_height = (\<lambda>(l, sz). sz)\<rparr> [''ab'', ''abc''] (mk_bbox 0 0 100 40) (''english'', 10) LTR ''english'' ! 1)
   \<and> fst (calculate_multiline_position \<lparr>text_bbox = (\<lambda>(l, sz) t. (sz * int (length t), sz)), cjk_line_height = (\<lambda>(l, sz). sz)\<rparr> [''ab'', ''abc''] (mk_bbox 0 0 100 40) (''english'', 10) LTR ''english'' ! 1)
     + text_width \<lparr>text_bbox = (\<lambda>(l, sz) t. (sz * int (length t), sz)), cjk_line_height = (\<lambda>(l, sz). sz)\<rparr> (''english'', 10) ''english'' ([''ab'', ''abc''] ! 1) \<le> x2 (mk_bbox 0 0 100 40)"
    by (rule calculate_multiline_position_centred) (simp_all add: w bb_width_def mk_bbox_def)
  then show ?thesis by (simp add: w mk_bbox_def)
qed

theorem resolve_overlap_sound_witness:
  "inside_image 100 100 (resolve_overlap (mk_bbox 0 10 20 25) (mk_bbox 0 0 20 20) 100 100)
   \<and> \<not> boxes_overlap (resolve_overlap (mk_bbox 0 10 20 25) (mk_bbox 0 0 20 20) 100 100) (mk_bbox 0 0 20 20)"
proof -
  have r: "resolve_overlap (mk_bbox 0 10 20 25) (mk_bbox 0 0 20 20) 100 100 = mk_bbox 0 25 20 40" by code_simp
  have "mk_bbox 0 25 20 40 \<noteq> mk_bbox 0 10 20 25" by (simp add: mk_bbox_def)
  then show ?thesis using resolve_overlap_sound [of "mk_bbox 0 10 20 25" "mk_bbox 0 0 20 20" 100 100] r by simp
qed

theorem optimize_text_layout_wf_witness:
  "bbox_wf (bbox (optimize_text_layout [mk_text_box [] (mk_bbox 0 30 20 50), mk_text_box [] (mk_bbox 0 0 20 20),
     mk_text_box [] (mk_bbox 0 10 20 25)] 100 100 ! 2))"
proof -
  have "\<forall>b \<in> set [mk_text_box [] (mk_bbox 0 30 20 50), mk_text_box [] (mk_bbox 0 0 20 20),
     mk_text_box [] (mk_bbox 0 10 20 25)]. bbox_wf (bbox b)" by code_simp
  then have "\<forall>b \<in> set (optimize_text_layout [mk_text_box [] (mk_bbox 0 30 20 50), mk_text_box [] (mk_bbox 0 0 20 20),
     mk_text_box [] (mk_bbox 0 10 20 25)] 100 100). bbox_wf (bbox b)" by (rule optimize_text_layout_wf)
  moreover have "2 < length (optimize_text_layout [mk_text_box [] (mk_bbox 0 30 20 50), mk_text_box [] (mk_bbox 0 0 20 20),
     mk_text_box [] (mk_bbox 0 10 20 25)] 100 100)" by code_simp
  ultimately show ?thesis by simp
qed

end
