(* ===== verification/Inpaint.thy ===== *)
theory Inpaint
  imports Schemas Complex_Main "HOL-Library.Word"
begin

text \<open>
  The inpainting side of the pipeline: \<open>services/inpaint/mask_generator.py\<close> and
  \<open>services/inpaint/opencv_inpainter.py\<close>. A mask is a \<open>uint8\<close> array of the image's shape, a
  function from (row, column) to an 8-bit word; the rectangular masks are computed exactly,
  with NumPy's slice semantics. The pixel work of OpenCV (thresholding, morphology, edge
  detection, \<open>cv2.inpaint\<close>) is an oracle over an abstract image type; each oracle answers
  \<open>None\<close> where OpenCV raises.
\<close>

unbundle bit_operations_syntax

subsection \<open>Masks\<close>

type_synonym mask = "nat \<times> nat \<Rightarrow> 8 word"

definition zeros :: mask where
  \<comment> \<open>\<open>np.zeros(image.shape[:2], dtype=np.uint8)\<close>\<close>
  "zeros = (\<lambda>_. 0)"

text \<open>The end of a slice bound \<open>a\<close> on an axis of length \<open>n\<close>: a negative bound counts from the
  end, and the result is clipped to \<open>[0, n]\<close>.\<close>

definition slice_bound :: "nat \<Rightarrow> int \<Rightarrow> nat" where
  "slice_bound n a = (if a < 0 then nat (int n + a) else min (nat a) n)"

definition in_slice :: "nat \<Rightarrow> int \<Rightarrow> int \<Rightarrow> nat \<Rightarrow> bool" where
  "in_slice n a b i \<longleftrightarrow> slice_bound n a \<le> i \<and> i < slice_bound n b"

datatype inpaint_error = Inpaint_attribute_error  \<comment> \<open>\<open>settings.inpaint_padding\<close>, not a setting\<close>

text \<open>\<open>MaskGenerator.create_text_mask(image, text_box, padding)\<close> for an image of \<open>h\<close> rows and
  \<open>w\<close> columns. The default padding is \<open>settings.inpaint_padding\<close>, which \<open>Settings\<close> does not
  define (it defines \<open>mask_padding\<close>): reading it raises \<open>AttributeError\<close>.\<close>

definition text_mask :: "nat \<Rightarrow> nat \<Rightarrow> bounding_box \<Rightarrow> int \<Rightarrow> mask" where
  "text_mask h w b padding =
     (let x1' = max 0 (x1 b - padding); y1' = max 0 (y1 b - padding);
          x2' = min (int w) (x2 b + padding); y2' = min (int h) (y2 b + padding)
      in (\<lambda>(r, c). if in_slice h y1' y2' r \<and> in_slice w x1' x2' c then 255 else zeros (r, c)))"

definition create_text_mask :: "nat \<Rightarrow> nat \<Rightarrow> text_box \<Rightarrow> int option \<Rightarrow> inpaint_error + mask" where
  "create_text_mask h w tb padding =
     (case padding of None \<Rightarrow> Inl Inpaint_attribute_error | Some p \<Rightarrow> Inr (text_mask h w (bbox tb) p))"

definition bitwise_or :: "mask \<Rightarrow> mask \<Rightarrow> mask" where
  \<comment> \<open>\<open>cv2.bitwise_or\<close>, pixel by pixel\<close>
  "bitwise_or m1 m2 = (\<lambda>p. m1 p OR m2 p)"

fun combined_loop :: "nat \<Rightarrow> nat \<Rightarrow> mask \<Rightarrow> text_box list \<Rightarrow> inpaint_error + mask" where
  "combined_loop h w m [] = Inr m"
| "combined_loop h w m (tb # tbs) =
     (case create_text_mask h w tb None of
        Inl e \<Rightarrow> Inl e
      | Inr m' \<Rightarrow> combined_loop h w (bitwise_or m m') tbs)"

definition create_combined_mask :: "nat \<Rightarrow> nat \<Rightarrow> text_box list \<Rightarrow> inpaint_error + mask" where
  "create_combined_mask h w tbs = combined_loop h w zeros tbs"

text \<open>\<open>roi = image[y1:y2, x1:x2]\<close> is empty.\<close>

definition roi_empty :: "nat \<Rightarrow> nat \<Rightarrow> bounding_box \<Rightarrow> bool" where
  "roi_empty h w b \<longleftrightarrow>
     slice_bound h (y2 b) \<le> slice_bound h (y1 b) \<or> slice_bound w (x2 b) \<le> slice_bound w (x1 b)"

subsection \<open>OpenCV as an oracle\<close>

datatype inpaint_flag = INPAINT_TELEA | INPAINT_NS

record 'img cv_ops =
  shape :: "'img \<Rightarrow> nat \<times> nat"                                  \<comment> \<open>\<open>image.shape[:2]\<close>\<close>
  adaptive_threshold :: "'img \<Rightarrow> bounding_box \<Rightarrow> mask option"   \<comment> \<open>threshold, morphology, dilation\<close>
  smart_threshold :: "'img \<Rightarrow> bounding_box \<Rightarrow> mask option"      \<comment> \<open>Otsu threshold, closing, dilation\<close>
  canny_edges :: "'img \<Rightarrow> mask option"                          \<comment> \<open>\<open>cv2.Canny\<close> and dilation\<close>
  roi_stats :: "'img \<Rightarrow> bounding_box \<Rightarrow> (real \<times> real) option"   \<comment> \<open>variance and edge density\<close>
  cv_inpaint :: "'img \<Rightarrow> mask \<Rightarrow> int \<Rightarrow> inpaint_flag \<Rightarrow> 'img option"
  blend_region :: "'img \<Rightarrow> 'img \<Rightarrow> bounding_box \<Rightarrow> 'img option" \<comment> \<open>blur and blend of one region\<close>
  overlay_mask :: "'img \<Rightarrow> mask \<Rightarrow> 'img"                        \<comment> \<open>\<open>cv2.addWeighted\<close> with the red mask\<close>

subsection \<open>Mask generation (\<open>MaskGenerator\<close>)\<close>

text \<open>\<open>create_adaptive_mask\<close> and \<open>create_smart_mask\<close>: an empty region, or an exception of
  OpenCV, falls back to the rectangular mask with its default padding.\<close>

definition create_adaptive_mask :: "'img cv_ops \<Rightarrow> 'img \<Rightarrow> text_box \<Rightarrow> inpaint_error + mask" where
  "create_adaptive_mask cv img tb =
     (let (h, w) = shape cv img in
      if roi_empty h w (bbox tb) then create_text_mask h w tb None
      else (case adaptive_threshold cv img (bbox tb) of
              Some m \<Rightarrow> Inr m
            | None \<Rightarrow> create_text_mask h w tb None))"

definition create_smart_mask :: "'img cv_ops \<Rightarrow> 'img \<Rightarrow> text_box \<Rightarrow> inpaint_error + mask" where
  \<comment> \<open>the empty-region return sits inside the \<open>try\<close>: its exception runs the handler, whose
      own call of \<open>create_text_mask\<close> raises again\<close>
  "create_smart_mask cv img tb =
     (let (h, w) = shape cv img in
      if roi_empty h w (bbox tb) then
        (case create_text_mask h w tb None of Inr m \<Rightarrow> Inr m | Inl _ \<Rightarrow> create_text_mask h w tb None)
      else (case smart_threshold cv img (bbox tb) of
              Some m \<Rightarrow> Inr m
            | None \<Rightarrow> create_text_mask h w tb None))"

definition refine_mask :: "'img cv_ops \<Rightarrow> mask \<Rightarrow> 'img \<Rightarrow> mask" where
  "refine_mask cv m img =
     (case canny_edges cv img of Some e \<Rightarrow> (\<lambda>p. m p AND NOT (e p)) | None \<Rightarrow> m)"

subsection \<open>Inpainting (\<open>OpenCVInpainter\<close>)\<close>

definition inpaint_params :: "string \<Rightarrow> inpaint_flag \<times> int" where
  "inpaint_params method = (if py_lower_str method = ''ns'' then (INPAINT_NS, 10) else (INPAINT_TELEA, 8))"

definition inpaint_textbox :: "'img cv_ops \<Rightarrow> 'img \<Rightarrow> text_box \<Rightarrow> string \<Rightarrow> 'img" where
  "inpaint_textbox cv img tb method =
     (case create_smart_mask cv img tb of
        Inl _ \<Rightarrow> img
      | Inr m \<Rightarrow>
          (let (flag, radius) = inpaint_params method in
           case cv_inpaint cv img m radius flag of Some r \<Rightarrow> r | None \<Rightarrow> img))"

definition inpaint_multiple_textboxes :: "'img cv_ops \<Rightarrow> 'img \<Rightarrow> text_box list \<Rightarrow> string \<Rightarrow> 'img" where
  "inpaint_multiple_textboxes cv img tbs method = fold (\<lambda>tb acc. inpaint_textbox cv acc tb method) tbs img"

definition inpaint_combined_mask :: "'img cv_ops \<Rightarrow> 'img \<Rightarrow> text_box list \<Rightarrow> string \<Rightarrow> 'img" where
  "inpaint_combined_mask cv img tbs method =
     (let (h, w) = shape cv img in
      case create_combined_mask h w tbs of
        Inl _ \<Rightarrow> inpaint_multiple_textboxes cv img tbs method
      | Inr m \<Rightarrow>
          (let (flag, radius) = inpaint_params method in
           case cv_inpaint cv img m radius flag of
             Some r \<Rightarrow> r
           | None \<Rightarrow> inpaint_multiple_textboxes cv img tbs method))"

definition choose_inpaint_method :: "'img cv_ops \<Rightarrow> 'img \<Rightarrow> text_box \<Rightarrow> string" where
  "choose_inpaint_method cv img tb =
     (let (h, w) = shape cv img in
      if roi_empty h w (bbox tb) then ''telea''
      else (case roi_stats cv img (bbox tb) of
              None \<Rightarrow> ''telea''
            | Some (variance, edge_density) \<Rightarrow>
                if 1000 < variance \<or> 1 / 10 < edge_density then ''ns'' else ''telea''))"

definition inpaint_adaptive :: "'img cv_ops \<Rightarrow> 'img \<Rightarrow> text_box list \<Rightarrow> 'img" where
  \<comment> \<open>the method is chosen on the original image, the inpainting applied to the running result\<close>
  "inpaint_adaptive cv img tbs =
     fold (\<lambda>tb acc. inpaint_textbox cv acc tb (choose_inpaint_method cv img tb)) tbs img"


text \<open>\<open>enhance_inpainting_result\<close>: each box whose region is non-empty in both images is
  blurred and blended into the running result; any exception returns the inpainted image.\<close>

fun enhance_loop :: "'img cv_ops \<Rightarrow> 'img \<Rightarrow> 'img \<Rightarrow> text_box list \<Rightarrow> 'img option" where
  "enhance_loop cv orig res [] = Some res"
| "enhance_loop cv orig res (tb # tbs) =
     (let (h, w) = shape cv orig; (h', w') = shape cv res in
      if roi_empty h w (bbox tb) \<or> roi_empty h' w' (bbox tb) then enhance_loop cv orig res tbs
      else (case blend_region cv orig res (bbox tb) of
              None \<Rightarrow> None
            | Some res' \<Rightarrow> enhance_loop cv orig res' tbs))"

definition enhance_inpainting_result :: "'img cv_ops \<Rightarrow> 'img \<Rightarrow> 'img \<Rightarrow> text_box list \<Rightarrow> 'img" where
  "enhance_inpainting_result cv orig inp tbs = (case enhance_loop cv orig inp tbs of Some r \<Rightarrow> r | None \<Rightarrow> inp)"

text \<open>\<open>preview_inpainting_mask\<close>: the smart mask of each box overlaid on the preview; the mask's
  exception is not caught.\<close>

fun preview_loop :: "'img cv_ops \<Rightarrow> 'img \<Rightarrow> 'img \<Rightarrow> text_box list \<Rightarrow> inpaint_error + 'img" where
  "preview_loop cv img pv [] = Inr pv"
| "preview_loop cv img pv (tb # tbs) =
     (case create_smart_mask cv img tb of
        Inl e \<Rightarrow> Inl e
      | Inr m \<Rightarrow> preview_loop cv img (overlay_mask cv pv m) tbs)"

definition preview_inpainting_mask :: "'img cv_ops \<Rightarrow> 'img \<Rightarrow> text_box list \<Rightarrow> inpaint_error + 'img" where
  "preview_inpainting_mask cv img tbs = preview_loop cv img img tbs"

subsection \<open>Properties of the masks\<close>

lemma slice_bound_nonneg: "0 \<le> a \<Longrightarrow> slice_bound n a = min (nat a) n"
  by (simp add: slice_bound_def)

lemma text_mask_values: "text_mask h w b p q = 0 \<or> text_mask h w b p q = 255"
  by (cases q) (simp add: text_mask_def zeros_def Let_def)

lemma in_slice_nonneg:
  assumes "0 \<le> a" "0 \<le> b"
  shows "in_slice n a b i \<longleftrightarrow> a \<le> int i \<and> int i < b \<and> i < n"
proof -
  have "nat a \<le> i \<longleftrightarrow> a \<le> int i" using assms(1) by linarith
  moreover have "i < nat b \<longleftrightarrow> int i < b" using assms(2) by linarith
  ultimately show ?thesis using assms by (auto simp: in_slice_def slice_bound_nonneg)
qed

lemma text_mask_rect:
  assumes "0 \<le> y2 b + p" "0 \<le> x2 b + p"
  shows "text_mask h w b p (r, c) = 255 \<longleftrightarrow>
    max 0 (y1 b - p) \<le> int r \<and> int r < min (int h) (y2 b + p) \<and>
    max 0 (x1 b - p) \<le> int c \<and> int c < min (int w) (x2 b + p)"
proof -
  have "in_slice h (max 0 (y1 b - p)) (min (int h) (y2 b + p)) r \<longleftrightarrow>
      max 0 (y1 b - p) \<le> int r \<and> int r < min (int h) (y2 b + p)"
    using assms(1) by (subst in_slice_nonneg) auto
  moreover have "in_slice w (max 0 (x1 b - p)) (min (int w) (x2 b + p)) c \<longleftrightarrow>
      max 0 (x1 b - p) \<le> int c \<and> int c < min (int w) (x2 b + p)"
    using assms(2) by (subst in_slice_nonneg) auto
  ultimately show ?thesis by (simp add: text_mask_def zeros_def Let_def)
qed

lemma combined_loop_error: "tbs \<noteq> [] \<Longrightarrow> combined_loop h w m tbs = Inl Inpaint_attribute_error"
  by (cases tbs) (simp_all add: create_text_mask_def)

theorem create_combined_mask_char:
  "create_combined_mask h w tbs = (if tbs = [] then Inr zeros else Inl Inpaint_attribute_error)"
  by (simp add: create_combined_mask_def combined_loop_error)

text \<open>
  C20. Inpainting with a combined mask never uses one: \<open>create_text_mask\<close> reads the missing
  \<open>settings.inpaint_padding\<close>, so for any non-empty list of boxes \<open>inpaint_with_combined_mask\<close>
  falls back to inpainting the boxes one at a time.
\<close>

theorem inpaint_combined_mask_falls_back:
  "tbs \<noteq> [] \<Longrightarrow> inpaint_combined_mask cv img tbs method = inpaint_multiple_textboxes cv img tbs method"
  by (simp add: inpaint_combined_mask_def create_combined_mask_def combined_loop_error split: prod.split)

lemma create_smart_mask_char:
  "create_smart_mask cv img tb =
     (if roi_empty (fst (shape cv img)) (snd (shape cv img)) (bbox tb) then Inl Inpaint_attribute_error
      else case smart_threshold cv img (bbox tb) of Some m \<Rightarrow> Inr m | None \<Rightarrow> Inl Inpaint_attribute_error)"
  by (simp add: create_smart_mask_def create_text_mask_def split: prod.split option.split)

theorem inpaint_textbox_empty_roi:
  "roi_empty (fst (shape cv img)) (snd (shape cv img)) (bbox tb) \<Longrightarrow> inpaint_textbox cv img tb method = img"
  by (simp add: inpaint_textbox_def create_smart_mask_char)

theorem inpaint_textbox_char:
  "inpaint_textbox cv img tb method =
     (case create_smart_mask cv img tb of
        Inr m \<Rightarrow> (case cv_inpaint cv img m (snd (inpaint_params method)) (fst (inpaint_params method)) of
                   Some r \<Rightarrow> r | None \<Rightarrow> img)
      | Inl _ \<Rightarrow> img)"
  by (simp add: inpaint_textbox_def split: prod.split sum.split)

theorem preview_inpainting_mask_empty_roi:
  "tb \<in> set tbs \<Longrightarrow> roi_empty (fst (shape cv img)) (snd (shape cv img)) (bbox tb) \<Longrightarrow>
   preview_inpainting_mask cv img tbs = Inl Inpaint_attribute_error"
proof -
  have "tb \<in> set tbs \<Longrightarrow> roi_empty (fst (shape cv img)) (snd (shape cv img)) (bbox tb) \<Longrightarrow>
    preview_loop cv img pv tbs = Inl Inpaint_attribute_error" for pv
    by (induction tbs arbitrary: pv)
       (auto simp: create_smart_mask_char split: if_splits option.splits sum.splits)
  then show "tb \<in> set tbs \<Longrightarrow> roi_empty (fst (shape cv img)) (snd (shape cv img)) (bbox tb) \<Longrightarrow>
    preview_inpainting_mask cv img tbs = Inl Inpaint_attribute_error"
    by (simp add: preview_inpainting_mask_def)
qed

theorem inpaint_combined_mask_falls_back_witness:
  "inpaint_combined_mask
     \<lparr>shape = (\<lambda>_. (100, 100)), adaptive_threshold = (\<lambda>_ _. None), smart_threshold = (\<lambda>_ _. Some zeros),
      canny_edges = (\<lambda>_. None), roi_stats = (\<lambda>_ _. None), cv_inpaint = (\<lambda>img m r f. Some (Suc img)),
      blend_region = (\<lambda>_ _ _. None), overlay_mask = (\<lambda>img m. img)\<rparr>
     (0::nat) [mk_text_box ''a'' (mk_bbox 0 0 10 10), mk_text_box ''b'' (mk_bbox 20 20 30 30)] ''telea'' = 2"
proof -
  have "[mk_text_box ''a'' (mk_bbox 0 0 10 10), mk_text_box ''b'' (mk_bbox 20 20 30 30)] \<noteq> []" by simp
  then have "inpaint_combined_mask
     \<lparr>shape = (\<lambda>_. (100, 100)), adaptive_threshold = (\<lambda>_ _. None), smart_threshold = (\<lambda>_ _. Some zeros),
      canny_edges = (\<lambda>_. None), roi_stats = (\<lambda>_ _. None), cv_inpaint = (\<lambda>img m r f. Some (Suc img)),
      blend_region = (\<lambda>_ _ _. None), overlay_mask = (\<lambda>img m. img)\<rparr>
     (0::nat) [mk_text_box ''a'' (mk_bbox 0 0 10 10), mk_text_box ''b'' (mk_bbox 20 20 30 30)] ''telea'' =
    inpaint_multiple_textboxes
     \<lparr>shape = (\<lambda>_. (100, 100)), adaptive_threshold = (\<lambda>_ _. None), smart_threshold = (\<lambda>_ _. Some zeros),
      canny_edges = (\<lambda>_. None), roi_stats = (\<lambda>_ _. None), cv_inpaint = (\<lambda>img m r f. Some (Suc img)),
      blend_region = (\<lambda>_ _ _. None), overlay_mask = (\<lambda>img m. img)\<rparr>
     (0::nat) [mk_text_box ''a'' (mk_bbox 0 0 10 10), mk_text_box ''b'' (mk_bbox 20 20 30 30)] ''telea''"
    by (rule inpaint_combined_mask_falls_back)
  also have "\<dots> = 2" by code_simp
  finally show ?thesis .
qed

end
