(* ===== verification/Image_Utils.thy ===== *)
theory Image_Utils
  imports Http_Layer Inpaint
begin

text \<open>
  \<open>utils/image_utils.py\<close>, the static helpers of \<open>ImageUtils\<close>. The image is an abstract type
  with its shape and OpenCV/PIL calls as oracles, as in \<open>Inpaint\<close>. \<open>resize_image\<close> computes its
  target size in IEEE binary64 arithmetic, which is modelled exactly: a double is a pair
  \<open>(m, e)\<close> of integers standing for \<open>m * 2 ^ e\<close>, and true division of integers rounds to
  nearest with ties to even at 53 significant bits (the normal range; sizes of images are far
  from overflow and underflow).
\<close>

subsection \<open>File and byte conversions\<close>

text \<open>\<open>validate_image\<close> reads \<open>settings.SUPPORTED_IMAGE_FORMATS\<close> and \<open>settings.MAX_IMAGE_SIZE\<close>,
  which \<open>Settings\<close> does not define: the \<open>AttributeError\<close> is caught and the answer is
  \<open>False\<close>.\<close>

definition settings_SUPPORTED_IMAGE_FORMATS :: "string list option" where
  "settings_SUPPORTED_IMAGE_FORMATS = None"

definition settings_MAX_IMAGE_SIZE :: "int option" where
  "settings_MAX_IMAGE_SIZE = None"

definition validate_image :: "string list option \<Rightarrow> int option \<Rightarrow> string \<Rightarrow> int \<Rightarrow> bool" where
  "validate_image formats max_size content_type file_size =
     (case formats of
        None \<Rightarrow> False
      | Some fs \<Rightarrow>
          if content_type \<notin> set fs then False
          else (case max_size of None \<Rightarrow> False | Some m \<Rightarrow> \<not> m < file_size))"

text \<open>\<open>load_image_from_file\<close>: \<open>cv2.imread\<close> answers \<open>None\<close> for a file it cannot read; the
  \<open>ImageValidationError\<close> raised for it is caught by the function's own handler and raised
  again with the handler's message.\<close>

definition load_image_from_file :: "(string \<Rightarrow> 'img option) \<Rightarrow> string \<Rightarrow> api_exc + 'img" where
  "load_image_from_file imread path =
     (case imread path of
        None \<Rightarrow> Inl (Processing_error ''Failed to load image from file'')
      | Some img \<Rightarrow> Inr img)"

definition save_image_to_bytes :: "('img \<Rightarrow> string \<Rightarrow> string option) \<Rightarrow> 'img \<Rightarrow> string \<Rightarrow> api_exc + string" where
  "save_image_to_bytes encode img format =
     (case encode img format of
        None \<Rightarrow> Inl (Processing_error ''Failed to convert image to bytes'')
      | Some bs \<Rightarrow> Inr bs)"

text \<open>\<open>save_image_to_file\<close>: \<open>cv2.imwrite\<close> reports failure by \<open>False\<close>; the \<open>ProcessingError\<close>
  raised for it is caught and replaced, so both failures give the same message.\<close>

definition save_image_to_file :: "('img \<Rightarrow> string \<Rightarrow> bool option) \<Rightarrow> 'img \<Rightarrow> string \<Rightarrow> api_exc + unit" where
  "save_image_to_file imwrite img path =
     (case imwrite img path of
        Some True \<Rightarrow> Inr ()
      | _ \<Rightarrow> Inl (Processing_error ''Failed to save image to file''))"

subsection \<open>Binary64 arithmetic\<close>

type_synonym pyfloat = "int \<times> int"

fun bitlen :: "nat \<Rightarrow> nat" where
  "bitlen n = (if n = 0 then 0 else Suc (bitlen (n div 2)))"

declare bitlen.simps [simp del]

definition scale_pow :: "int \<Rightarrow> int \<Rightarrow> int \<Rightarrow> int \<times> int" where
  "scale_pow a b k = (if 0 \<le> k then (a * 2 ^ nat k, b) else (a, b * 2 ^ nat (- k)))"

definition round_even :: "int \<Rightarrow> int \<Rightarrow> int" where
  "round_even n d = (let q = n div d; r = n mod d in if d < 2 * r \<or> (2 * r = d \<and> odd q) then q + 1 else q)"

definition round_pos :: "int \<Rightarrow> int \<Rightarrow> pyfloat" where
  "round_pos a b =
     (let k0 = 52 - (int (bitlen (nat a)) - int (bitlen (nat b)));
          k = (case scale_pow a b k0 of (n, d) \<Rightarrow> if n div d < 2 ^ 52 then k0 + 1 else k0)
      in case scale_pow a b k of (n, d) \<Rightarrow> (round_even n d, - k))"

definition fl_div :: "int \<Rightarrow> int \<Rightarrow> pyfloat" where
  "fl_div a b = (if a = 0 then (0, 0) else if 0 < a then round_pos a b else (case round_pos (- a) b of (m, e) \<Rightarrow> (- m, e)))"

definition fval :: "pyfloat \<Rightarrow> real" where
  "fval p = real_of_int (fst p) * 2 powr real_of_int (snd p)"

definition fl_mul_int :: "int \<Rightarrow> pyfloat \<Rightarrow> pyfloat" where
  "fl_mul_int w p =
     (case p of (m, e) \<Rightarrow> if 0 \<le> e then fl_div (w * m * 2 ^ nat e) 1 else fl_div (w * m) (2 ^ nat (- e)))"

definition fl_trunc :: "pyfloat \<Rightarrow> int" where
  "fl_trunc p =
     (case p of (m, e) \<Rightarrow>
        if 0 \<le> e then m * 2 ^ nat e else if m < 0 then - ((- m) div 2 ^ nat (- e)) else m div 2 ^ nat (- e))"

definition fl_less :: "pyfloat \<Rightarrow> pyfloat \<Rightarrow> bool" where
  "fl_less p q =
     (case p of (m1, e1) \<Rightarrow> case q of (m2, e2) \<Rightarrow>
        let e = min e1 e2 in m1 * 2 ^ nat (e1 - e) < m2 * 2 ^ nat (e2 - e))"

definition fmin :: "pyfloat option \<Rightarrow> pyfloat option \<Rightarrow> pyfloat option" where
  "fmin a b =
     (case b of None \<Rightarrow> a
      | Some y \<Rightarrow> (case a of None \<Rightarrow> Some y | Some x \<Rightarrow> if fl_less y x then Some y else Some x))"

definition py_truthy :: "int option \<Rightarrow> bool" where
  "py_truthy x = (case x of None \<Rightarrow> False | Some n \<Rightarrow> n \<noteq> 0)"

subsection \<open>Resizing (\<open>resize_image\<close>)\<close>

text \<open>\<open>max_width / w if max_width else float('inf')\<close>: a falsy bound (\<open>None\<close> or 0) is
  infinity, written \<open>None\<close> here, and \<open>min\<close> keeps its first argument unless a later one is
  smaller. Division by a zero dimension raises \<open>ZeroDivisionError\<close>, which the function's
  handler turns into returning the image: \<open>None\<close>, as for "nothing to do".\<close>

definition resize_dims :: "nat \<times> nat \<Rightarrow> int option \<Rightarrow> int option \<Rightarrow> bool \<Rightarrow> (int \<times> int) option" where
  "resize_dims shp max_width max_height maintain_aspect =
     (let (h, w) = shp in
      if max_width = None \<and> max_height = None then None
      else if maintain_aspect then
        (if py_truthy max_width \<and> w = 0 \<or> py_truthy max_height \<and> h = 0 then None
         else
           (let scale_w = (if py_truthy max_width then Some (fl_div (the max_width) (int w)) else None);
                scale_h = (if py_truthy max_height then Some (fl_div (the max_height) (int h)) else None);
                scale = the (fmin (fmin scale_w scale_h) (Some (1, 0)))
            in Some (fl_trunc (fl_mul_int (int w) scale), fl_trunc (fl_mul_int (int h) scale))))
      else Some (if py_truthy max_width then the max_width else int w,
                 if py_truthy max_height then the max_height else int h))"

definition resize_image ::
  "('img \<Rightarrow> nat \<times> nat) \<Rightarrow> ('img \<Rightarrow> int \<times> int \<Rightarrow> 'img option) \<Rightarrow> 'img \<Rightarrow> int option \<Rightarrow> int option \<Rightarrow> bool \<Rightarrow> 'img" where
  "resize_image img_shape cv_resize img max_width max_height maintain_aspect =
     (case resize_dims (img_shape img) max_width max_height maintain_aspect of
        None \<Rightarrow> img
      | Some (new_w, new_h) \<Rightarrow>
          if new_w = int (snd (img_shape img)) \<and> new_h = int (fst (img_shape img)) then img
          else (case cv_resize img (new_w, new_h) of Some r \<Rightarrow> r | None \<Rightarrow> img))"

subsection \<open>Drawing, cropping and information\<close>

datatype cv_draw =
    Rectangle "int \<times> int" "int \<times> int" int   \<comment> \<open>corners and thickness (\<open>-1\<close>: filled)\<close>
  | Put_text string "int \<times> int"

text \<open>\<open>draw_text_boxes\<close>: per box its rectangle, a filled background of the label's size
  above it and the label \<open>"{i}: {text[:20]}..."\<close>; \<open>cv2.getTextSize\<close> is an oracle.\<close>

definition box_label :: "nat \<Rightarrow> text_box \<Rightarrow> string" where
  "box_label i tb = nat_to_str i @ '': '' @ take 20 (box_text tb) @ ''...''"

definition draw_box_ops :: "(string \<Rightarrow> int \<times> int) \<Rightarrow> int \<Rightarrow> nat \<times> text_box \<Rightarrow> cv_draw list" where
  "draw_box_ops text_size thickness it =
     (case it of (i, tb) \<Rightarrow>
        let b = bbox tb; label = box_label i tb; (lw, lh) = text_size label in
        [Rectangle (x1 b, y1 b) (x2 b, y2 b) thickness,
         Rectangle (x1 b, y1 b - lh - 5) (x1 b + lw, y1 b) (- 1),
         Put_text label (x1 b, y1 b - 5)])"

definition draw_text_boxes ::
  "('img \<Rightarrow> cv_draw \<Rightarrow> 'img) \<Rightarrow> (string \<Rightarrow> int \<times> int) \<Rightarrow> 'img \<Rightarrow> text_box list \<Rightarrow> int \<Rightarrow> 'img" where
  "draw_text_boxes draw text_size img tbs thickness =
     fold (\<lambda>op acc. draw acc op) (concat (map (draw_box_ops text_size thickness) (enumerate 0 tbs))) img"

text \<open>\<open>crop_region\<close> as the view it returns: first row, first column, rows and columns of
  \<open>image[y1:y2, x1:x2]\<close> after padding and clipping.\<close>

definition crop_region :: "nat \<times> nat \<Rightarrow> bounding_box \<Rightarrow> int \<Rightarrow> nat \<times> nat \<times> nat \<times> nat" where
  "crop_region shp b padding =
     (let (h, w) = shp;
          cx1 = max 0 (x1 b - padding); cy1 = max 0 (y1 b - padding);
          cx2 = min (int w) (x2 b + padding); cy2 = min (int h) (y2 b + padding);
          r0 = slice_bound h cy1; c0 = slice_bound w cx1
      in (r0, c0, slice_bound h cy2 - r0, slice_bound w cx2 - c0))"

text \<open>\<open>get_image_info\<close> on the shape tuple: an image with fewer than two axes, or of height 0
  (\<open>width / height\<close>), gives the empty dict. \<open>dtype\<close> and \<open>nbytes\<close> are not modelled.\<close>

record image_info =
  info_width :: nat
  info_height :: nat
  info_channels :: nat
  aspect_ratio :: pyfloat

definition get_image_info :: "nat list \<Rightarrow> image_info option" where
  "get_image_info dims =
     (if length dims < 2 \<or> dims ! 0 = 0 then None
      else Some \<lparr>info_width = dims ! 1, info_height = dims ! 0,
                 info_channels = (if length dims = 3 then dims ! 2 else 1),
                 aspect_ratio = fl_div (int (dims ! 1)) (int (dims ! 0))\<rparr>)"

definition validate_text_box_bounds :: "text_box \<Rightarrow> nat \<times> nat \<Rightarrow> bool" where
  "validate_text_box_bounds tb shp =
     (let (h, w) = shp; b = bbox tb in
      0 \<le> x1 b \<and> x1 b < int w \<and> 0 \<le> y1 b \<and> y1 b < int h \<and> 0 \<le> x2 b \<and> x2 b \<le> int w \<and>
      0 \<le> y2 b \<and> y2 b \<le> int h \<and> x1 b < x2 b \<and> y1 b < y2 b)"

section \<open>Properties\<close>

subsection \<open>Binary64 rounding\<close>

lemma bitlen_bounds: "0 < n \<Longrightarrow> 2 ^ (bitlen n - 1) \<le> n \<and> n < 2 ^ bitlen n"
proof (induction n rule: bitlen.induct)
  case (1 n)
  show ?case
  proof (cases "n = 1")
    case True then show ?thesis by (simp add: bitlen.simps)
  next
    case False
    with 1 have "0 < n div 2" by simp
    with 1 have ih: "2 ^ (bitlen (n div 2) - 1) \<le> n div 2 \<and> n div 2 < 2 ^ bitlen (n div 2)" by simp
    have "bitlen n = Suc (bitlen (n div 2))" using 1 by (simp add: bitlen.simps)
    moreover have "0 < bitlen (n div 2)" using \<open>0 < n div 2\<close> by (simp add: bitlen.simps)
    ultimately show ?thesis using ih by (cases "bitlen (n div 2)") auto
  qed
qed


lemma round_even_err:
  assumes "0 < d"
  shows "\<bar>real_of_int (round_even n d) - real_of_int n / real_of_int d\<bar> \<le> 1 / 2"
proof -
  define q r where "q = n div d" and "r = n mod d"
  have n: "n = q * d + r" and r: "0 \<le> r" "r < d" using assms by (simp_all add: q_def r_def)
  have e: "real_of_int n / real_of_int d = real_of_int q + real_of_int r / real_of_int d"
    using assms by (simp add: n field_simps)
  have rd: "real_of_int r / real_of_int d < 1" "0 \<le> real_of_int r / real_of_int d" using r assms by simp_all
  show ?thesis
  proof (cases "d < 2 * r \<or> (2 * r = d \<and> odd q)")
    case True
    then have "1 / 2 \<le> real_of_int r / real_of_int d" using assms by (auto simp: field_simps)
    moreover have "round_even n d = q + 1" using True by (simp add: round_even_def Let_def q_def r_def)
    ultimately show ?thesis using rd by (simp add: e)
  next
    case False
    then have "real_of_int r / real_of_int d \<le> 1 / 2" using assms by (auto simp: field_simps)
    moreover have "round_even n d = q" using False by (simp add: round_even_def Let_def q_def r_def)
    ultimately show ?thesis using rd by (simp add: e)
  qed
qed

lemma scale_pow_val:
  assumes "0 < b" "scale_pow a b k = (n, d)"
  shows "0 < d \<and> real_of_int n / real_of_int d = real_of_int a / real_of_int b * 2 powr real_of_int k"
proof (cases "0 \<le> k")
  case True
  then have "(2::real) powr real_of_int k = 2 ^ nat k" by (simp add: powr_realpow [symmetric])
  then show ?thesis using assms True by (auto simp: scale_pow_def)
next
  case False
  then have "(2::real) powr real_of_int k = 1 / 2 ^ nat (- k)"
    by (simp add: powr_realpow [symmetric] powr_minus_divide [symmetric])
  then show ?thesis using assms False by (auto simp: scale_pow_def)
qed

lemma div_le_quot: "0 < d \<Longrightarrow> real_of_int (n div d) \<le> real_of_int n / real_of_int d"
  by (metis floor_divide_of_int_eq of_int_floor_le)

lemma quot_lower:
  assumes "0 < a" "0 < b"
  shows "2 powr (real (bitlen (nat a)) - 1 - real (bitlen (nat b))) < real_of_int a / real_of_int b"
proof -
  let ?la = "bitlen (nat a)" and ?lb = "bitlen (nat b)"
  have pa: "0 < nat a" and pb: "0 < nat b" using assms by simp_all
  have "0 < ?la" using pa by (simp add: bitlen.simps)
  have "real (2 ^ (?la - 1)) \<le> real (nat a)" using bitlen_bounds [OF pa] by (simp only: of_nat_le_iff)
  then have A: "2 powr (real ?la - 1) \<le> real_of_int a"
    using \<open>0 < ?la\<close> assms by (simp add: powr_realpow [symmetric] of_nat_diff)
  have "real (nat b) < real (2 ^ ?lb)" using bitlen_bounds [OF pb] by (simp only: of_nat_less_iff)
  then have B: "real_of_int b < 2 powr real ?lb" using assms by (simp add: powr_realpow)
  have "2 powr (real ?la - 1 - real ?lb) = 2 powr (real ?la - 1) / 2 powr real ?lb" by (simp add: powr_diff)
  also have "\<dots> < real_of_int a / real_of_int b"
    using A B assms by (simp add: frac_less2 order.strict_trans1)
  finally show ?thesis .
qed

lemma round_pos_scaled:
  assumes "0 < a" "0 < b"
  obtains k n d where "round_pos a b = (round_even n d, - k)" "scale_pow a b k = (n, d)" "0 < d"
    "2 ^ 52 \<le> real_of_int n / real_of_int d"
    "real_of_int n / real_of_int d = real_of_int a / real_of_int b * 2 powr real_of_int k"
proof -
  define k0 where "k0 = 52 - (int (bitlen (nat a)) - int (bitlen (nat b)))"
  obtain n0 d0 where sp0: "scale_pow a b k0 = (n0, d0)" by fastforce
  from scale_pow_val [OF assms(2) sp0] have d0: "0 < d0"
    and v0: "real_of_int n0 / real_of_int d0 = real_of_int a / real_of_int b * 2 powr real_of_int k0" by auto
  have "2 powr 51 = 2 powr (real (bitlen (nat a)) - 1 - real (bitlen (nat b))) * 2 powr real_of_int k0"
    by (simp add: k0_def powr_add [symmetric])
  also have "\<dots> < real_of_int n0 / real_of_int d0"
    unfolding v0 using quot_lower [OF assms] by (intro mult_strict_right_mono) simp_all
  finally have low0: "2 powr 51 < real_of_int n0 / real_of_int d0" .
  define k where "k = (if n0 div d0 < 2 ^ 52 then k0 + 1 else k0)"
  obtain n d where sp: "scale_pow a b k = (n, d)" by fastforce
  from scale_pow_val [OF assms(2) sp] have d: "0 < d"
    and v: "real_of_int n / real_of_int d = real_of_int a / real_of_int b * 2 powr real_of_int k" by auto
  have r: "round_pos a b = (round_even n d, - k)"
    using sp sp0 by (simp add: round_pos_def k0_def [symmetric] k_def Let_def)
  have "2 ^ 52 \<le> real_of_int n / real_of_int d"
  proof (cases "n0 div d0 < 2 ^ 52")
    case True
    then have "real_of_int n / real_of_int d = 2 * (real_of_int n0 / real_of_int d0)"
      using v v0 by (simp add: k_def powr_add)
    moreover have "(2::real) powr 51 = 2 ^ 51" by (simp add: powr_realpow [symmetric])
    ultimately show ?thesis using low0 by simp
  next
    case False
    then have "(2::real) ^ 52 \<le> real_of_int (n0 div d0)" by (metis not_less of_int_numeral of_int_power of_int_le_iff)
    also have "\<dots> \<le> real_of_int n0 / real_of_int d0" using d0 by (rule div_le_quot)
    finally show ?thesis using False sp sp0 by (simp add: k_def)
  qed
  then show ?thesis using that r sp d v by blast
qed

lemma round_pos_err:
  assumes "0 < a" "0 < b"
  shows "\<bar>fval (round_pos a b) - real_of_int a / real_of_int b\<bar> \<le> real_of_int a / real_of_int b * 2 powr - 53"
proof -
  obtain k n d where r: "round_pos a b = (round_even n d, - k)" and d: "0 < d"
    and low: "2 ^ 52 \<le> real_of_int n / real_of_int d"
    and v: "real_of_int n / real_of_int d = real_of_int a / real_of_int b * 2 powr real_of_int k"
    using round_pos_scaled [OF assms] by metis
  let ?u = "(2::real) powr real_of_int (- k)"
  have ab: "real_of_int a / real_of_int b = real_of_int n / real_of_int d * ?u"
    using v by (simp add: powr_minus field_simps)
  have "\<bar>fval (round_pos a b) - real_of_int a / real_of_int b\<bar> =
      \<bar>real_of_int (round_even n d) - real_of_int n / real_of_int d\<bar> * ?u"
  proof -
    have "fval (round_pos a b) - real_of_int a / real_of_int b =
        (real_of_int (round_even n d) - real_of_int n / real_of_int d) * ?u"
      by (simp add: r fval_def ab left_diff_distrib)
    then show ?thesis by (simp add: abs_mult)
  qed
  also have "\<dots> \<le> 1 / 2 * ?u" using round_even_err [OF d] by (simp add: mult_right_mono)
  also have "1 / 2 = (2::real) ^ 52 * 2 powr - 53"
    by (simp add: powr_minus powr_realpow [symmetric] divide_simps)
  also have "(2::real) ^ 52 * 2 powr - 53 * ?u \<le> real_of_int n / real_of_int d * 2 powr - 53 * ?u"
    using low by (intro mult_right_mono) simp_all
  also have "\<dots> = real_of_int a / real_of_int b * 2 powr - 53" by (simp add: ab)
  finally show ?thesis .
qed

lemma fval_neg: "fval (- m, e) = - fval (m, e)"
  by (simp add: fval_def)

lemma fl_div_err:
  assumes "0 < b"
  shows "\<bar>fval (fl_div a b) - real_of_int a / real_of_int b\<bar> \<le> \<bar>real_of_int a / real_of_int b\<bar> * 2 powr - 53"
proof -
  consider "a = 0" | "0 < a" | "a < 0" by linarith
  then show ?thesis
  proof cases
    case 1 then show ?thesis by (simp add: fl_div_def fval_def)
  next
    case 2 then show ?thesis using round_pos_err [OF 2 assms] assms by (simp add: fl_div_def)
  next
    case 3
    then have "0 < - a" by simp
    from round_pos_err [OF this assms] 3 assms show ?thesis
      by (auto simp: fl_div_def fval_neg abs_minus_commute split: prod.split)
  qed
qed

lemma fval_pow: "0 \<le> e \<Longrightarrow> fval (m, e) = real_of_int (m * 2 ^ nat e)"
  by (simp add: fval_def powr_realpow [symmetric])

lemma fval_pow_neg:
  assumes "e < 0"
  shows "fval (m, e) = real_of_int m / real_of_int (2 ^ nat (- e))"
proof -
  have "real_of_int e = - real (nat (- e))" using assms by simp
  then have "(2::real) powr real_of_int e = inverse (2 powr real (nat (- e)))"
    by (simp only: powr_minus)
  also have "\<dots> = inverse (2 ^ nat (- e))" by (simp only: powr_realpow zero_less_numeral)
  finally show ?thesis by (simp add: fval_def divide_inverse)
qed

lemma fl_mul_int_err:
  "\<bar>fval (fl_mul_int w p) - real_of_int w * fval p\<bar> \<le> \<bar>real_of_int w * fval p\<bar> * 2 powr - 53"
proof (cases p)
  case (Pair m e)
  show ?thesis
  proof (cases "0 \<le> e")
    case True
    then show ?thesis using fl_div_err [of 1 "w * m * 2 ^ nat e"]
      by (simp add: Pair fl_mul_int_def fval_pow mult.assoc)
  next
    case False
    then show ?thesis using fl_div_err [of "2 ^ nat (- e)" "w * m"]
      by (simp add: Pair fl_mul_int_def fval_pow_neg)
  qed
qed

lemma fval_nonneg_iff: "0 \<le> fval p \<longleftrightarrow> 0 \<le> fst p"
  by (simp add: fval_def zero_le_mult_iff)

lemma fl_trunc_floor: "0 \<le> fval p \<Longrightarrow> fl_trunc p = \<lfloor>fval p\<rfloor>"
proof (cases p)
  case (Pair m e)
  assume "0 \<le> fval p"
  then have m: "0 \<le> m" by (simp add: fval_nonneg_iff Pair)
  show ?thesis
  proof (cases "0 \<le> e")
    case True
    show ?thesis unfolding Pair fval_pow [OF True] floor_of_int using True by (simp add: fl_trunc_def)
  next
    case False
    then have "e < 0" by simp
    show ?thesis unfolding Pair fval_pow_neg [OF \<open>e < 0\<close>] floor_divide_of_int_eq
      using m False by (simp add: fl_trunc_def)
  qed
qed

lemma fl_less_iff: "fl_less p q \<longleftrightarrow> fval p < fval q"
proof (cases p, cases q)
  fix m1 e1 m2 e2 assume pq: "p = (m1, e1)" "q = (m2, e2)"
  let ?e = "min e1 e2"
  define c :: real where "c = 2 powr real_of_int ?e"
  have c: "0 < c" by (simp add: c_def)
  have f: "fval (m, e) = real_of_int (m * 2 ^ nat (e - ?e)) * c" if "?e \<le> e" for m e
    using that by (simp add: c_def fval_def powr_realpow [symmetric] powr_add [symmetric])
  have "fval p < fval q \<longleftrightarrow> m1 * 2 ^ nat (e1 - ?e) < m2 * 2 ^ nat (e2 - ?e)"
    unfolding pq f [OF min.cobounded1] f [OF min.cobounded2] mult_less_cancel_right_pos [OF c] of_int_less_iff ..
  then show ?thesis by (simp add: fl_less_def pq Let_def)
qed

subsection \<open>Resizing\<close>

lemma resize_dims_width_only:
  assumes "0 < m" "0 < w"
  shows "resize_dims (h, w) (Some m) None True =
    Some (fl_trunc (fl_mul_int (int w) (the (fmin (Some (fl_div m (int w))) (Some (1, 0))))),
          fl_trunc (fl_mul_int (int h) (the (fmin (Some (fl_div m (int w))) (Some (1, 0))))))"
  using assms by (simp add: resize_dims_def py_truthy_def fmin_def Let_def)

lemma floor_near: "real_of_int m - 1 < x \<Longrightarrow> x < real_of_int m + 1 \<Longrightarrow> \<lfloor>x\<rfloor> = m \<or> \<lfloor>x\<rfloor> = m - 1"
  by linarith

text \<open>
  C14. Shrinking an image to a maximum width \<open>m\<close> alone asks OpenCV for a width of \<open>m\<close> or
  \<open>m - 1\<close>: the two roundings of \<open>int(w * (max_width / w))\<close> lose at most one pixel, for every
  width below \<open>2 ^ 50\<close>.
\<close>

theorem resize_dims_width_bounds:
  assumes "0 < m" "m < int w" "w < 2 ^ 50"
  shows "\<exists>nw nh. resize_dims (h, w) (Some m) None True = Some (nw, nh) \<and> (nw = m \<or> nw = m - 1)"
proof -
  define s where "s = fl_div m (int w)"
  define \<epsilon> :: real where "\<epsilon> = 2 powr - 53"
  define A where "A = real_of_int m * \<epsilon>"
  have w0: "0 < w" using assms by simp
  have e0: "0 < \<epsilon>" and e8: "\<epsilon> \<le> 1 / 8" by (simp_all add: \<epsilon>_def powr_minus powr_realpow divide_simps)
  have e50: "2 ^ 50 * \<epsilon> = 1 / 8"
    by (simp add: \<epsilon>_def powr_realpow [symmetric] powr_add [symmetric] powr_minus divide_simps)
  have "real_of_int m < 2 ^ 50" using assms by (metis of_int_less_iff of_int_of_nat_eq of_nat_less_iff of_nat_numeral of_nat_power order.strict_trans of_int_numeral of_int_power)
  then have "real_of_int m * \<epsilon> < 2 ^ 50 * \<epsilon>" using e0 by (rule mult_strict_right_mono)
  then have A8: "A < 1 / 8" unfolding A_def using e50 by linarith
  have A0: "0 < A" using assms(1) e0 by (simp add: A_def)
  \<comment> \<open>the scale \<open>max_width / w\<close>\<close>
  define X where "X = real w * fval s"
  have "\<bar>fval s - real_of_int m / real w\<bar> \<le> \<bar>real_of_int m / real w\<bar> * \<epsilon>"
    using fl_div_err [of "int w" m] w0 by (simp add: s_def \<epsilon>_def)
  then have "\<bar>X - real_of_int m\<bar> \<le> A"
    using w0 assms(1) by (simp add: X_def A_def abs_mult [symmetric] right_diff_distrib field_simps)
  then have X: "real_of_int m - A \<le> X" "X \<le> real_of_int m + A" by linarith+
  have "X < real w" using X A8 assms(2) by linarith
  then have "fval s < fval (1, 0)" using w0 by (simp add: X_def fval_def)
  then have smin: "fmin (Some s) (Some (1, 0)) = Some s" by (simp add: fmin_def fl_less_iff)
  \<comment> \<open>the product \<open>w * scale\<close>\<close>
  define p where "p = fl_mul_int (int w) s"
  have "0 < X" using X A8 assms(1) by linarith
  then have "\<bar>fval p - X\<bar> \<le> X * \<epsilon>" using fl_mul_int_err [of "int w" s] by (simp add: p_def X_def \<epsilon>_def)
  then have P: "X - X * \<epsilon> \<le> fval p" "fval p \<le> X + X * \<epsilon>" by (simp_all add: abs_le_iff)
  have "X * \<epsilon> \<le> (real_of_int m + A) * \<epsilon>" using X e0 by (simp add: mult_right_mono)
  also have "\<dots> = A + A * \<epsilon>" by (simp add: A_def algebra_simps)
  also have "A * \<epsilon> \<le> A / 8" using e8 A0 by (simp add: mult_left_mono)
  finally have "X * \<epsilon> \<le> A + A / 8" by simp
  then have "real_of_int m - 1 < fval p" "fval p < real_of_int m + 1" "0 \<le> fval p"
    using P X A8 A0 assms(1) by linarith+
  then have "fl_trunc p = m \<or> fl_trunc p = m - 1" by (simp add: fl_trunc_floor floor_near)
  then show ?thesis
    unfolding resize_dims_width_only [OF assms(1) w0] s_def [symmetric] smin by (simp add: p_def)
qed

theorem resize_dims_width_bounds_witness:
  "\<exists>nw nh. resize_dims (100, 22) (Some 15) None True = Some (nw, nh) \<and> (nw = 15 \<or> nw = 15 - 1)"
  using resize_dims_width_bounds [of 15 22 100] by simp

text \<open>The lost pixel happens: \<open>15 / 22\<close> rounds down and \<open>22 * 0.6818181818181818\<close> is
  \<open>14.999999999999998\<close>, so the image is resized to 14 columns.\<close>

lemma resize_dims_loses_pixel: "resize_dims (100, 22) (Some 15) None True = Some (14, 68)"
  by (simp add: resize_dims_def py_truthy_def fl_div_def round_pos_def scale_pow_def bitlen.simps round_even_def
      fmin_def fl_less_def fl_mul_int_def fl_trunc_def Let_def)

lemma get_image_info_aspect:
  assumes "get_image_info dims = Some i"
  shows "\<bar>fval (aspect_ratio i) - real (info_width i) / real (info_height i)\<bar>
         \<le> real (info_width i) / real (info_height i) * 2 powr - 53"
proof -
  have "0 < dims ! 0" and i: "i = \<lparr>info_width = dims ! 1, info_height = dims ! 0,
      info_channels = (if length dims = 3 then dims ! 2 else 1),
      aspect_ratio = fl_div (int (dims ! 1)) (int (dims ! 0))\<rparr>"
    using assms by (auto simp: get_image_info_def split: if_splits)
  then show ?thesis using fl_div_err [of "int (dims ! 0)" "int (dims ! 1)"] by simp
qed

subsection \<open>Validation, cropping and drawing\<close>

lemma validate_image_false: "validate_image settings_SUPPORTED_IMAGE_FORMATS settings_MAX_IMAGE_SIZE ct sz = False"
  by (simp add: validate_image_def settings_SUPPORTED_IMAGE_FORMATS_def)

lemma crop_region_box:
  assumes "validate_text_box_bounds tb (h, w)"
  shows "crop_region (h, w) (bbox tb) 0 =
    (nat (y1 (bbox tb)), nat (x1 (bbox tb)), nat (bb_height (bbox tb)), nat (bb_width (bbox tb)))"
proof -
  let ?b = "bbox tb"
  have v: "0 \<le> x1 ?b" "x1 ?b < x2 ?b" "x2 ?b \<le> int w" "0 \<le> y1 ?b" "y1 ?b < y2 ?b" "y2 ?b \<le> int h"
    using assms by (simp_all add: validate_text_box_bounds_def Let_def)
  then have "slice_bound h (y1 ?b) = nat (y1 ?b)" "slice_bound h (y2 ?b) = nat (y2 ?b)"
    "slice_bound w (x1 ?b) = nat (x1 ?b)" "slice_bound w (x2 ?b) = nat (x2 ?b)"
    by (simp_all add: slice_bound_def)
  moreover have "max 0 (x1 ?b) = x1 ?b" "max 0 (y1 ?b) = y1 ?b" "min (int w) (x2 ?b) = x2 ?b"
    "min (int h) (y2 ?b) = y2 ?b" using v by simp_all
  ultimately show ?thesis using v by (simp add: crop_region_def bb_height_def bb_width_def Let_def nat_diff_distrib)
qed

end
