(* ===== verification/Batch_Schedule.thy ===== *)
theory Batch_Schedule
  imports Translator
begin

text \<open>
  The interleaving of \<open>TranslationManager.translate_batch\<close>: one task per text, at most
  \<open>max_concurrent\<close> of them inside the semaphore, all sharing the provider object and its
  \<open>_last_request_ts\<close>. Under asyncio a task only yields at an \<open>await\<close> that blocks: the
  \<open>asyncio.sleep\<close> of \<open>_ratelimit_sleep\<close> and the network request of \<open>_translate\<close>. The
  model follows the first request of each task (one valuable query) through these two
  points: entering \<open>_ratelimit_sleep\<close> (which either sends at once or sleeps until the time
  \<open>ratelimit_sleep\<close> of \<open>Translator\<close> computes), waking, and the end of the request, with the
  clock advanced by separate steps.
\<close>

datatype task_phase = Queued | Sleeping real | In_flight | Done

record batch_state =
  sched_clock :: real
  provider :: translator
  phases :: "task_phase list"
  sent :: "real list"        \<comment> \<open>the times of the requests sent, in order\<close>

fun holds_semaphore :: "task_phase \<Rightarrow> bool" where
  "holds_semaphore (Sleeping _) = True"
| "holds_semaphore In_flight = True"
| "holds_semaphore _ = False"

definition active :: "task_phase list \<Rightarrow> nat" where
  "active phs = length (filter holds_semaphore phs)"

definition init_batch :: "translator \<Rightarrow> nat \<Rightarrow> real \<Rightarrow> batch_state" where
  "init_batch p n clk = \<lparr>sched_clock = clk, provider = p, phases = replicate n Queued, sent = []\<rparr>"

text \<open>\<open>cap\<close> is \<open>max_concurrent\<close>. Entering runs \<open>_ratelimit_sleep\<close> up to its \<open>await\<close>: when
  no sleep is needed the timestamp is written and the request sent at once; otherwise the
  task sleeps until the wake time, having read the timestamp but not written it.\<close>

inductive batch_step :: "nat \<Rightarrow> batch_state \<Rightarrow> batch_state \<Rightarrow> bool" for cap where
  enter: "\<lbrakk>i < length (phases s); phases s ! i = Queued; active (phases s) < cap;
           ratelimit_sleep (provider s) (sched_clock s) = (p', w)\<rbrakk> \<Longrightarrow>
          batch_step cap s
            (if w = sched_clock s
             then s\<lparr>provider := p', phases := (phases s)[i := In_flight], sent := sent s @ [w]\<rparr>
             else s\<lparr>phases := (phases s)[i := Sleeping w]\<rparr>)"
| wake: "\<lbrakk>i < length (phases s); phases s ! i = Sleeping w; w \<le> sched_clock s\<rbrakk> \<Longrightarrow>
          batch_step cap s
            (s\<lparr>provider := (provider s)\<lparr>last_request_ts := sched_clock s\<rparr>,
               phases := (phases s)[i := In_flight], sent := sent s @ [sched_clock s]\<rparr>)"
| finish: "\<lbrakk>i < length (phases s); phases s ! i = In_flight\<rbrakk> \<Longrightarrow>
          batch_step cap s (s\<lparr>phases := (phases s)[i := Done]\<rparr>)"
| tick: "0 \<le> d \<Longrightarrow> batch_step cap s (s\<lparr>sched_clock := sched_clock s + d\<rparr>)"

fun spaced :: "real \<Rightarrow> real list \<Rightarrow> bool" where
  "spaced d (a # b # xs) = (a + d \<le> b \<and> spaced d (b # xs))"
| "spaced d _ = True"

text \<open>What a schedule with a semaphore of one keeps: the provider, the timestamp equal to
  the last request sent, the requests spaced by the provider's interval, every sleeper waking
  no earlier than one interval after that timestamp, and at most one task inside.\<close>

definition serial_inv :: "translator \<Rightarrow> batch_state \<Rightarrow> bool" where
  "serial_inv p s \<longleftrightarrow>
     (let mi = 60 / real_of_int (max_requests_per_minute (kind p)) in
      kind (provider s) = kind p \<and>
      last (last_request_ts p # sent s) = last_request_ts (provider s) \<and>
      spaced mi (last_request_ts p # sent s) \<and>
      list_all (\<lambda>ph. case ph of Sleeping w \<Rightarrow> last_request_ts (provider s) + mi \<le> w | _ \<Rightarrow> True) (phases s) \<and>
      active (phases s) \<le> 1)"

inductive_cases batch_stepE: "batch_step cap s s'"

lemma ratelimit_sleep_google_10:
  "ratelimit_sleep (new_translator Google True False) 10 = ((new_translator Google True False)\<lparr>last_request_ts := 20\<rparr>, 20)"
  by (simp add: ratelimit_sleep_def new_translator_def)

lemma spaced_snoc: "spaced d (xs @ [y]) \<longleftrightarrow> spaced d xs \<and> (xs \<noteq> [] \<longrightarrow> last xs + d \<le> y)"
  by (induction d xs rule: spaced.induct) auto

lemma length_filter_update:
  "i < length xs \<Longrightarrow> length (filter P (xs[i := x])) =
     length (filter P xs) - (if P (xs ! i) then 1 else 0) + (if P x then 1 else 0)"
proof (induction xs arbitrary: i)
  case (Cons y ys)
  then show ?case
  proof (cases i)
    case (Suc j)
    with Cons have "j < length ys" by simp
    moreover have "P (ys ! j) \<Longrightarrow> 0 < length (filter P ys)"
      using \<open>j < length ys\<close> by (metis filter_empty_conv length_greater_0_conv nth_mem)
    ultimately show ?thesis using Cons.IH [of j] Suc by auto
  qed simp
qed simp

lemma active_unique:
  assumes "active phs \<le> 1" "i < length phs" "j < length phs" "holds_semaphore (phs ! i)" "holds_semaphore (phs ! j)"
  shows "i = j"
proof (rule ccontr)
  assume "i \<noteq> j"
  have "active (phs[i := Done]) = active phs - 1" using assms(2,4) by (simp add: active_def length_filter_update)
  moreover have "0 < active (phs[i := Done])"
  proof -
    have "j < length (phs[i := Done])" "holds_semaphore (phs[i := Done] ! j)"
      using assms(3,5) \<open>i \<noteq> j\<close> by simp_all
    then show ?thesis unfolding active_def by (metis filter_empty_conv length_greater_0_conv nth_mem)
  qed
  ultimately show False using assms(1) by simp
qed

lemma ratelimit_sleep_cases:
  assumes "0 < max_requests_per_minute (kind q)" "ratelimit_sleep q now = (q', w)"
  shows "(w = now \<and> last_request_ts q + 60 / real_of_int (max_requests_per_minute (kind q)) \<le> now \<and>
          q' = q\<lparr>last_request_ts := now\<rparr>) \<or>
         (now < w \<and> w = last_request_ts q + 60 / real_of_int (max_requests_per_minute (kind q)))"
  using assms by (auto simp: ratelimit_sleep_def Let_def split: if_splits)

lemma max_requests_pos: "0 < max_requests_per_minute k"
  by (cases k) simp_all

lemma active_zero: "active phs = 0 \<Longrightarrow> ph \<in> set phs \<Longrightarrow> \<not> holds_semaphore ph"
  by (simp add: active_def filter_empty_conv)

lemma list_all_update_other:
  assumes "list_all P xs" "i < length xs" "P x"
  shows "list_all P (xs[i := x])"
  using assms by (simp add: list_all_length nth_list_update)

lemma serial_inv_init: "serial_inv p (init_batch p n clk)"
  by (simp add: serial_inv_def init_batch_def active_def list_all_iff)

lemma sleepers_none:
  "\<forall>ph \<in> set phs. \<not> holds_semaphore ph \<Longrightarrow> list_all (\<lambda>ph. case ph of Sleeping w \<Rightarrow> P w | _ \<Rightarrow> True) phs"
  by (force simp: list_all_iff split: task_phase.split)

lemma sleepers_update:
  assumes "list_all (\<lambda>ph. case ph of Sleeping w \<Rightarrow> P w | _ \<Rightarrow> True) phs" "case x of Sleeping w \<Rightarrow> P w | _ \<Rightarrow> True"
  shows "list_all (\<lambda>ph. case ph of Sleeping w \<Rightarrow> P w | _ \<Rightarrow> True) (phs[i := x])"
proof (clarsimp simp: list_all_length)
  fix n assume "n < length phs"
  then show "case phs[i := x] ! n of Sleeping w \<Rightarrow> P w | _ \<Rightarrow> True"
    using assms by (cases "i = n") (simp_all add: list_all_length)
qed

lemma spaced_snoc_Cons: "spaced d (x # xs @ [y]) \<longleftrightarrow> spaced d (x # xs) \<and> last (x # xs) + d \<le> y"
  using spaced_snoc [of d "x # xs" y] by simp

lemma serial_inv_step:
  assumes step: "batch_step 1 s s'" and inv: "serial_inv p s"
  shows "serial_inv p s'"
proof -
  define mi where "mi = 60 / real_of_int (max_requests_per_minute (kind p))"
  let ?S = "\<lambda>t phs. list_all (\<lambda>ph. case ph of Sleeping w \<Rightarrow> t + mi \<le> w | _ \<Rightarrow> True) phs"
  have k: "kind (provider s) = kind p" and l: "last (last_request_ts p # sent s) = last_request_ts (provider s)"
    and sp: "spaced mi (last_request_ts p # sent s)" and sl: "?S (last_request_ts (provider s)) (phases s)"
    and a: "active (phases s) \<le> 1"
    using inv unfolding serial_inv_def Let_def mi_def by simp_all
  have intro: "serial_inv p s'" if "kind (provider s') = kind p"
      "last (last_request_ts p # sent s') = last_request_ts (provider s')"
      "spaced mi (last_request_ts p # sent s')" "?S (last_request_ts (provider s')) (phases s')"
      "active (phases s') \<le> 1"
    using that unfolding serial_inv_def Let_def mi_def by simp
  from step show ?thesis
  proof cases
    case (enter i p' w)
    have a0: "active (phases s) = 0" using enter(4) by simp
    then have none: "\<forall>ph \<in> set (phases s). \<not> holds_semaphore ph" using active_zero by blast
    have a1: "active ((phases s)[i := x]) \<le> 1" for x
      using a0 enter(2) by (simp add: active_def length_filter_update)
    note rs = ratelimit_sleep_cases [OF max_requests_pos enter(5)]
    show ?thesis
    proof (cases "w = sched_clock s")
      case True
      with rs k have le: "last_request_ts (provider s) + mi \<le> sched_clock s"
        and p': "p' = (provider s)\<lparr>last_request_ts := sched_clock s\<rparr>" by (auto simp: mi_def)
      have s': "s' = s\<lparr>provider := p', phases := (phases s)[i := In_flight], sent := sent s @ [sched_clock s]\<rparr>"
        using enter(1) True by simp
      have "spaced mi (last_request_ts p # sent s @ [sched_clock s])"
        using sp l le by (simp add: spaced_snoc_Cons)
      moreover have "?S (sched_clock s) ((phases s)[i := In_flight])"
        by (rule sleepers_update [OF sleepers_none [OF none]]) simp
      ultimately show ?thesis using k a1 by (intro intro) (simp_all add: s' p' cong: task_phase.case_cong)
    next
      case False
      with rs k have w: "w = last_request_ts (provider s) + mi" by (auto simp: mi_def)
      have s': "s' = s\<lparr>phases := (phases s)[i := Sleeping w]\<rparr>" using enter(1) False by simp
      have "?S (last_request_ts (provider s)) ((phases s)[i := Sleeping w])"
        by (rule sleepers_update [OF sleepers_none [OF none]]) (simp add: w)
      then show ?thesis using k l sp a1 by (intro intro) (simp_all add: s' cong: task_phase.case_cong)
    qed
  next
    case (wake i w)
    have le: "last_request_ts (provider s) + mi \<le> w" using sl wake(2,3) by (auto simp: list_all_length)
    have other: "\<not> holds_semaphore (phases s ! j)" if "j < length (phases s)" "j \<noteq> i" for j
      using active_unique [OF a wake(2) that(1)] wake(3) that(2) by auto
    have "?S (sched_clock s) ((phases s)[i := In_flight])"
    proof (clarsimp simp: list_all_length)
      fix n assume n: "n < length (phases s)"
      show "case (phases s)[i := In_flight] ! n of Sleeping w \<Rightarrow> sched_clock s + mi \<le> w | _ \<Rightarrow> True"
      proof (cases "n = i")
        case False
        then have "\<not> holds_semaphore (phases s ! n)" using other n by simp
        then show ?thesis using False by (cases "phases s ! n") simp_all
      qed (simp add: wake(2))
    qed
    moreover have "active ((phases s)[i := In_flight]) = active (phases s)"
    proof -
      have "0 < active (phases s)" using wake(2,3) unfolding active_def
        by (metis filter_empty_conv length_greater_0_conv nth_mem holds_semaphore.simps(1))
      then show ?thesis using wake(2,3) by (simp add: active_def length_filter_update)
    qed
    moreover have "spaced mi (last_request_ts p # sent s @ [sched_clock s])"
      using sp l le wake(4) by (simp add: spaced_snoc_Cons)
    ultimately show ?thesis using k a by (intro intro) (simp_all add: wake(1) cong: task_phase.case_cong)
  next
    case (finish i)
    have "?S (last_request_ts (provider s)) ((phases s)[i := Done])" by (rule sleepers_update [OF sl]) simp
    moreover have "active ((phases s)[i := Done]) \<le> active (phases s)"
      using finish(2) by (simp add: active_def length_filter_update)
    ultimately show ?thesis using k l sp a by (intro intro) (simp_all add: finish(1) cong: task_phase.case_cong)
  next
    case (tick d)
    then show ?thesis using inv by (simp add: serial_inv_def)
  qed
qed

text \<open>
  C15. With a semaphore of one, the requests of a batch keep the provider's spacing: in every
  state reachable from the start, each request is sent at least \<open>60 / N\<close> seconds after the
  previous one, the first after the provider's last request before the batch.
\<close>

theorem batch_serial_spaced:
  assumes "(batch_step 1)\<^sup>*\<^sup>* (init_batch p n clk) s"
  shows "spaced (60 / real_of_int (max_requests_per_minute (kind p))) (last_request_ts p # sent s)"
proof -
  from assms have "serial_inv p s"
    by (induction rule: rtranclp_induct) (auto intro: serial_inv_step serial_inv_init)
  then show ?thesis by (simp add: serial_inv_def Let_def)
qed

text \<open>
  C16. With the semaphore of three that \<open>translate_batch\<close> uses, two tasks on the same
  provider can send their requests at the same instant: both read \<open>_last_request_ts\<close> before
  either writes it, sleep until the same wake time and send. The spacing of \<open>60 / N\<close> seconds
  the spec requires of every outbound call is violated.
\<close>

theorem batch_sends_together:
  "\<exists>s. (batch_step 3)\<^sup>*\<^sup>* (init_batch (new_translator Google True False) 2 10) s \<and> sent s = [20, 20]"
proof -
  define g where "g = new_translator Google True False"
  define s0 where "s0 = init_batch g 2 10"
  have r: "ratelimit_sleep g 10 = (g\<lparr>last_request_ts := 20\<rparr>, 20)" unfolding g_def by (rule ratelimit_sleep_google_10)
  define s1 where "s1 = s0\<lparr>phases := [Sleeping 20, Queued]\<rparr>"
  have "batch_step 3 s0 (if 20 = sched_clock s0 then s0\<lparr>provider := g\<lparr>last_request_ts := 20\<rparr>,
      phases := (phases s0)[0 := In_flight], sent := sent s0 @ [20]\<rparr> else s0\<lparr>phases := (phases s0)[0 := Sleeping 20]\<rparr>)"
    by (rule batch_step.enter) (simp_all add: s0_def init_batch_def numeral_2_eq_2 active_def r)
  then have 1: "batch_step 3 s0 s1" by (simp add: s1_def s0_def init_batch_def numeral_2_eq_2)
  define s2 where "s2 = s0\<lparr>phases := [Sleeping 20, Sleeping 20]\<rparr>"
  have "batch_step 3 s1 (if 20 = sched_clock s1 then s1\<lparr>provider := g\<lparr>last_request_ts := 20\<rparr>,
      phases := (phases s1)[1 := In_flight], sent := sent s1 @ [20]\<rparr> else s1\<lparr>phases := (phases s1)[1 := Sleeping 20]\<rparr>)"
    by (rule batch_step.enter) (simp_all add: s1_def s0_def init_batch_def numeral_2_eq_2 active_def r)
  then have 2: "batch_step 3 s1 s2" by (simp add: s1_def s2_def s0_def init_batch_def numeral_2_eq_2)
  define s3 where "s3 = s2\<lparr>sched_clock := 20\<rparr>"
  have "batch_step 3 s2 (s2\<lparr>sched_clock := sched_clock s2 + 10\<rparr>)" by (rule batch_step.tick) simp
  then have 3: "batch_step 3 s2 s3" by (simp add: s3_def s2_def s0_def init_batch_def numeral_2_eq_2)
  define s4 where "s4 = s3\<lparr>provider := g\<lparr>last_request_ts := 20\<rparr>, phases := [In_flight, Sleeping 20], sent := [20]\<rparr>"
  have "batch_step 3 s3 (s3\<lparr>provider := (provider s3)\<lparr>last_request_ts := sched_clock s3\<rparr>,
      phases := (phases s3)[0 := In_flight], sent := sent s3 @ [sched_clock s3]\<rparr>)"
    by (rule batch_step.wake [where w = 20]) (simp_all add: s3_def s2_def)
  then have 4: "batch_step 3 s3 s4" by (simp add: s4_def s3_def s2_def s0_def init_batch_def numeral_2_eq_2)
  define s5 where "s5 = s3\<lparr>provider := g\<lparr>last_request_ts := 20\<rparr>, phases := [In_flight, In_flight], sent := [20, 20]\<rparr>"
  have "batch_step 3 s4 (s4\<lparr>provider := (provider s4)\<lparr>last_request_ts := sched_clock s4\<rparr>,
      phases := (phases s4)[1 := In_flight], sent := sent s4 @ [sched_clock s4]\<rparr>)"
    by (rule batch_step.wake [where w = 20]) (simp_all add: s4_def s3_def s2_def)
  then have 5: "batch_step 3 s4 s5" by (simp add: s5_def s4_def s3_def)
  have "(batch_step 3)\<^sup>*\<^sup>* s0 s5" using 1 2 3 4 5 by (meson rtranclp.rtrancl_into_rtrancl rtranclp.rtrancl_refl)
  then show ?thesis unfolding s0_def g_def by (intro exI [of _ s5]) (simp add: s5_def)
qed

theorem batch_serial_spaced_witness:
  "(batch_step 1)\<^sup>*\<^sup>* (init_batch (new_translator Google True False) 2 10)
     \<lparr>sched_clock = 20, provider = (new_translator Google True False)\<lparr>last_request_ts := 20\<rparr>,
      phases = [In_flight, Queued], sent = [20]\<rparr> \<and>
   spaced 20 (last_request_ts (new_translator Google True False) # [20])"
proof -
  define g where "g = new_translator Google True False"
  define s0 where "s0 = init_batch g 2 10"
  have r: "ratelimit_sleep g 10 = (g\<lparr>last_request_ts := 20\<rparr>, 20)" unfolding g_def by (rule ratelimit_sleep_google_10)
  define s1 where "s1 = s0\<lparr>phases := [Sleeping 20, Queued]\<rparr>"
  have "batch_step 1 s0 (if 20 = sched_clock s0 then s0\<lparr>provider := g\<lparr>last_request_ts := 20\<rparr>,
      phases := (phases s0)[0 := In_flight], sent := sent s0 @ [20]\<rparr> else s0\<lparr>phases := (phases s0)[0 := Sleeping 20]\<rparr>)"
    by (rule batch_step.enter) (simp_all add: s0_def init_batch_def numeral_2_eq_2 active_def r)
  then have 1: "batch_step 1 s0 s1" by (simp add: s1_def s0_def init_batch_def numeral_2_eq_2)
  define s2 where "s2 = s1\<lparr>sched_clock := 20\<rparr>"
  have "batch_step 1 s1 (s1\<lparr>sched_clock := sched_clock s1 + 10\<rparr>)" by (rule batch_step.tick) simp
  then have 2: "batch_step 1 s1 s2" by (simp add: s2_def s1_def s0_def init_batch_def)
  have "batch_step 1 s2 (s2\<lparr>provider := (provider s2)\<lparr>last_request_ts := sched_clock s2\<rparr>,
      phases := (phases s2)[0 := In_flight], sent := sent s2 @ [sched_clock s2]\<rparr>)"
    by (rule batch_step.wake [where w = 20]) (simp_all add: s2_def s1_def)
  then have 3: "batch_step 1 s2 \<lparr>sched_clock = 20, provider = g\<lparr>last_request_ts := 20\<rparr>,
      phases = [In_flight, Queued], sent = [20]\<rparr>"
    by (simp add: s2_def s1_def s0_def init_batch_def)
  have run: "(batch_step 1)\<^sup>*\<^sup>* s0 \<lparr>sched_clock = 20, provider = g\<lparr>last_request_ts := 20\<rparr>,
      phases = [In_flight, Queued], sent = [20]\<rparr>"
    using 1 2 3 by (meson rtranclp.rtrancl_into_rtrancl rtranclp.rtrancl_refl)
  have "spaced 20 (last_request_ts g # [20])"
    using batch_serial_spaced [OF run [unfolded s0_def]] by (simp add: g_def new_translator_def)
  then show ?thesis using run unfolding s0_def g_def by simp
qed

end
