(* ===== verification/Font_Cache.thy ===== *)
theory Font_Cache
  imports Schemas "HOL-Library.AList"
begin

text \<open>
  The font side of \<open>services/render/font_manager.py\<close>: the font paths built from
  \<open>settings.font_mappings\<close> when the \<open>FontManager\<close> is constructed, the lookup with its
  language-family fallback, and \<open>get_font\<close> with its cache keyed by \<open>f"{language}_{size}"\<close>.
  The file system (\<open>Path.exists\<close>) and \<open>ImageFont.truetype\<close> are oracles; a font object is
  of an arbitrary type \<open>'f\<close>.
\<close>

datatype font_error =
    File_not_found string   \<comment> \<open>\<open>FileNotFoundError\<close> of \<open>_get_font_paths\<close>\<close>
  | No_font string          \<comment> \<open>\<open>ValueError\<close>: no font available for the language\<close>
  | Font_load_error         \<comment> \<open>the exception of \<open>ImageFont.truetype\<close>, re-raised\<close>

record 'f font_manager_state =
  fonts_cache :: "string \<rightharpoonup> 'f"
  font_paths :: "(string \<times> string) list"   \<comment> \<open>the dict \<open>self.font_paths\<close>, in insertion order\<close>

text \<open>\<open>_get_font_paths\<close>: the full path of each mapped file under the source directory
  \<open>base\<close>; a missing file raises.\<close>

fun font_paths_loop ::
  "(string \<Rightarrow> bool) \<Rightarrow> string \<Rightarrow> (string \<times> string) list \<Rightarrow> (string \<times> string) list \<Rightarrow>
   font_error + (string \<times> string) list" where
  "font_paths_loop exists base [] acc = Inr acc"
| "font_paths_loop exists base ((lang, rel) # rest) acc =
     (let full = base @ ''/'' @ rel in
      if exists full then font_paths_loop exists base rest (AList.update lang full acc)
      else Inl (File_not_found lang))"

definition new_font_manager :: "(string \<Rightarrow> bool) \<Rightarrow> string \<Rightarrow> font_error + 'f font_manager_state" where
  "new_font_manager exists base =
     (case font_paths_loop exists base font_mapping_list [] of
        Inl e \<Rightarrow> Inl e
      | Inr ps \<Rightarrow> Inr \<lparr>fonts_cache = Map.empty, font_paths = ps\<rparr>)"

definition lang_families :: "string \<Rightarrow> string option" where
  "lang_families = map_of
     [(''ja'', ''japanese''), (''jp'', ''japanese''), (''jpn'', ''japanese''),
      (''zh'', ''sim_chinese''), (''zh-cn'', ''sim_chinese''),
      (''zh-tw'', ''trad_chinese''), (''zh-hk'', ''trad_chinese''),
      (''cn'', ''sim_chinese''), (''tw'', ''trad_chinese''), (''hk'', ''trad_chinese''),
      (''chi'', ''sim_chinese''),
      (''ko'', ''korean''), (''kr'', ''korean''), (''kor'', ''korean''),
      (''en'', ''english''), (''eng'', ''english''),
      (''vi'', ''vietnamese''), (''vie'', ''vietnamese'')]"

definition get_font_path_for_language :: "'f font_manager_state \<Rightarrow> string \<Rightarrow> string option" where
  "get_font_path_for_language st lang =
     (case map_of (font_paths st) lang of
        Some p \<Rightarrow> Some p
      | None \<Rightarrow> (case lang_families (py_lower_str lang) of
                  Some fam \<Rightarrow> map_of (font_paths st) fam
                | None \<Rightarrow> None))"

definition py_str_int :: "int \<Rightarrow> string" where
  \<comment> \<open>\<open>str(n)\<close> of an int\<close>
  "py_str_int i = (if i < 0 then ''-'' @ nat_to_str (nat (- i)) else nat_to_str (nat i))"

definition cache_key :: "string \<Rightarrow> int \<Rightarrow> string" where
  "cache_key lang sz = lang @ ''_'' @ py_str_int sz"

definition get_font ::
  "(string \<Rightarrow> int \<Rightarrow> 'f option) \<Rightarrow> 'f font_manager_state \<Rightarrow> string \<Rightarrow> int \<Rightarrow>
   (font_error + 'f) \<times> 'f font_manager_state" where
  "get_font truetype st lang sz =
     (let k = cache_key lang sz in
      case fonts_cache st k of
        Some f \<Rightarrow> (Inr f, st)
      | None \<Rightarrow>
          (case get_font_path_for_language st lang of
             None \<Rightarrow> (Inl (No_font lang), st)
           | Some p \<Rightarrow>
               (case truetype p sz of
                  None \<Rightarrow> (Inl Font_load_error, st)
                | Some f \<Rightarrow> (Inr f, st\<lparr>fonts_cache := (fonts_cache st)(k \<mapsto> f)\<rparr>))))"

definition clear_cache :: "'f font_manager_state \<Rightarrow> 'f font_manager_state" where
  "clear_cache st = st\<lparr>fonts_cache := Map.empty\<rparr>"

definition get_available_fonts :: "'f font_manager_state \<Rightarrow> (string \<times> string) list" where
  "get_available_fonts st = font_paths st"

text \<open>What the cache promises: every entry is the font \<open>truetype\<close> loads for the path and the
  size the key names.\<close>

definition cache_ok :: "(string \<Rightarrow> int \<Rightarrow> 'f option) \<Rightarrow> 'f font_manager_state \<Rightarrow> bool" where
  "cache_ok truetype st \<longleftrightarrow>
     (\<forall>k f. fonts_cache st k = Some f \<longrightarrow>
        (\<exists>lang sz p. k = cache_key lang sz \<and> get_font_path_for_language st lang = Some p \<and>
                       truetype p sz = Some f))"

section \<open>Properties\<close>

lemma nat_to_str_no_sep: "CHR ''_'' \<notin> set (nat_to_str n)" "CHR ''-'' \<notin> set (nat_to_str n)"
proof -
  have "\<not> py_isdigit CHR ''_''" "\<not> py_isdigit CHR ''-''" by (simp_all add: py_isdigit_def)
  then show "CHR ''_'' \<notin> set (nat_to_str n)" "CHR ''-'' \<notin> set (nat_to_str n)"
    using nat_to_str_digits [of _ n] by blast+
qed

lemma py_str_int_no_sep: "CHR ''_'' \<notin> set (py_str_int i)"
  using nat_to_str_no_sep by (simp add: py_str_int_def)

lemma py_str_int_inj: "py_str_int i = py_str_int j \<Longrightarrow> i = j"
proof -
  have hd: "hd (nat_to_str n) \<noteq> CHR ''-''" for n
    using nat_to_str_no_sep(2) [of n] hd_in_set [OF nat_to_str_nonempty] by metis
  assume eq: "py_str_int i = py_str_int j"
  consider "i < 0" "j < 0" | "\<not> i < 0" "\<not> j < 0" | "i < 0" "\<not> j < 0" | "\<not> i < 0" "j < 0" by blast
  then show "i = j"
  proof cases
    case 1 then show ?thesis using eq by (simp add: py_str_int_def nat_to_str_inj)
  next
    case 2 then show ?thesis using eq by (simp add: py_str_int_def nat_to_str_inj)
  next
    case 3 then show ?thesis using eq hd [of "nat j"] by (simp add: py_str_int_def) (metis list.sel(1))
  next
    case 4 then show ?thesis using eq hd [of "nat i"] by (simp add: py_str_int_def)
  qed
qed

lemma split_at_sep: "c \<notin> set u \<Longrightarrow> c \<notin> set v \<Longrightarrow> u @ c # r = v @ c # r' \<Longrightarrow> u = v \<and> r = r'"
proof (induction u arbitrary: v)
  case Nil then show ?case by (cases v) auto
next
  case (Cons a u) then show ?case by (cases v) auto
qed

lemma cache_key_inj: "cache_key l s = cache_key l' s' \<Longrightarrow> l = l' \<and> s = s'"
proof -
  assume "cache_key l s = cache_key l' s'"
  then have "rev (l @ CHR ''_'' # py_str_int s) = rev (l' @ CHR ''_'' # py_str_int s')"
    by (simp add: cache_key_def)
  then have "rev (py_str_int s) @ CHR ''_'' # rev l = rev (py_str_int s') @ CHR ''_'' # rev l'"
    by simp
  then have "rev (py_str_int s) = rev (py_str_int s') \<and> rev l = rev l'"
    by (rule split_at_sep [rotated 2]) (simp_all add: py_str_int_no_sep)
  then show ?thesis using py_str_int_inj by simp
qed

lemma get_font_path_cache [simp]:
  "get_font_path_for_language (st\<lparr>fonts_cache := c\<rparr>) lang = get_font_path_for_language st lang"
  by (simp add: get_font_path_for_language_def cong: option.case_cong)

text \<open>
  C17. The cache of \<open>get_font\<close> is transparent: on a manager whose cache holds only fonts
  loaded for their key, \<open>get_font(language, size)\<close> answers what loading the font of the
  language's path at that size answers, and the cache keeps its property.
\<close>

theorem get_font_cached:
  assumes "cache_ok truetype st"
  shows "fst (get_font truetype st lang sz) =
           (case get_font_path_for_language st lang of
              None \<Rightarrow> Inl (No_font lang)
            | Some p \<Rightarrow> (case truetype p sz of None \<Rightarrow> Inl Font_load_error | Some f \<Rightarrow> Inr f)) \<and>
         cache_ok truetype (snd (get_font truetype st lang sz))"
proof (cases "fonts_cache st (cache_key lang sz)")
  case (Some f)
  then obtain lang' sz' p where "cache_key lang sz = cache_key lang' sz'" "get_font_path_for_language st lang' = Some p"
      "truetype p sz' = Some f"
    using assms Some unfolding cache_ok_def by blast
  then have "get_font_path_for_language st lang = Some p" "truetype p sz = Some f"
    using cache_key_inj by blast+
  then show ?thesis using Some assms by (simp add: get_font_def)
next
  case None
  show ?thesis
  proof (cases "get_font_path_for_language st lang")
    case (Some p)
    show ?thesis
    proof (cases "truetype p sz")
      case (Some f)
      have "cache_ok truetype (st\<lparr>fonts_cache := (fonts_cache st)(cache_key lang sz \<mapsto> f)\<rparr>)"
        using assms \<open>get_font_path_for_language st lang = Some p\<close> Some by (auto simp: cache_ok_def)
      then show ?thesis using None \<open>get_font_path_for_language st lang = Some p\<close> Some by (simp add: get_font_def)
    qed (simp add: get_font_def None Some assms)
  qed (simp add: get_font_def None assms)
qed

theorem get_font_cached_witness:
  "fst (get_font (\<lambda>p s. Some (p, s))
     (snd (get_font (\<lambda>p s. Some (p, s))
        \<lparr>fonts_cache = Map.empty, font_paths = [(''japanese'', ''src/fonts/GenEiAntique.ttf'')]\<rparr> ''ja'' 12))
     ''ja'' 12) = Inr (''src/fonts/GenEiAntique.ttf'', 12)"
proof -
  define st0 :: "(string \<times> int) font_manager_state" where
    "st0 = \<lparr>fonts_cache = Map.empty, font_paths = [(''japanese'', ''src/fonts/GenEiAntique.ttf'')]\<rparr>"
  have ok0: "cache_ok (\<lambda>p s. Some (p, s)) st0" by (simp add: cache_ok_def st0_def)
  have ok1: "cache_ok (\<lambda>p s. Some (p, s)) (snd (get_font (\<lambda>p s. Some (p, s)) st0 ''ja'' 12))"
    using get_font_cached [OF ok0] by simp
  have path: "get_font_path_for_language (snd (get_font (\<lambda>p s. Some (p, s)) st0 ''ja'' 12)) ''ja'' =
      Some ''src/fonts/GenEiAntique.ttf''"
    by (simp add: get_font_def st0_def get_font_path_for_language_def lang_families_def py_lower_str_def
        py_lower_code py_isupper_code Let_def split: option.split)
  show ?thesis using get_font_cached [OF ok1] path by (simp add: st0_def)
qed

end
