(* ===== verification/Base64.thy ===== *)
theory Base64
  imports Prelude
begin

text \<open>
  \<open>base64.b64encode\<close> and \<open>base64.b64decode\<close> as \<open>ImageUtils.image_to_base64\<close> and
  \<open>base64_to_image\<close> call them, over byte strings (a \<open>char\<close> is a byte). Decoding follows
  CPython's \<open>binascii.a2b_base64\<close> in its default, non-strict mode: characters outside the
  alphabet are skipped, padding ends the data once a quantum is complete, and a final
  incomplete quantum is an error (\<open>binascii.Error\<close>, here \<open>None\<close>); a \<open>str\<close> argument must be
  ASCII.
\<close>

definition b64_alphabet :: string where
  "b64_alphabet = ''ABCDEFGHIJKLMNOPQRSTUVWXYZabcdefghijklmnopqrstuvwxyz0123456789+/''"

definition b64_char :: "nat \<Rightarrow> char" where
  "b64_char i = b64_alphabet ! i"

definition b64_val :: "char \<Rightarrow> nat option" where
  "b64_val c = map_of (zip b64_alphabet [0..<64]) c"

text \<open>\<open>b2a_base64\<close>: each three bytes give four characters of six bits; a final one or two
  bytes are padded with \<open>=\<close>.\<close>

fun b64_encode :: "string \<Rightarrow> string" where
  "b64_encode (a # b # c # rest) =
     (let x = of_char a; y = of_char b; z = of_char c in
      [b64_char (x div 4), b64_char (x mod 4 * 16 + y div 16), b64_char (y mod 16 * 4 + z div 64),
       b64_char (z mod 64)] @ b64_encode rest)"
| "b64_encode [a, b] =
     (let x = of_char a; y = of_char b in
      [b64_char (x div 4), b64_char (x mod 4 * 16 + y div 16), b64_char (y mod 16 * 4), CHR ''=''])"
| "b64_encode [a] = (let x = of_char a in [b64_char (x div 4), b64_char (x mod 4 * 16), CHR ''='', CHR ''=''])"
| "b64_encode [] = []"

text \<open>The decoder's state: the position in the current quantum, the bits left over from the
  previous character, the padding characters seen since the last data character, and the
  bytes written. The bit fields joined by \<open>|\<close> in the C code are disjoint, so they are added.\<close>

record b64_state =
  quad_pos :: nat
  leftchar :: nat
  pads :: nat
  out_bytes :: string

fun b64_decode_loop :: "b64_state \<Rightarrow> string \<Rightarrow> string option" where
  "b64_decode_loop st [] = (if quad_pos st \<noteq> 0 then None else Some (out_bytes st))"
| "b64_decode_loop st (c # cs) =
     (if c = CHR ''='' then
        (if 2 \<le> quad_pos st \<and> 4 \<le> quad_pos st + pads st + 1 then Some (out_bytes st)
         else b64_decode_loop (st\<lparr>pads := pads st + 1\<rparr>) cs)
      else
        (case b64_val c of
           None \<Rightarrow> b64_decode_loop st cs
         | Some v \<Rightarrow>
             (if quad_pos st = 0 then b64_decode_loop (st\<lparr>quad_pos := 1, leftchar := v, pads := 0\<rparr>) cs
              else if quad_pos st = 1 then
                b64_decode_loop (st\<lparr>quad_pos := 2, leftchar := v mod 16, pads := 0,
                  out_bytes := out_bytes st @ [char_of (leftchar st * 4 + v div 16)]\<rparr>) cs
              else if quad_pos st = 2 then
                b64_decode_loop (st\<lparr>quad_pos := 3, leftchar := v mod 4, pads := 0,
                  out_bytes := out_bytes st @ [char_of (leftchar st * 16 + v div 4)]\<rparr>) cs
              else
                b64_decode_loop (st\<lparr>quad_pos := 0, leftchar := 0, pads := 0,
                  out_bytes := out_bytes st @ [char_of (leftchar st * 64 + v)]\<rparr>) cs)))"

definition b64_decode :: "string \<Rightarrow> string option" where
  "b64_decode s =
     (if \<exists>c \<in> set s. 128 \<le> (of_char c :: nat) then None
      else b64_decode_loop \<lparr>quad_pos = 0, leftchar = 0, pads = 0, out_bytes = []\<rparr> s)"

subsection \<open>Round trip\<close>

lemma b64_alphabet_facts:
  "distinct b64_alphabet" "length b64_alphabet = 64" "CHR ''='' \<notin> set b64_alphabet"
  "\<forall>c \<in> set b64_alphabet. (of_char c :: nat) < 128"
  by (simp_all add: b64_alphabet_def)

lemma b64_val_char [simp]: "i < 64 \<Longrightarrow> b64_val (b64_char i) = Some i"
  using map_of_zip_nth [of b64_alphabet "[0..<64]" i] b64_alphabet_facts
  by (simp add: b64_val_def b64_char_def)

lemma b64_char_in_alphabet: "i < 64 \<Longrightarrow> b64_char i \<in> set b64_alphabet"
  using b64_alphabet_facts(2) by (simp add: b64_char_def)

lemma b64_char_not_pad [simp]: "i < 64 \<Longrightarrow> b64_char i \<noteq> CHR ''=''"
  using b64_char_in_alphabet b64_alphabet_facts(3) by metis

lemma b64_bits_hi:
  fixes x y :: nat
  assumes "y < 256"
  shows "(x mod 4 * 16 + y div 16) div 16 = x mod 4" "(x mod 4 * 16 + y div 16) mod 16 = y div 16"
    "x mod 4 * 16 + y div 16 < 64"
  using assms by auto

lemma b64_bits_lo:
  fixes y z :: nat
  assumes "z < 256"
  shows "(y mod 16 * 4 + z div 64) div 4 = y mod 16" "(y mod 16 * 4 + z div 64) mod 4 = z div 64"
    "y mod 16 * 4 + z div 64 < 64"
  using assms by auto

lemma b64_rejoin:
  fixes x :: nat
  shows "x div 4 * 4 + x mod 4 = x" "x div 16 * 16 + x mod 16 = x" "x div 64 * 64 + x mod 64 = x"
  by simp_all

lemma b64_byte_bounds:
  "(of_char c :: nat) < 256" "(of_char c :: nat) div 4 < 64" "(of_char c :: nat) mod 64 < 64"
  "(of_char c :: nat) mod 16 * 4 < 64" "(of_char c :: nat) mod 4 * 16 < 64"
  using nat_of_char_less_256 [of c] by (simp_all add: less_mult_imp_div_less)

lemma b64_byte_fields [simp]:
  "(of_char c :: nat) div 16 div 16 = 0" "(of_char c :: nat) div 64 div 4 = 0"
  "(of_char c :: nat) div 64 mod 4 = of_char c div 64" "(of_char c :: nat) div 16 mod 16 = of_char c div 16"
  using nat_of_char_less_256 [of c] by (simp_all add: div_mult2_eq less_mult_imp_div_less)

lemma b64_decode_loop_encode:
  "quad_pos st = 0 \<Longrightarrow> b64_decode_loop st (b64_encode s) = Some (out_bytes st @ s)"
proof (induction s arbitrary: st rule: b64_encode.induct)
  case (1 a b c rest)
  then show ?case
    by (simp add: Let_def b64_byte_bounds b64_bits_hi b64_bits_lo b64_rejoin)
next
  case (2 a b)
  then show ?case
    by (simp add: Let_def b64_byte_bounds b64_bits_hi b64_rejoin)
next
  case (3 a)
  then show ?case
    by (simp add: Let_def b64_byte_bounds b64_rejoin)
next
  case 4
  then show ?case by simp
qed

lemma b64_encode_chars: "c \<in> set (b64_encode s) \<Longrightarrow> c \<in> set b64_alphabet \<or> c = CHR ''=''"
  by (induction s rule: b64_encode.induct)
     (auto simp: Let_def b64_char_in_alphabet b64_byte_bounds b64_bits_hi b64_bits_lo)

lemma b64_encode_ascii: "\<forall>c \<in> set (b64_encode s). (of_char c :: nat) < 128"
  using b64_encode_chars b64_alphabet_facts(4) by fastforce

lemma b64_encode_length: "length (b64_encode s) = 4 * ((length s + 2) div 3)"
  by (induction s rule: b64_encode.induct) (simp_all add: Let_def, presburger)

lemma b64_val_alphabet: "c \<in> set b64_alphabet \<Longrightarrow> b64_val c \<noteq> None"
  using b64_alphabet_facts(2) by (simp add: b64_val_def dom_map_of_zip flip: domIff)

text \<open>Without padding, data whose length leaves an incomplete quantum is refused
  (\<open>binascii.Error: Incorrect padding\<close>), and a complete one is accepted.\<close>

lemma b64_decode_loop_data:
  assumes "b64_val c = Some v" "c \<noteq> CHR ''=''" "quad_pos st < 4"
  shows "\<exists>st'. quad_pos st' = Suc (quad_pos st) mod 4 \<and>
           b64_decode_loop st (c # cs) = b64_decode_loop st' cs"
proof -
  consider "quad_pos st = 0" | "quad_pos st = 1" | "quad_pos st = 2" | "quad_pos st = 3"
    using assms(3) by linarith
  then show ?thesis
    using assms(1,2) by cases (simp, rule exI, rule conjI [OF _ refl], simp)+
qed

lemma b64_decode_loop_unpadded:
  "set s \<subseteq> set b64_alphabet \<Longrightarrow> quad_pos st < 4 \<Longrightarrow>
   (b64_decode_loop st s = None) = ((quad_pos st + length s) mod 4 \<noteq> 0)"
proof (induction s arbitrary: st)
  case Nil
  then show ?case by simp
next
  case (Cons c s)
  then obtain v where "b64_val c = Some v" and "c \<noteq> CHR ''=''"
    using b64_val_alphabet b64_alphabet_facts(3) by fastforce
  then obtain st' where q: "quad_pos st' = Suc (quad_pos st) mod 4"
    and eq: "b64_decode_loop st (c # s) = b64_decode_loop st' s"
    using b64_decode_loop_data Cons.prems(2) by blast
  have "(Suc (quad_pos st) mod 4 + length s) mod 4 = (quad_pos st + length (c # s)) mod 4"
    by (simp add: mod_add_left_eq)
  then show ?case
    using Cons.IH [of st'] Cons.prems(1) q eq by simp
qed

text \<open>Base64 decoding inverts base64 encoding on every byte string:
  \<open>b64decode(b64encode(b))\<close> gives \<open>b\<close> back, padding included.\<close>

lemma b64_decode_encode: "b64_decode (b64_encode s) = Some s"
  using b64_encode_ascii [of s] b64_decode_loop_encode [of "\<lparr>quad_pos = 0, leftchar = 0, pads = 0, out_bytes = []\<rparr>" s]
  by (auto simp: b64_decode_def)

end
