(* ===== verification/Image_Codec.thy ===== *)
theory Image_Codec
  imports Image_Utils Routes Base64
begin

text \<open>
  The conversions of \<open>utils/image_utils.py\<close> between an image and base64 text:
  \<open>ImageUtils.image_to_base64\<close> (PNG bytes by \<open>save_image_to_bytes\<close>, then
  \<open>base64.b64encode\<close>) and \<open>ImageUtils.base64_to_image\<close> (\<open>base64.b64decode\<close>, then
  \<open>load_image_from_bytes\<close>). Image encoding and decoding are the oracles of
  \<open>Image_Utils\<close> and \<open>Routes\<close>; the base64 codec is the one of \<open>Base64\<close>.
\<close>

text \<open>Any exception, of the encoder or of the codec, is re-raised as a \<open>ProcessingError\<close>
  with the function's own message; \<open>.decode('utf-8')\<close> of base64 output cannot fail.\<close>

definition image_to_base64 :: "('img \<Rightarrow> string \<Rightarrow> string option) \<Rightarrow> 'img \<Rightarrow> string \<Rightarrow> api_exc + string" where
  "image_to_base64 encode img format =
     (case save_image_to_bytes encode img format of
        Inl _ \<Rightarrow> Inl (Processing_error ''Failed to convert image to base64'')
      | Inr bs \<Rightarrow> Inr (b64_encode bs))"

definition base64_to_image :: "(string \<Rightarrow> 'img option) \<Rightarrow> string \<Rightarrow> api_exc + 'img" where
  "base64_to_image decode s =
     (case b64_decode s of
        None \<Rightarrow> Inl (Processing_error ''Failed to convert base64 to image'')
      | Some bs \<Rightarrow>
          (case load_image_from_bytes decode bs of
             Inl _ \<Rightarrow> Inl (Processing_error ''Failed to convert base64 to image'')
           | Inr img \<Rightarrow> Inr img))"

text \<open>
  C39. Sending an image through \<open>image_to_base64\<close> and back through \<open>base64_to_image\<close> is
  the same as encoding it to bytes and decoding those bytes: the text transport loses
  nothing, and each failure is reported with the message of the step that failed.
\<close>

theorem image_base64_roundtrip:
  "(case image_to_base64 enc img fmt of Inl e \<Rightarrow> Inl e | Inr s \<Rightarrow> base64_to_image dec s) =
     (case enc img fmt of
        None \<Rightarrow> Inl (Processing_error ''Failed to convert image to base64'')
      | Some bs \<Rightarrow>
          (case dec bs of
             None \<Rightarrow> Inl (Processing_error ''Failed to convert base64 to image'')
           | Some i \<Rightarrow> Inr i))"
  by (simp add: image_to_base64_def base64_to_image_def save_image_to_bytes_def load_image_from_bytes_def
      b64_decode_encode split: option.splits)

text \<open>A string with an incomplete last group of four characters is refused.\<close>

lemma base64_to_image_incomplete:
  "set s \<subseteq> set b64_alphabet \<Longrightarrow> length s mod 4 \<noteq> 0 \<Longrightarrow>
   base64_to_image dec s = Inl (Processing_error ''Failed to convert base64 to image'')"
proof -
  assume a: "set s \<subseteq> set b64_alphabet" "length s mod 4 \<noteq> 0"
  have "\<forall>c \<in> set s. (of_char c :: nat) < 128" using a(1) b64_alphabet_facts(4) by blast
  moreover have "b64_decode_loop \<lparr>quad_pos = 0, leftchar = 0, pads = 0, out_bytes = []\<rparr> s = None"
    using b64_decode_loop_unpadded [OF a(1), of "\<lparr>quad_pos = 0, leftchar = 0, pads = 0, out_bytes = []\<rparr>"] a(2)
    by simp
  ultimately show ?thesis by (auto simp: base64_to_image_def b64_decode_def)
qed

end
