(* ===== verification/Ocr_Engines.thy ===== *)
theory Ocr_Engines
  imports Ocr Inpaint
begin

text \<open>
  The two recognition engines behind \<open>OCRManager\<close>: \<open>services/ocr/easy_ocr.py\<close>
  (\<open>EasyOCRService\<close>) and \<open>services/ocr/manga_ocr.py\<close> (\<open>MangaOCRService\<close>). The neural models
  are oracles: whether \<open>easyocr.Reader(codes, gpu)\<close> and \<open>MangaOcr()\<close> load, what
  \<open>readtext\<close> detects (its corner points, already integers, so \<open>astype(int)\<close> keeps them) and
  what MangaOCR reads in a crop. The code around them is modelled: the readers' GPU/CPU
  fallback, the box of a detection (\<open>points.min(axis=0)\<close>, \<open>points.max(axis=0)\<close>), the
  empty-crop and empty-text filters, and the merge both engines apply.
\<close>

subsection \<open>The box of a detection\<close>

text \<open>\<open>x1, y1 = points.min(axis=0); x2, y2 = points.max(axis=0)\<close>; the minimum of an empty
  array raises \<open>ValueError\<close>.\<close>

definition bbox_of_points :: "(int \<times> int) list \<Rightarrow> bounding_box option" where
  "bbox_of_points ps =
     (case ps of
        [] \<Rightarrow> None
      | p # qs \<Rightarrow> Some (mk_bbox (fold min (map fst qs) (fst p)) (fold min (map snd qs) (snd p))
                             (fold max (map fst qs) (fst p)) (fold max (map snd qs) (snd p))))"

subsection \<open>EasyOCR (\<open>EasyOCRService\<close>)\<close>

definition easy_configs :: "(string \<times> string list) list" where
  "easy_configs =
     [(''english'', [''en'']), (''japanese'', [''ja'', ''en'']), (''sim_chinese'', [''ch_sim'', ''en'']),
      (''trad_chinese'', [''ch_tra'', ''en'']), (''korean'', [''ko'', ''en'']), (''vietnamese'', [''vi'', ''en''])]"

text \<open>\<open>easyocr.Reader(codes, gpu=g)\<close> loads or raises.\<close>

type_synonym reader_ctor = "string list \<Rightarrow> bool \<Rightarrow> bool"

text \<open>\<open>_init_readers\<close>: each language gets a GPU reader, else a CPU reader, else none (the
  failure is logged). The dict \<open>self.readers\<close> maps a language to the device of its reader.\<close>

fun easy_init_readers ::
  "reader_ctor \<Rightarrow> (string \<times> string list) list \<Rightarrow> (string \<times> bool) list \<Rightarrow> (string \<times> bool) list" where
  "easy_init_readers mk [] rs = rs"
| "easy_init_readers mk ((lang, codes) # cfg) rs =
     easy_init_readers mk cfg
       (if mk codes True then dict_set lang True rs
        else if mk codes False then dict_set lang False rs else rs)"

definition easy_readers :: "reader_ctor \<Rightarrow> (string \<times> bool) list" where
  "easy_readers mk = easy_init_readers mk easy_configs []"

text \<open>The constructor never raises; the service is available when some reader loaded
  (\<open>len(self.readers) > 0\<close>).\<close>

definition easy_ocr_ctor :: "reader_ctor \<Rightarrow> ocr_ctor" where
  "easy_ocr_ctor mk = Ctor_ok (easy_readers mk \<noteq> [])"

text \<open>\<open>readtext(image, paragraph=True)\<close> gives pairs of corner points and text.\<close>

fun easy_boxes :: "((int \<times> int) list \<times> string) list \<Rightarrow> ocr_error + text_box list" where
  "easy_boxes [] = Inr []"
| "easy_boxes ((pts, t) # ds) =
     (if py_strip t \<noteq> [] then
        (case bbox_of_points pts of
           None \<Rightarrow> Inl Engine_error
         | Some b \<Rightarrow> (case easy_boxes ds of Inl e \<Rightarrow> Inl e | Inr bs \<Rightarrow> Inr (mk_text_box (py_strip t) b # bs)))
      else easy_boxes ds)"

text \<open>\<open>extract_text\<close>: \<open>ValueError\<close> without a reader for the language, then the reader's
  detections (\<open>None\<close> when it raises), the boxes, and the merge.\<close>

definition easy_extract_text ::
  "(string \<Rightarrow> ((int \<times> int) list \<times> string) list option) \<Rightarrow> (string \<times> bool) list \<Rightarrow> string \<Rightarrow>
   ocr_error + text_box list" where
  "easy_extract_text readtext readers lang =
     (case map_of readers lang of
        None \<Rightarrow> Inl Engine_error
      | Some _ \<Rightarrow>
          (case readtext lang of
             None \<Rightarrow> Inl Engine_error
           | Some ds \<Rightarrow>
               (case easy_boxes ds of
                  Inl e \<Rightarrow> Inl e
                | Inr bs \<Rightarrow> (if merge_nearby_textboxes then merge_nearby_boxes 20 bs else Inr bs))))"

subsection \<open>MangaOCR (\<open>MangaOCRService\<close>)\<close>

text \<open>The constructor loads \<open>MangaOcr()\<close> and a GPU \<open>easyocr.Reader(['ja', 'en'])\<close> with no
  fallback: either failure raises. Once built, \<open>is_available\<close> is true.\<close>

definition manga_ocr_ctor :: "bool \<Rightarrow> reader_ctor \<Rightarrow> ocr_ctor" where
  "manga_ocr_ctor mocr_loads mk = (if mocr_loads \<and> mk [''ja'', ''en''] True then Ctor_ok True else Ctor_raises)"

definition engines_env :: "bool \<Rightarrow> reader_ctor \<Rightarrow> ocr_env" where
  "engines_env mocr_loads mk k =
     (case k of Easy_ocr \<Rightarrow> easy_ocr_ctor mk | Manga_ocr \<Rightarrow> manga_ocr_ctor mocr_loads mk)"

text \<open>The loop of \<open>extract_text\<close> over the detections of an image of \<open>h\<close> rows and \<open>w\<close>
  columns: an empty crop \<open>rgb_img[y1:y2, x1:x2]\<close> is skipped, an exception of the recogniser
  \<open>mocr\<close> (\<open>None\<close>) reads as the empty text, and only a non-empty stripped text makes a box.
  The detector's own text and confidence are discarded.\<close>

fun manga_boxes ::
  "nat \<Rightarrow> nat \<Rightarrow> (bounding_box \<Rightarrow> string option) \<Rightarrow> (int \<times> int) list list \<Rightarrow> ocr_error + text_box list" where
  "manga_boxes h w mocr [] = Inr []"
| "manga_boxes h w mocr (pts # ds) =
     (case bbox_of_points pts of
        None \<Rightarrow> Inl Engine_error
      | Some b \<Rightarrow>
          (if roi_empty h w b then manga_boxes h w mocr ds
           else
             (let t = (case mocr b of None \<Rightarrow> [] | Some s \<Rightarrow> py_strip s) in
              if t \<noteq> [] then
                (case manga_boxes h w mocr ds of Inl e \<Rightarrow> Inl e | Inr bs \<Rightarrow> Inr (mk_text_box t b # bs))
              else manga_boxes h w mocr ds)))"

text \<open>\<open>extract_text(image, language)\<close>: the language is not used; \<open>readtext\<close> (\<open>None\<close> when it
  raises), the loop, and the merge.\<close>

definition manga_extract_text ::
  "(int \<times> int) list list option \<Rightarrow> (bounding_box \<Rightarrow> string option) \<Rightarrow> nat \<Rightarrow> nat \<Rightarrow> ocr_error + text_box list" where
  "manga_extract_text detections mocr h w =
     (case detections of
        None \<Rightarrow> Inl Engine_error
      | Some ds \<Rightarrow>
          (case manga_boxes h w mocr ds of
             Inl e \<Rightarrow> Inl e
           | Inr bs \<Rightarrow> (if merge_nearby_textboxes then merge_nearby_boxes 20 bs else Inr bs)))"

subsection \<open>Boxes of detections\<close>

lemma fold_min_le: "fold min xs (a :: int) \<le> a"
proof (induction xs arbitrary: a)
  case (Cons x xs)
  then show ?case using Cons.IH [of "min x a"] by simp
qed simp

lemma fold_max_ge: "(a :: int) \<le> fold max xs a"
proof (induction xs arbitrary: a)
  case (Cons x xs)
  show ?case using order_trans [OF max.cobounded2 [of a x] Cons.IH [of "max x a"]] by simp
qed simp

lemma fold_min_le_fold_max: "fold min xs a \<le> fold max ys (a :: int)"
  by (rule order_trans [OF fold_min_le fold_max_ge])

lemma bbox_of_points_ordered: "bbox_of_points ps = Some b \<Longrightarrow> x1 b \<le> x2 b \<and> y1 b \<le> y2 b"
  by (auto simp: bbox_of_points_def mk_bbox_def fold_min_le_fold_max split: list.splits)

text \<open>A crop that is not empty has a box that is not degenerate: the corners come from a
  minimum and a maximum, and equal bounds give an empty slice.\<close>

lemma roi_nonempty_wf: "\<not> roi_empty h w b \<Longrightarrow> x1 b \<le> x2 b \<Longrightarrow> y1 b \<le> y2 b \<Longrightarrow> bbox_wf b"
  by (auto simp: roi_empty_def bbox_wf_def order_le_less)

lemma manga_boxes_sound:
  "manga_boxes h w mocr ds = Inr bs \<Longrightarrow> tb \<in> set bs \<Longrightarrow>
   bbox_wf (bbox tb) \<and> \<not> roi_empty h w (bbox tb) \<and> \<not> py_blank (box_text tb) \<and> translated_text tb = []"
proof (induction ds arbitrary: bs)
  case (Cons pts ds)
  then obtain b where b: "bbox_of_points pts = Some b"
    by (auto split: option.splits)
  show ?case
  proof (cases "roi_empty h w b")
    case True
    then have "manga_boxes h w mocr ds = Inr bs" using Cons.prems(1) b by simp
    then show ?thesis using Cons.IH Cons.prems(2) by blast
  next
    case ne: False
    define t where "t = (case mocr b of None \<Rightarrow> [] | Some s \<Rightarrow> py_strip s)"
    have step: "manga_boxes h w mocr (pts # ds) =
      (if t \<noteq> [] then (case manga_boxes h w mocr ds of Inl e \<Rightarrow> Inl e | Inr bs \<Rightarrow> Inr (mk_text_box t b # bs))
       else manga_boxes h w mocr ds)"
      using b ne unfolding t_def by (simp add: Let_def)
    show ?thesis
    proof (cases "t = []")
      case True
      then have "manga_boxes h w mocr ds = Inr bs" using Cons.prems(1) step by simp
      then show ?thesis using Cons.IH Cons.prems(2) by blast
    next
      case False
      then obtain bs' where r: "manga_boxes h w mocr ds = Inr bs'" and bs: "bs = mk_text_box t b # bs'"
        using Cons.prems(1) step by (auto split: sum.splits)
      obtain s where "t = py_strip s"
        using False by (auto simp: t_def split: option.splits)
      then have "\<not> py_blank t" using False py_strip_nonempty_not_blank by simp
      moreover have "bbox_wf b"
        using ne bbox_of_points_ordered [OF b] roi_nonempty_wf by blast
      ultimately show ?thesis
        using Cons.IH [OF r] Cons.prems(2) ne bs by (auto simp: mk_text_box_def)
    qed
  qed
qed simp

lemma easy_boxes_sound:
  "easy_boxes ds = Inr bs \<Longrightarrow> tb \<in> set bs \<Longrightarrow>
   x1 (bbox tb) \<le> x2 (bbox tb) \<and> y1 (bbox tb) \<le> y2 (bbox tb) \<and> \<not> py_blank (box_text tb)"
proof (induction ds arbitrary: bs)
  case (Cons d ds)
  obtain pts t where d: "d = (pts, t)" by fastforce
  show ?case
  proof (cases "py_strip t = []")
    case True
    then have "easy_boxes ds = Inr bs" using Cons.prems(1) d by simp
    then show ?thesis using Cons.IH Cons.prems(2) by blast
  next
    case False
    then obtain b bs' where b: "bbox_of_points pts = Some b" and r: "easy_boxes ds = Inr bs'"
      and bs: "bs = mk_text_box (py_strip t) b # bs'"
      using Cons.prems(1) d by (auto split: option.splits sum.splits)
    show ?thesis
      using Cons.IH [OF r] Cons.prems(2) bs bbox_of_points_ordered [OF b] False py_strip_nonempty_not_blank
      by (auto simp: mk_text_box_def)
  qed
qed simp

lemma merge_nearby_boxes_Inr: "merge_nearby_boxes th bs = Inr ms \<Longrightarrow> ms = bs"
  using merge_outer_char [of "{}" 0 bs th] by (simp add: merge_nearby_boxes_def split: if_splits)

subsection \<open>Readers and construction\<close>

lemma map_of_dict_set [simp]: "map_of (dict_set k v ps) = (map_of ps)(k \<mapsto> v)"
  by (induction ps rule: dict_set.induct) (auto simp: fun_eq_iff)

lemma dict_set_nonempty: "dict_set k v ps \<noteq> []"
  by (cases ps) (auto split: if_splits)

lemma easy_init_readers_map_of:
  "distinct (map fst cfg) \<Longrightarrow>
   map_of (easy_init_readers mk cfg rs) l =
     (case map_of cfg l of
        None \<Rightarrow> map_of rs l
      | Some codes \<Rightarrow> (if mk codes True then Some True else if mk codes False then Some False else map_of rs l))"
proof (induction mk cfg rs rule: easy_init_readers.induct)
  case (2 mk lang codes cfg rs)
  then have "lang \<notin> fst ` set cfg" by simp
  then have "l = lang \<Longrightarrow> map_of cfg l = None" by (simp add: map_of_eq_None_iff)
  then show ?case using 2 by (auto split: option.splits)
qed simp

text \<open>Every language of \<open>configs\<close> has a reader exactly when its GPU or its CPU reader loads,
  and it runs on the GPU when that one loads.\<close>

lemma easy_readers_map_of:
  "map_of (easy_readers mk) l =
     (case map_of easy_configs l of
        None \<Rightarrow> None
      | Some codes \<Rightarrow> (if mk codes True then Some True else if mk codes False then Some False else None))"
proof -
  have "distinct (map fst easy_configs)" by (simp add: easy_configs_def)
  from easy_init_readers_map_of [OF this, of mk "[]" l] show ?thesis
    by (simp add: easy_readers_def split: option.splits)
qed

text \<open>
  C38. Every box \<open>MangaOCRService.extract_text\<close> returns satisfies the spec's invariant of a
  text box: \<open>x1 < x2\<close> and \<open>y1 < y2\<close>, a non-empty crop of the image, a non-blank text and no
  translation yet.
\<close>

theorem manga_extract_text_wf:
  assumes "manga_extract_text detections mocr h w = Inr bs" "tb \<in> set bs"
  shows "bbox_wf (bbox tb) \<and> \<not> roi_empty h w (bbox tb) \<and> \<not> py_blank (box_text tb) \<and>
         translated_text tb = []"
proof -
  obtain ds ms where "detections = Some ds" "manga_boxes h w mocr ds = Inr ms"
    "merge_nearby_boxes 20 ms = Inr bs"
    using assms(1) by (auto simp: manga_extract_text_def merge_nearby_textboxes_def split: option.splits sum.splits)
  then show ?thesis
    using manga_boxes_sound assms(2) merge_nearby_boxes_Inr by blast
qed

text \<open>Building the engines inside \<open>OCRManager.initialize\<close> fails exactly when MangaOCR's
  model or its GPU reader fails to load; EasyOCR never raises, it is registered when one of
  its readers loaded, and MangaOCR comes after it.\<close>

theorem engines_initialize:
  "ocr_initialize (engines_env ml mk) new_ocr_manager =
     (let easy = (if easy_readers mk \<noteq> [] then [(''easy'', Easy_ocr)] else []) in
      if ml \<and> mk [''ja'', ''en''] True
      then (Inr (), \<lparr>ocr_services = easy @ [(''manga'', Manga_ocr)], ocr_initialized = True\<rparr>)
      else (Inl Init_error, \<lparr>ocr_services = easy, ocr_initialized = False\<rparr>))"
  by (simp add: ocr_initialize_def new_ocr_manager_def engines_env_def easy_ocr_ctor_def
      manga_ocr_ctor_def Let_def)

subsection \<open>Concrete runs\<close>

theorem manga_extract_text_wf_witness:
  "bbox_wf (mk_bbox 0 0 10 5) \<and> \<not> py_blank ''hi''"
proof -
  have e: "manga_extract_text (Some [[(0, 0), (10, 0), (10, 5), (0, 5)], [(3, 3), (3, 3)]])
             (\<lambda>b. Some '' hi '') 100 100 = Inr [mk_text_box ''hi'' (mk_bbox 0 0 10 5)]"
    by code_simp
  show ?thesis
    using manga_extract_text_wf [OF e, of "mk_text_box ''hi'' (mk_bbox 0 0 10 5)"]
    by (simp add: mk_text_box_def)
qed

text \<open>EasyOCR does not keep the invariant: a detection whose corners share a column gives a
  box of width zero.\<close>

theorem easy_extract_text_degenerate:
  "easy_extract_text (\<lambda>l. Some [([(3, 3), (3, 9)], '' a'')]) (easy_readers (\<lambda>cs g. \<not> g)) ''korean'' =
     Inr [mk_text_box ''a'' (mk_bbox 3 3 3 9)] \<and> \<not> bbox_wf (mk_bbox 3 3 3 9)"
  by code_simp

end
