(* ===== verification/App.thy ===== *)
theory App
  imports Ocr_Engines Manager
begin

text \<open>
  \<open>main.py\<close>, the application entry point: the logging handlers, the \<open>lifespan\<close> context
  that builds the two managers at startup and is meant to release them at shutdown, the
  root endpoint, and the \<open>__main__\<close> block that starts uvicorn. The middleware and exception
  handlers of the same file are in \<open>Http_Layer\<close>. The managers \<open>lifespan\<close> builds are module
  globals that no route reads (each \<open>MangaTranslationOrchestrator\<close> builds its own).
\<close>

subsection \<open>Settings and logging\<close>

definition settings_log_to_file :: bool where
  "settings_log_to_file = True"

definition settings_app_version :: string where
  "settings_app_version = ''0.0.0''"

text \<open>\<open>__main__\<close> reads \<open>settings.HOST\<close>, \<open>settings.PORT\<close> and \<open>settings.DEBUG\<close>; \<open>Settings\<close>
  declares the fields \<open>host\<close>, \<open>port\<close> and \<open>debug\<close> (with those names only as environment
  variables), so the attributes do not exist.\<close>

definition settings_HOST :: "string option" where
  "settings_HOST = None"

definition settings_PORT :: "int option" where
  "settings_PORT = None"

definition settings_DEBUG :: "bool option" where
  "settings_DEBUG = None"

datatype log_handler = Stream_handler_stdout | File_handler string | Null_handler

definition log_handlers :: "log_handler list" where
  "log_handlers =
     [Stream_handler_stdout, if settings_log_to_file then File_handler ''manga_translation.log'' else Null_handler]"

subsection \<open>The lifespan\<close>

datatype app_error =
    Startup_ocr_failed ocr_error               \<comment> \<open>\<open>ocr_manager.initialize()\<close> raised\<close>
  | Startup_translation_failed manager_error   \<comment> \<open>\<open>translation_manager.initialize()\<close> raised\<close>
  | App_attribute_error string                 \<comment> \<open>an attribute the object does not have\<close>

text \<open>The module globals \<open>ocr_manager\<close> and \<open>translation_manager\<close>.\<close>

record app_globals =
  g_ocr_manager :: "ocr_manager option"
  g_translation_manager :: "manager option"

definition app_globals0 :: app_globals where
  "app_globals0 = \<lparr>g_ocr_manager = None, g_translation_manager = None\<rparr>"

text \<open>Startup: \<open>OCRManager()\<close> and its \<open>initialize\<close>, then \<open>TranslationManager()\<close> (no DeepL
  key) and its \<open>initialize\<close>; an exception is logged and raised again, so the application
  does not start.\<close>

definition lifespan_startup :: "ocr_env \<Rightarrow> deepl_env \<Rightarrow> app_globals \<Rightarrow> app_error + app_globals" where
  "lifespan_startup oenv denv g =
     (case ocr_initialize oenv new_ocr_manager of
        (Inl e, _) \<Rightarrow> Inl (Startup_ocr_failed e)
      | (Inr _, om) \<Rightarrow>
          (case initialize_sync denv (new_manager None) of
             Inl e \<Rightarrow> Inl (Startup_translation_failed e)
           | Inr tm \<Rightarrow> Inr (g\<lparr>g_ocr_manager := Some om, g_translation_manager := Some tm\<rparr>)))"

text \<open>Shutdown: \<open>await translation_manager.cleanup()\<close>, then \<open>await ocr_manager.cleanup()\<close>,
  each when its global is set (a manager object is truthy). Both classes define \<open>close\<close>,
  not \<open>cleanup\<close>: the first call raises \<open>AttributeError\<close>, which the \<open>except\<close> logs, and
  nothing is closed. The outcome is what is logged, with the globals after shutdown.\<close>

definition lifespan_shutdown :: "app_globals \<Rightarrow> (app_error + unit) \<times> app_globals" where
  "lifespan_shutdown g =
     (if g_translation_manager g \<noteq> None then (Inl (App_attribute_error ''cleanup''), g)
      else if g_ocr_manager g \<noteq> None then (Inl (App_attribute_error ''cleanup''), g)
      else (Inr (), g))"

definition lifespan :: "ocr_env \<Rightarrow> deepl_env \<Rightarrow> app_error + (app_error + unit) \<times> app_globals" where
  "lifespan oenv denv =
     (case lifespan_startup oenv denv app_globals0 of
        Inl e \<Rightarrow> Inl e
      | Inr g \<Rightarrow> Inr (lifespan_shutdown g))"

subsection \<open>Endpoints and the entry point\<close>

definition root :: "(string \<times> string) list" where
  "root =
     [(''message'', ''Ink Translation API''), (''version'', settings_app_version), (''status'', ''running''),
      (''docs'', ''/docs''), (''health'', ''/api/v1/health'')]"

record uvicorn_config =
  uv_host :: string
  uv_port :: int
  uv_reload :: bool
  uv_log_level :: string
  uv_access_log :: bool

definition main_entry :: "app_error + uvicorn_config" where
  "main_entry =
     (case settings_HOST of
        None \<Rightarrow> Inl (App_attribute_error ''HOST'')
      | Some h \<Rightarrow>
          (case settings_PORT of
             None \<Rightarrow> Inl (App_attribute_error ''PORT'')
           | Some p \<Rightarrow>
               (case settings_DEBUG of
                  None \<Rightarrow> Inl (App_attribute_error ''DEBUG'')
                | Some d \<Rightarrow>
                    Inr \<lparr>uv_host = h, uv_port = p, uv_reload = d,
                         uv_log_level = (if d then ''info'' else ''warning''), uv_access_log = d\<rparr>)))"

subsection \<open>Properties\<close>

lemma initialize_sync_new_manager:
  "\<exists>tm. initialize_sync denv (new_manager None) = Inr tm \<and> initialized tm \<and> translators tm \<noteq> []"
  by (simp add: initialize_sync_def new_manager_def key_truthy_def add_translator_def)

lemma ocr_initialize_Inr_initialized:
  "ocr_initialize oenv m = (Inr u, om) \<Longrightarrow> ocr_initialized om"
  by (auto simp: ocr_initialize_def split: if_splits prod.splits sum.splits)

text \<open>Startup fails exactly when the OCR manager's \<open>initialize\<close> raises: the translation
  manager always comes up, with Google.\<close>

lemma lifespan_startup_fails:
  "(\<exists>e. lifespan_startup oenv denv g = Inl e) \<longleftrightarrow> fst (ocr_initialize oenv new_ocr_manager) \<noteq> Inr ()"
  using initialize_sync_new_manager [of denv]
  by (auto simp: lifespan_startup_def split: prod.splits sum.splits)

text \<open>
  C40. A shutdown never releases the managers: after a successful startup, \<open>lifespan\<close> ends
  with the \<open>AttributeError\<close> of \<open>cleanup\<close> logged and both globals still holding their
  initialised managers, the translators not closed.
\<close>

theorem lifespan_keeps_managers_open:
  assumes "lifespan oenv denv = Inr (r, g)"
  shows "r = Inl (App_attribute_error ''cleanup'') \<and>
         (\<exists>om tm. g_ocr_manager g = Some om \<and> g_translation_manager g = Some tm \<and>
                  ocr_initialized om \<and> initialized tm \<and> translators tm \<noteq> [])"
  using assms initialize_sync_new_manager [of denv] ocr_initialize_Inr_initialized
  by (auto simp: lifespan_def lifespan_startup_def lifespan_shutdown_def app_globals0_def
      split: prod.splits sum.splits)

lemma main_entry_fails: "main_entry = Inl (App_attribute_error ''HOST'')"
  by (simp add: main_entry_def settings_HOST_def)

subsection \<open>Concrete runs\<close>

theorem lifespan_keeps_managers_open_witness:
  "\<exists>r g. lifespan (\<lambda>k. Ctor_ok True) Deepl_client_ok = Inr (r, g) \<and> r = Inl (App_attribute_error ''cleanup'')"
proof -
  have "fst (ocr_initialize (\<lambda>k. Ctor_ok True) new_ocr_manager) = Inr ()"
    by (simp add: ocr_initialize_def new_ocr_manager_def)
  then obtain g0 where "lifespan_startup (\<lambda>k. Ctor_ok True) Deepl_client_ok app_globals0 = Inr g0"
    using lifespan_startup_fails [of "\<lambda>k. Ctor_ok True" Deepl_client_ok app_globals0]
    by (cases "lifespan_startup (\<lambda>k. Ctor_ok True) Deepl_client_ok app_globals0") auto
  then obtain r g where e: "lifespan (\<lambda>k. Ctor_ok True) Deepl_client_ok = Inr (r, g)"
    by (simp add: lifespan_def) (metis prod.exhaust)
  show ?thesis using lifespan_keeps_managers_open [OF e] e by blast
qed

end
