(* ===== verification/Spec2Isabelle.thy ===== *)
theory Spec2Isabelle
  imports Routes Layout Image_Utils Batch_Schedule Font_Cache Image_Codec App
begin

text \<open>
  \<^bold>\<open>A verification development for the InkTranslator backend\<close> (\<open>src/backend/src\<close>).

  \<^bold>\<open>The program.\<close> A request carries an image, a source and a target language.
  \<open>services/orchestrator.py\<close> (\<open>TranslationOrchestrator.process_manga_translation\<close>) runs four
  stages in sequence and reports each stage to an optional status callback: OCR
  (\<open>services/ocr\<close>: an engine chosen by \<open>OCRManager.get_ocr_service\<close>, then
  \<open>OCRService._merge_nearby_boxes\<close>); translation of all boxes as one request, packed with
  positional markers \<open>[i]..[/i]\<close> and sent to \<open>TranslationManager.translate\<close>
  (\<open>services/translate\<close>), which tries DeepL and then Google, each a \<open>BaseTranslator\<close> with
  rate limiting, retries and output clean-up; inpainting (\<open>services/inpaint\<close>); and rendering
  (\<open>services/render\<close>: \<open>TextRenderer\<close> with the \<open>FontManager\<close> and \<open>LayoutCalculator\<close> of
  the layout engine). Around it, \<open>routes/routers/translation.py\<close> validates the upload, runs
  the orchestrator with a callback that writes the stage of the session into the
  \<open>processing_status\<close> store read by \<open>/status\<close>, and encodes the result; \<open>main.py\<close> adds a
  request-size middleware and exception handlers, \<open>routes/dependencies.py\<close> a rate limiter and
  API-key checks, \<open>routes/routers/health.py\<close> the health check.

  \<^bold>\<open>The theories.\<close>
  \<^item> \<open>Prelude\<close>: the Python builtins the code calls on strings (\<open>strip\<close>, \<open>split\<close>, \<open>join\<close>,
    \<open>lower\<close>, \<open>str(n)\<close>, \<open>int(s)\<close>) over an 8-bit alphabet (ASCII exact; codes 128 to 191
    stand for non-ASCII punctuation and codes from 192 for non-ASCII letters such as CJK),
    the lemmas on them and on lists used as stores, and code equations that evaluate the
    character classes on the bits of a character.
  \<^item> \<open>Schemas\<close>: \<open>models/schemas.py\<close> and the language tables of \<open>config.py\<close>: enums as
    datatypes, \<open>BoundingBox\<close> and \<open>TextBox\<close> as records.
  \<^item> \<open>Translator\<close>: \<open>BaseTranslator.translate\<close> with both providers
    (\<open>google_translator.py\<close>, \<open>deepl_translator.py\<close>) as one record with a kind field; the
    network is an oracle \<open>api\<close>, the clock a real threaded through the calls, the retry loop
    structural recursion on the attempts left.
  \<^item> \<open>Manager\<close>: \<open>TranslationManager\<close>: construction, the provider fallback loop,
    \<open>translate_batch\<close> under the sequential schedule, \<open>translate_with_service\<close>, the service
    queries and \<open>close\<close>; its well-formedness invariant and that every operation keeps it.
  \<^item> \<open>Marker_Packing\<close>: the translation stage of the orchestrator: reading order, packing,
    \<open>re.findall\<close> of the marker pattern, distribution and its fallbacks, with the manager as
    a parameter.
  \<^item> \<open>Ocr\<close>: the merge loop as written and the OCR manager; recognition is an oracle that
    returns the detected boxes.
  \<^item> \<open>Orchestrator\<close>: the pipeline over an abstract image type, with inpainter and renderer
    oracles, the status callback as the list of stages it receives, and the stage machine of
    the spec as an inductive relation.
  \<^item> \<open>Layout\<close>: \<open>font_manager.py\<close> (measuring, both wraps, the hyphenating breaker, the
    binary search for the font size, \<open>get_text_layout_info\<close>), \<open>layout_calculator.py\<close> (every
    method) and what \<open>text_renderer.py\<close> draws, as a list of draw operations; glyph metrics
    are an oracle \<open>font_metrics\<close> indexed by the language and size of \<open>get_font\<close>.
  \<^item> \<open>Font_Cache\<close>: the font paths \<open>FontManager\<close> builds from \<open>font_mappings\<close>, the lookup
    with its language families, and \<open>get_font\<close> with its cache keyed by
    \<open>f"{language}_{size}"\<close>; the file system and \<open>ImageFont.truetype\<close> are oracles.
  \<^item> \<open>Inpaint\<close>: \<open>mask_generator.py\<close> and \<open>opencv_inpainter.py\<close>; masks are exact
    \<open>uint8\<close> arrays (functions to \<open>8 word\<close>) with NumPy's slice semantics, OpenCV's pixel
    work an oracle record \<open>cv_ops\<close>.
  \<^item> \<open>Http_Layer\<close>: the exceptions and the four handlers of \<open>main.py\<close>, the request-size
    middleware with Python's \<open>int()\<close> of the header, \<open>get_client_ip\<close>, the rate limiter over
    its store (a map from addresses to request times) with its reachable states as an
    inductive predicate, the API-key checks and the health check on \<open>psutil\<close> readings.
  \<^item> \<open>Routes\<close>: \<open>translate_manga\<close>, \<open>get_processing_status\<close>, \<open>cleanup_status\<close> and the upload
    validation, over an API state holding the status store and the orchestrator's state;
    the orchestrator is a parameter, instantiated with \<open>process_manga_translation\<close>.
  \<^item> \<open>Image_Utils\<close>: \<open>ImageUtils\<close>; \<open>resize_image\<close> over an exact model of binary64 true
    division, multiplication and \<open>int()\<close> (a double is a pair \<open>(m, e)\<close> for \<open>m * 2 ^ e\<close>),
    cropping with slice semantics, drawing as a list of OpenCV calls.
  \<^item> \<open>Batch_Schedule\<close>: the interleavings of \<open>translate_batch\<close>'s tasks on one provider as an
    inductive step relation: each task enters \<open>_ratelimit_sleep\<close> (sending at once or
    sleeping), wakes and finishes its request, under a semaphore of \<open>max_concurrent\<close>
    places, with explicit clock steps.
  \<^item> This theory: the inpainting and rendering stages of \<open>Orchestrator\<close> with
    \<open>OpenCVInpainter\<close> and the layout engine plugged in, and the whole pipeline with both.

  \<^bold>\<open>What is shown.\<close> The pipeline fails exactly when OCR fails or finds nothing, reports a run
  of the spec's stage machine, and degrades to the original text under a provider outage;
  with the OpenCV inpainter and the layout engine a completed run is the image inpainted box by
  box and then drawn with the layout of every box with a non-blank translation. Behind
  \<open>/translate\<close> the status store ends in completed after a success and in error after a
  failed run. The rate limiter never stores more than its limit for an address in any
  reachable state (rule induction) and never locks a client out for good (a liveness
  property: some later time admits); the middleware parses a decimal length back to its
  number. Shrinking an image to a maximum width yields that width or one less, under exact
  binary64 rounding (the error bound of correctly rounded division and multiplication).
  The font cache is transparent: \<open>get_font\<close> answers what loading the language's font at the
  size answers, because the cache key determines language and size (which also justifies
  indexing the glyph metrics of \<open>Layout\<close> by the pair). With a semaphore of one, batch requests keep the provider's spacing in every reachable
  state (rule induction on the schedule); with the semaphore of three the code uses, an
  explicit interleaving sends two requests at the same instant.
  The marker
  parser inverts the packing; the translation stage assigns every box a translation or its
  original text and changes nothing else. The fallback loop returns a non-blank translation
  of an available provider and leaves later providers untouched; the manager's invariant
  holds across its operations. The binary search equals the reference \<open>largest_fit\<close> when
  fitting is downward closed, is monotone in the height and ends within five iterations;
  the Latin wrap keeps the words and the CJK wrap the characters; drawn characters stay
  right of the box's left edge; overlap resolution keeps sizes and clears the other box.
  Closed theorems on concrete runs record where the code departs from the spec (each is a
  finding of the manifest): the merge raises \<open>AttributeError\<close>, Google rate limits do not reach
  the manager, the retry query leaks into the repair, legacy language codes are rejected, the
  CJK size floor is not applied to the default, the vertical renderer drops columns,
  \<open>optimize_text_layout\<close> can leave overlaps, the combined-mask inpainting always falls back
  (\<open>settings.inpaint_padding\<close> does not exist), \<open>/health\<close> always answers 500, the target
  language \<open>default\<close> gives a 500, and resizing 22 columns to at most 15 gives 14.

  \<^bold>\<open>Bounds.\<close> Python integers are \<open>int\<close>. Float factors (0.4, 0.3, 1.1 with the multiplier
  at its setting 1.0) are exact floors of fractions (\<open>frac_floor\<close>; see \<open>Layout\<close> for why this
  agrees with the float arithmetic). The font-size loop is a terminating \<open>function\<close>; its
  iteration count is bounded by an iteration budget \<open>bsearch_fuel\<close>, and five iterations
  suffice because the range \<open>[6, 30]\<close> has 25 sizes. The retry loop has
  \<open>1 + _INVALID_REPEAT_COUNT\<close> attempts and needs no fuel. Binary64 values are modelled in
  the normal range only (no overflow, no subnormals), which image sizes never leave; the
  resize bound assumes widths below \<open>2 ^ 50\<close>, where two relative errors of \<open>2 ^ -53\<close> stay
  under one pixel. Times of the rate limiter are reals (\<open>time.time()\<close>).

  \<^bold>\<open>Not modelled.\<close> The pixel work of OpenCV and PIL (thresholds, morphology,
  \<open>cv2.inpaint\<close>, decoding and encoding, CLAHE enhancement, colour conversions, base64),
  which is an oracle wherever the code calls it; font files and the font cache; the
  FastAPI wiring of \<open>main.py\<close> (app construction, CORS, the logging middleware, lifespan
  start-up, uvicorn); session ids, logging, and the asynchronous scheduling beyond the
  sequential order the code awaits in (the delayed cleanup is a separate operation).
\<close>

section \<open>The rendering stage with the layout engine\<close>

text \<open>\<open>TextRenderer.render_text\<close> as the renderer the orchestrator calls: the draw operations of
  the layout engine applied in order to the image by PIL's \<open>draw.text\<close>, an oracle \<open>draw\<close>;
  an exception of the layout engine is a failed call.\<close>

definition layout_renderer :: "font_metrics \<Rightarrow> ('img \<Rightarrow> draw_op \<Rightarrow> 'img) \<Rightarrow> 'img renderer" where
  "layout_renderer fm draw img tb lang =
     (case render_text fm tb lang of Inl _ \<Rightarrow> None | Inr ops \<Rightarrow> Some (fold (\<lambda>op acc. draw acc op) ops img))"

definition draw_box :: "font_metrics \<Rightarrow> ('img \<Rightarrow> draw_op \<Rightarrow> 'img) \<Rightarrow> language \<Rightarrow> text_box \<Rightarrow> 'img \<Rightarrow> 'img" where
  "draw_box fm draw lang tb img =
     fold (\<lambda>op acc. draw acc op) (case render_text fm tb lang of Inr ops \<Rightarrow> ops | Inl _ \<Rightarrow> []) img"

text \<open>\<open>self.inpainter.inpaint_textbox(result_image, text_box)\<close> with its default method: the
  inpainter the orchestrator calls.\<close>

definition opencv_inpainter :: "'img cv_ops \<Rightarrow> 'img inpainter" where
  "opencv_inpainter cv img tb = Some (inpaint_textbox cv img tb ''telea'')"

section \<open>The preview (\<open>get_processing_preview\<close>)\<close>

text \<open>\<open>_extract_text(image, source_language)\<close> with the language as the string the caller
  gives: \<open>get_ocr_service\<close> lower-cases it to choose the engine, the engine receives it as
  given.\<close>

definition preview_extract_text ::
  "ocr_env \<Rightarrow> ocr_engine \<Rightarrow> ocr_manager \<Rightarrow> string \<Rightarrow> (ocr_error + text_box list) \<times> ocr_manager" where
  "preview_extract_text env eng om lang =
     (case get_ocr_service env om (py_lower_str lang) of
        (Inl e, om') \<Rightarrow> (Inl e, om')
      | (Inr k, om') \<Rightarrow> (extract_text eng k lang, om'))"

text \<open>\<open>get_processing_preview\<close>: the boxes and the image with the boxes drawn by
  \<open>ImageUtils.draw_text_boxes\<close> (default thickness 2); a failure of the OCR stage is raised as a
  \<open>ProcessingError\<close>. Unlike \<open>process_manga_translation\<close>, no text is not an error.\<close>

definition get_processing_preview ::
  "ocr_env \<Rightarrow> ocr_engine \<Rightarrow> ('img \<Rightarrow> cv_draw \<Rightarrow> 'img) \<Rightarrow> (string \<Rightarrow> int \<times> int) \<Rightarrow> pipeline_state \<Rightarrow>
   'img \<Rightarrow> string \<Rightarrow> (pipeline_error + text_box list \<times> 'img) \<times> pipeline_state" where
  "get_processing_preview env eng draw text_size st img lang =
     (case preview_extract_text env eng (ocr_mgr st) lang of
        (Inl e, om) \<Rightarrow> (Inl (Text_extraction_failed e), st\<lparr>ocr_mgr := om\<rparr>)
      | (Inr bs, om) \<Rightarrow> (Inr (bs, draw_text_boxes draw text_size img bs 2), st\<lparr>ocr_mgr := om\<rparr>))"

lemma render_loop_layout:
  "\<forall>f. 0 < cjk_line_height fm f \<Longrightarrow>
   render_loop (layout_renderer fm draw) lang img bs =
   Some (fold (draw_box fm draw lang) (filter (\<lambda>tb. \<not> py_blank (translated_text tb)) bs) img)"
proof (induction bs arbitrary: img)
  case Nil
  then show ?case by simp
next
  case (Cons tb bs)
  show ?case
  proof (cases "py_blank (translated_text tb)")
    case True
    then show ?thesis using Cons by simp
  next
    case False
    then obtain ops where "render_text fm tb lang = Inr ops" using render_text_total Cons.prems by blast
    then show ?thesis using Cons False by (simp add: layout_renderer_def draw_box_def)
  qed
qed

lemma render_stage_draws_every_box:
  "\<forall>f. 0 < cjk_line_height fm f \<Longrightarrow>
   render_translated_text (layout_renderer fm draw) img bs lang =
   fold (draw_box fm draw lang) (filter (\<lambda>tb. \<not> py_blank (translated_text tb)) bs) img"
  by (simp add: render_translated_text_def render_loop_layout)

lemma inpaint_loop_opencv:
  "inpaint_loop (opencv_inpainter cv) img bs = Some (inpaint_multiple_textboxes cv img bs ''telea'')"
  unfolding inpaint_multiple_textboxes_def
  by (induction bs arbitrary: img) (simp_all add: opencv_inpainter_def)

lemma inpaint_stage_opencv:
  "inpaint_text_regions (opencv_inpainter cv) img bs = inpaint_multiple_textboxes cv img bs ''telea''"
  by (simp add: inpaint_text_regions_def inpaint_loop_opencv)

lemma py_lower_language_value [simp]: "py_lower_str (language_value l) = language_value l"
  by (cases l) (simp_all add: py_lower_str_def py_lower_code py_isupper_code)

text \<open>The preview shows the boxes the translation pipeline works on: for a language of the
  request, its OCR step is the OCR stage of \<open>process_manga_translation\<close>, with the same state
  change of the OCR manager.\<close>

lemma preview_shows_pipeline_boxes:
  "get_processing_preview env eng draw ts st img (language_value l) =
   (case extract_text_stage env eng (ocr_mgr st) l of
      (Inl e, om) \<Rightarrow> (Inl (Text_extraction_failed e), st\<lparr>ocr_mgr := om\<rparr>)
    | (Inr bs, om) \<Rightarrow> (Inr (bs, draw_text_boxes draw ts img bs 2), st\<lparr>ocr_mgr := om\<rparr>))"
  by (simp add: get_processing_preview_def preview_extract_text_def extract_text_stage_def
      split: prod.split sum.split)

text \<open>
  C5. With the OpenCV inpainter and the layout engine as the collaborators of the pipeline (and
  a font whose line height is positive), the image of a completed run is the input image with
  every box inpainted in turn by \<open>inpaint_textbox\<close>, then every box with a non-blank
  translation drawn in order with the draw operations of the layout engine: neither stage
  falls back to its input.\<close>

theorem pipeline_with_engines:
  assumes "\<forall>f. 0 < cjk_line_height fm f"
    and "fst (process_manga_translation oenv eng denv api (opencv_inpainter cv) (layout_renderer fm draw) cb img req st)
         = Inr (img', bs')"
  shows "img' = fold (draw_box fm draw (target_language req)) (filter (\<lambda>tb. \<not> py_blank (translated_text tb)) bs')
                 (inpaint_multiple_textboxes cv img bs' ''telea'')"
  using assms(2)
  by (auto simp: process_manga_translation_cases inpaint_stage_opencv render_stage_draws_every_box [OF assms(1)]
      split: prod.splits sum.splits if_splits)

theorem pipeline_with_engines_witness:
  "[Draw_line ''Hello'' 2 10] =
   fold (draw_box \<lparr>text_bbox = (\<lambda>(l, sz) t. (sz * int (length t), sz)), cjk_line_height = (\<lambda>_. 12)\<rparr>
           (\<lambda>acc op. acc @ [op]) English)
     (filter (\<lambda>tb. \<not> py_blank (translated_text tb))
        [\<lparr>box_text = ''Hello'', bbox = mk_bbox 0 0 100 40, translated_text = ''Hello''\<rparr>])
     (inpaint_multiple_textboxes
        \<lparr>shape = (\<lambda>_. (100, 100)), adaptive_threshold = (\<lambda>_ _. None), smart_threshold = (\<lambda>_ _. Some zeros),
         canny_edges = (\<lambda>_. None), roi_stats = (\<lambda>_ _. None), cv_inpaint = (\<lambda>img m r f. Some img),
         blend_region = (\<lambda>_ _ _. None), overlay_mask = (\<lambda>img m. img)\<rparr>
        [] [\<lparr>box_text = ''Hello'', bbox = mk_bbox 0 0 100 40, translated_text = ''Hello''\<rparr>] ''telea'')"
proof -
  have h: "\<forall>f. 0 < cjk_line_height \<lparr>text_bbox = (\<lambda>(l, sz) t. (sz * int (length t), sz)), cjk_line_height = (\<lambda>_. 12)\<rparr> f"
    by simp
  have run: "fst (process_manga_translation (\<lambda>k. Ctor_ok True) (\<lambda>k l. Some [mk_text_box ''Hello'' (mk_bbox 0 0 100 40)])
      Deepl_missing_package (\<lambda>k f t q. Api_ok ''Bonjour'')
      (opencv_inpainter
        \<lparr>shape = (\<lambda>_. (100, 100)), adaptive_threshold = (\<lambda>_ _. None), smart_threshold = (\<lambda>_ _. Some zeros),
         canny_edges = (\<lambda>_. None), roi_stats = (\<lambda>_ _. None), cv_inpaint = (\<lambda>img m r f. Some img),
         blend_region = (\<lambda>_ _ _. None), overlay_mask = (\<lambda>img m. img)\<rparr>)
      (layout_renderer \<lparr>text_bbox = (\<lambda>(l, sz) t. (sz * int (length t), sz)), cjk_line_height = (\<lambda>_. 12)\<rparr>
         (\<lambda>acc op. acc @ [op]))
      False [] \<lparr>source_language = English, target_language = English\<rparr>
      \<lparr>ocr_mgr = new_ocr_manager, trans_mgr = new_manager None, clock = 0\<rparr>) =
    Inr ([Draw_line ''Hello'' 2 10], [\<lparr>box_text = ''Hello'', bbox = mk_bbox 0 0 100 40, translated_text = ''Hello''\<rparr>])"
    by code_simp
  show ?thesis using pipeline_with_engines [OF h run] by simp
qed

end
